(* ===== verification/Prelude.thy ===== *)
theory Prelude
  imports Main "HOL-Library.Sublist" "HOL-Library.List_Lexorder" "HOL-Library.Char_ord"
    "HOL-Library.Word"
begin

text \<open>
  Shared vocabulary of the development: Rust's \<open>Result\<close> as a sum type with the combinators that
  stand for \<open>?\<close>, \<open>ok_or\<close>, \<open>collect\<close> and \<open>try_take_while\<close>; the string functions of the standard
  library the code uses; checked integer conversions; big-endian bytes; and ordered maps, the
  contents of a key-value store listed in key order.
\<close>

named_theorems res_simps \<open>rewriting of the result combinators\<close>
named_theorems str_simps \<open>rewriting of the string functions\<close>

type_synonym u8 = "8 word"
type_synonym u32 = "32 word"
type_synonym u64 = "64 word"
type_synonym i64 = "64 word"
type_synonym bytes = "u8 list"

section \<open>Results\<close>

text \<open>\<open>Result<T, E>\<close> is \<open>'e + 'a\<close>. The operator \<open>?\<close> is \<open>ebind\<close>.\<close>

fun ebind :: "'e + 'a \<Rightarrow> ('a \<Rightarrow> 'e + 'b) \<Rightarrow> 'e + 'b" where
  "ebind (Inl e) f = Inl e"
| "ebind (Inr x) f = f x"

definition ok_or :: "'e \<Rightarrow> 'a option \<Rightarrow> 'e + 'a" where
  "ok_or e v = (case v of None \<Rightarrow> Inl e | Some x \<Rightarrow> Inr x)"

definition check :: "bool \<Rightarrow> 'e \<Rightarrow> 'e + unit" where
  "check b e = (if b then Inr () else Inl e)"

definition ok :: "'e + 'a \<Rightarrow> 'a option" where
  "ok r = (case r of Inl _ \<Rightarrow> None | Inr x \<Rightarrow> Some x)"

fun is_ok :: "'e + 'a \<Rightarrow> bool" where
  "is_ok (Inl e) = False"
| "is_ok (Inr x) = True"

text \<open>\<open>collect::<Result<Vec<_>, _>>()\<close> and \<open>try_collect\<close>: the first error, or all the values.\<close>

fun ecollect :: "('e + 'a) list \<Rightarrow> 'e + 'a list" where
  "ecollect [] = Inr []"
| "ecollect (r # rs) = ebind r (\<lambda>x. ebind (ecollect rs) (\<lambda>xs. Inr (x # xs)))"

text \<open>\<open>try_take_while\<close> followed by \<open>try_collect\<close>: it stops at the first value that fails the test
  without looking at what follows, and an error before that ends the stream.\<close>

fun try_take_while :: "('a \<Rightarrow> bool) \<Rightarrow> ('e + 'a) list \<Rightarrow> 'e + 'a list" where
  "try_take_while p [] = Inr []"
| "try_take_while p (Inl e # rs) = Inl e"
| "try_take_while p (Inr x # rs) =
     (if p x then ebind (try_take_while p rs) (\<lambda>xs. Inr (x # xs)) else Inr [])"

text \<open>A loop over a stream that ends at the first error: \<open>while let Some(Ok(x)) = stream.next()\<close>.\<close>

fun while_ok :: "('e + 'a) list \<Rightarrow> 'a list" where
  "while_ok [] = []"
| "while_ok (Inl e # rs) = []"
| "while_ok (Inr x # rs) = x # while_ok rs"

text \<open>
  A method on \<open>&mut self\<close> returns the state it leaves together with its result: changes made before
  an error stay. \<open>lift_res\<close> is a fallible read in the middle of such a method, \<open>andthen\<close> its
  sequencing.
\<close>

fun andthen :: "'s \<times> ('e + 'a) \<Rightarrow> ('a \<Rightarrow> 's \<Rightarrow> 's \<times> ('e + 'b)) \<Rightarrow> 's \<times> ('e + 'b)" where
  "andthen (s, Inl e) k = (s, Inl e)"
| "andthen (s, Inr x) k = k x s"

definition lift_res :: "'s \<Rightarrow> 'e + 'a \<Rightarrow> ('a \<Rightarrow> 's \<times> ('e + 'b)) \<Rightarrow> 's \<times> ('e + 'b)" where
  "lift_res s r k = (case r of Inl e \<Rightarrow> (s, Inl e) | Inr x \<Rightarrow> k x)"

fun for_each :: "('x \<Rightarrow> 's \<Rightarrow> 's \<times> ('e + unit)) \<Rightarrow> 'x list \<Rightarrow> 's \<Rightarrow> 's \<times> ('e + unit)" where
  "for_each f [] s = (s, Inr ())"
| "for_each f (x # xs) s = andthen (f x s) (\<lambda>_. for_each f xs)"

lemma ebind_Inr_iff [res_simps]: "(ebind r f = Inr y) = (\<exists>x. r = Inr x \<and> f x = Inr y)"
  by (cases r) auto

lemma ebind_Inl_iff: "(ebind r f = Inl e) = (r = Inl e \<or> (\<exists>x. r = Inr x \<and> f x = Inl e))"
  by (cases r) auto

lemma ok_or_simps [simp]: "ok_or e None = Inl e" "ok_or e (Some x) = Inr x"
  by (auto simp: ok_or_def)

lemma ok_or_Inr [res_simps]: "(ok_or e v = Inr x) = (v = Some x)"
  by (cases v) auto

lemma check_Inr [res_simps]: "(check b e = Inr u) = b"
  by (simp add: check_def)

lemma check_Inl: "(check b e = Inl e') = (\<not> b \<and> e' = e)"
  by (auto simp: check_def)

lemma check_simps [simp]: "check True e = Inr ()" "check False e = Inl e"
  by (simp_all add: check_def)

lemma ok_simps [simp]: "ok (Inl e) = None" "ok (Inr x) = Some x"
  by (simp_all add: ok_def)

lemma ebind_assoc: "ebind (ebind r f) g = ebind r (\<lambda>x. ebind (f x) g)"
  by (cases r) auto

lemma ebind_Inr_id [simp]: "ebind r Inr = r"
  by (cases r) auto

lemma lift_res_simps [simp]: "lift_res s (Inl e) k = (s, Inl e)" "lift_res s (Inr x) k = k x"
  by (simp_all add: lift_res_def)

lemma ecollect_map_Inr [simp]: "ecollect (map (\<lambda>x. Inr (f x)) xs) = Inr (map f xs)"
  by (induction xs) auto

lemma ecollect_map_cong_Inr:
  "(\<And>x. x \<in> set xs \<Longrightarrow> g x = Inr (f x)) \<Longrightarrow> ecollect (map g xs) = Inr (map f xs)"
  by (induction xs) auto

lemma ecollect_length: "ecollect rs = Inr xs \<Longrightarrow> length xs = length rs"
  by (induction rs arbitrary: xs) (auto simp: res_simps)

lemma ecollect_Inr_iff: "(ecollect rs = Inr xs) = (rs = map Inr xs)"
  by (induction rs arbitrary: xs) (auto simp: res_simps map_eq_Cons_conv Cons_eq_map_conv)

lemma try_take_while_map_Inr [simp]:
  "try_take_while p (map (\<lambda>x. Inr (f x)) xs) = Inr (takeWhile p (map f xs))"
  by (induction xs) auto

lemma try_take_while_cong_Inr:
  "(\<And>x. x \<in> set xs \<Longrightarrow> g x = Inr (f x)) \<Longrightarrow>
    try_take_while p (map g xs) = Inr (takeWhile p (map f xs))"
  by (induction xs) auto

lemma while_ok_map_Inr [simp]: "while_ok (map (\<lambda>x. Inr (f x)) xs) = map f xs"
  by (induction xs) auto

lemma for_each_append:
  "for_each f (xs @ ys) s = andthen (for_each f xs s) (\<lambda>_. for_each f ys)"
proof (induction xs arbitrary: s)
  case Nil
  then show ?case by simp
next
  case (Cons x xs)
  obtain s' r where fx: "f x s = (s', r)" by fastforce
  with Cons show ?case by (cases r) auto
qed

text \<open>An invariant kept by every step of a loop is kept by the loop.\<close>

lemma for_each_invariant:
  assumes "P s" and "\<And>x s. x \<in> set xs \<Longrightarrow> P s \<Longrightarrow> P (fst (f x s))"
  shows "P (fst (for_each f xs s))"
  using assms
proof (induction xs arbitrary: s)
  case Nil
  then show ?case by simp
next
  case (Cons x xs)
  obtain s' r where fx: "f x s = (s', r)" by fastforce
  from Cons.prems fx have P': "P s'" by (metis fst_conv list.set_intros(1))
  show ?case
  proof (cases r)
    case (Inl e)
    with fx P' show ?thesis by simp
  next
    case (Inr u)
    with fx P' Cons show ?thesis by simp
  qed
qed

lemma for_each_total:
  assumes "P s" and "\<And>x s. x \<in> set xs \<Longrightarrow> P s \<Longrightarrow> P (fst (f x s)) \<and> snd (f x s) = Inr ()"
  shows "snd (for_each f xs s) = Inr ()"
  using assms
proof (induction xs arbitrary: s)
  case Nil
  then show ?case by simp
next
  case (Cons x xs)
  obtain s' r where fx: "f x s = (s', r)" by fastforce
  with Cons show ?case by (metis andthen.simps(2) for_each.simps(2) fst_conv list.set_intros snd_conv)
qed

section \<open>Strings\<close>

text \<open>
  A Rust \<open>String\<close> is the list of its UTF-8 bytes, each a \<open>char\<close>. \<open>split_on\<close> is \<open>str::split\<close> with a
  single-byte separator, \<open>join\<close> is \<open>[_]::join\<close>, \<open>rfind\<close> the position of the last occurrence.
\<close>

fun split_on :: "'a \<Rightarrow> 'a list \<Rightarrow> 'a list list" where
  "split_on c [] = [[]]"
| "split_on c (x # xs) =
     (if x = c then [] # split_on c xs
      else (case split_on c xs of [] \<Rightarrow> [[x]] | y # ys \<Rightarrow> (x # y) # ys))"

fun join :: "'a list \<Rightarrow> 'a list list \<Rightarrow> 'a list" where
  "join sep [] = []"
| "join sep [x] = x"
| "join sep (x # y # zs) = x @ sep @ join sep (y # zs)"

definition strip_prefix :: "'a list \<Rightarrow> 'a list \<Rightarrow> 'a list option" where
  "strip_prefix p s = (if prefix p s then Some (drop (length p) s) else None)"

definition strip_suffix :: "'a list \<Rightarrow> 'a list \<Rightarrow> 'a list option" where
  "strip_suffix p s = (if suffix p s then Some (take (length s - length p) s) else None)"

definition trim_start_matches :: "'a \<Rightarrow> 'a list \<Rightarrow> 'a list" where
  "trim_start_matches c s = dropWhile (\<lambda>x. x = c) s"

definition trim_end_matches :: "'a \<Rightarrow> 'a list \<Rightarrow> 'a list" where
  "trim_end_matches c s = rev (dropWhile (\<lambda>x. x = c) (rev s))"

definition rfind :: "'a \<Rightarrow> 'a list \<Rightarrow> nat option" where
  "rfind c s = (if c \<in> set s then Some (length s - 1 - length (takeWhile (\<lambda>x. x \<noteq> c) (rev s))) else None)"

lemma split_on_not_Nil [simp]: "split_on c xs \<noteq> []"
  by (induction xs) (auto split: list.splits)

lemma split_on_single [str_simps]: "c \<notin> set xs \<Longrightarrow> split_on c xs = [xs]"
  by (induction xs) auto

lemma split_on_append [str_simps]: "c \<notin> set xs \<Longrightarrow> split_on c (xs @ c # ys) = xs # split_on c ys"
  by (induction xs) auto

lemma split_on_join:
  assumes "xs \<noteq> []" "\<forall>x \<in> set xs. c \<notin> set x"
  shows "split_on c (join [c] xs) = xs"
  using assms
proof (induction "[c]" xs rule: join.induct)
  case (3 x y zs)
  then show ?case by (simp add: split_on_append)
qed (auto simp: split_on_single)

lemma join_split_on: "join [c] (split_on c s) = s"
proof (induction s)
  case (Cons x xs)
  then show ?case
    by (cases "split_on c xs" rule: list.exhaust; cases "tl (split_on c xs)") (auto split: list.splits)
qed simp

lemma strip_prefix_append [simp]: "strip_prefix p (p @ s) = Some s"
  by (simp add: strip_prefix_def)

lemma strip_prefix_Some: "strip_prefix p s = Some r \<Longrightarrow> s = p @ r"
  by (auto simp: strip_prefix_def prefix_def split: if_splits)

lemma strip_suffix_append [simp]: "strip_suffix p (s @ p) = Some s"
  by (simp add: strip_suffix_def suffix_def)

lemma rfind_append [str_simps]: "c \<notin> set ys \<Longrightarrow> rfind c (xs @ c # ys) = Some (length xs)"
  by (auto simp: rfind_def takeWhile_append2 takeWhile_append)

lemma prefix_append_not_in:
  assumes "prefix (xs @ [c]) (ys @ c # zs)" "c \<notin> set xs" "c \<notin> set ys"
  shows "xs = ys"
proof -
  from assms(1) obtain r where "ys @ c # zs = (xs @ [c]) @ r" by (auto simp: prefix_def)
  then have "ys @ c # zs = xs @ c # r" by simp
  then have "split_on c (ys @ c # zs) = split_on c (xs @ c # r)" by simp
  with assms(2,3) show ?thesis by (simp add: split_on_append)
qed

lemma append_sep_eq:
  assumes "xs @ c # ys = xs' @ c # ys'" "c \<notin> set xs" "c \<notin> set xs'"
  shows "xs = xs' \<and> ys = ys'"
proof -
  from assms(1) have "split_on c (xs @ c # ys) = split_on c (xs' @ c # ys')" by simp
  with assms(2,3) have "xs = xs'" by (simp add: split_on_append)
  with assms(1) show ?thesis by simp
qed

lemma prefix_no_sep:
  assumes "c \<notin> set p" "prefix p (xs @ c # ys)"
  shows "prefix p xs"
proof -
  from assms(2) have "prefix p xs \<or> (\<exists>us. p = xs @ us \<and> prefix us (c # ys))"
    by (simp add: prefix_append)
  with assms(1) show ?thesis
    by (auto simp: prefix_Cons)
qed

section \<open>Checked integer conversions\<close>

text \<open>
  \<open>u64\<close> and \<open>i64\<close> are both 64-bit words, read by \<open>unat\<close> and \<open>sint\<close>. \<open>TryFrom\<close> between them keeps the
  bits and fails where the value does not fit; \<open>i64_or_max\<close> is \<open>i64::try_from(x).unwrap_or(i64::MAX)\<close>.
\<close>

definition i64_max :: i64 where "i64_max = 9223372036854775807"

definition u64_try_from_i64 :: "i64 \<Rightarrow> u64 option" where
  "u64_try_from_i64 w = (if 0 \<le> sint w then Some w else None)"

definition i64_or_max :: "u64 \<Rightarrow> i64" where
  "i64_or_max w = (if unat w \<le> 9223372036854775807 then w else i64_max)"

definition u32_try_from_i64 :: "i64 \<Rightarrow> u32 option" where
  "u32_try_from_i64 w = (if 0 \<le> sint w \<and> sint w < 4294967296 then Some (ucast w) else None)"

definition i64_from_u32 :: "u32 \<Rightarrow> i64" where "i64_from_u32 w = ucast w"

lemma sint_eq:
  "sint (w :: 64 word) =
    (if unat w \<le> 9223372036854775807 then int (unat w) else int (unat w) - 18446744073709551616)"
proof -
  let ?N = "9223372036854775808 :: int"
  have lt: "uint w < 2 * ?N" "0 \<le> uint w" using uint_lt2p [of w] by simp_all
  have "sint w = (uint w + ?N) mod (2 * ?N) - ?N"
    by (simp only: sint_uint signed_take_bit_eq_take_bit_shift take_bit_eq_mod) simp
  also have "(uint w + ?N) mod (2 * ?N) = (if uint w < ?N then uint w + ?N else uint w - ?N)"
  proof (cases "uint w < ?N")
    case True
    then have "(uint w + ?N) mod (2 * ?N) = uint w + ?N"
      using lt by (intro mod_pos_pos_trivial) linarith+
    with True show ?thesis by simp
  next
    case False
    then have "(uint w + ?N) mod (2 * ?N) = uint w - ?N"
      using lt by (intro int_mod_pos_eq [where q = 1]) linarith+
    with False show ?thesis by simp
  qed
  finally have *: "sint w = (if uint w < ?N then uint w + ?N else uint w - ?N) - ?N" .
  have u: "uint w = int (unat w)" by simp
  show ?thesis
  proof (cases "unat w \<le> 9223372036854775807")
    case True
    then have "uint w < ?N" unfolding u by linarith
    with True show ?thesis unfolding * by simp
  next
    case False
    then have "\<not> uint w < ?N" unfolding u by linarith
    with False show ?thesis unfolding * by simp
  qed
qed

lemma unat_lt_2_64: "unat (w :: 64 word) < 18446744073709551616"
  using unsigned_less [of w] by simp

lemma sint_nonneg_iff: "(0 \<le> sint (w :: 64 word)) = (unat w \<le> 9223372036854775807)"
proof (cases "unat w \<le> 9223372036854775807")
  case False
  then have "int (unat w) - 18446744073709551616 < 0" using unat_lt_2_64 [of w] by linarith
  then have "\<not> 0 \<le> int (unat w) - 18446744073709551616" by linarith
  with False show ?thesis by (simp only: sint_eq if_False)
qed (simp add: sint_eq)

lemma u64_try_from_i64_or_max [simp]:
  "unat w \<le> 9223372036854775807 \<Longrightarrow> u64_try_from_i64 (i64_or_max w) = Some w"
  by (simp add: u64_try_from_i64_def i64_or_max_def sint_nonneg_iff)

lemma i64_or_max_clamps: "u64_try_from_i64 (i64_or_max w) = Some (min w i64_max)"
  by (auto simp: u64_try_from_i64_def i64_or_max_def sint_nonneg_iff i64_max_def min_def word_le_nat_alt)

lemma i64_or_max_of_try: "u64_try_from_i64 w = Some v \<Longrightarrow> i64_or_max v = w"
  by (auto simp: u64_try_from_i64_def i64_or_max_def sint_nonneg_iff split: if_splits)

lemma u64_try_from_i64_Some: "u64_try_from_i64 w = Some v \<Longrightarrow> v = w \<and> unat v \<le> 9223372036854775807"
  by (auto simp: u64_try_from_i64_def sint_nonneg_iff split: if_splits)

lemma unat_i64_from_u32 [simp]: "unat (i64_from_u32 w) = unat w"
  by (simp add: i64_from_u32_def unat_eq_nat_uint uint_up_ucast is_up del: nat_uint_eq unsigned_ucast_eq)

lemma u32_try_from_i64_from_u32 [simp]: "u32_try_from_i64 (i64_from_u32 w) = Some w"
proof -
  have lt: "unat w < 4294967296" using unsigned_less [of w] by simp
  have "ucast (i64_from_u32 w) = w"
    unfolding i64_from_u32_def by (rule ucast_up_ucast_id) (simp add: is_up)
  moreover have "sint (i64_from_u32 w) = int (unat w)"
    using lt by (simp add: sint_eq)
  moreover have "int (unat w) < 4294967296" using lt by linarith
  ultimately show ?thesis by (simp add: u32_try_from_i64_def)
qed

section \<open>Big-endian bytes\<close>

text \<open>\<open>be_digits k n\<close> lists the last \<open>k\<close> base-256 digits of \<open>n\<close>, most significant first; \<open>to_be_bytes\<close>
  and \<open>from_be_bytes\<close> are the conversions of a 64-bit integer.\<close>

fun be_digits :: "nat \<Rightarrow> nat \<Rightarrow> bytes" where
  "be_digits 0 n = []"
| "be_digits (Suc k) n = word_of_nat (n div 256 ^ k) # be_digits k (n mod 256 ^ k)"

fun be_value :: "bytes \<Rightarrow> nat" where
  "be_value [] = 0"
| "be_value (b # bs) = unat b * 256 ^ length bs + be_value bs"

definition to_be_bytes :: "64 word \<Rightarrow> bytes" where
  "to_be_bytes w = be_digits 8 (unat w)"

definition from_be_bytes :: "bytes \<Rightarrow> 64 word" where
  "from_be_bytes bs = word_of_nat (be_value bs)"

lemma length_be_digits [simp]: "length (be_digits k n) = k"
  by (induction k arbitrary: n) auto

lemma length_to_be_bytes [simp]: "length (to_be_bytes w) = 8"
  by (simp add: to_be_bytes_def)

lemma unat_word_of_nat_u8: "n < 256 \<Longrightarrow> unat (word_of_nat n :: u8) = n"
  by (simp add: unsigned_of_nat take_bit_nat_eq_self)

lemma div_pow_less: "n < 256 ^ Suc k \<Longrightarrow> n div 256 ^ k < (256 :: nat)"
  by (simp add: less_mult_imp_div_less)

lemma be_value_digits: "n < 256 ^ k \<Longrightarrow> be_value (be_digits k n) = n"
proof (induction k arbitrary: n)
  case (Suc k)
  then show ?case
    by (simp add: unat_word_of_nat_u8 div_pow_less div_mult_mod_eq del: power_Suc)
qed simp

lemma from_to_be_bytes [simp]: "from_be_bytes (to_be_bytes w) = w"
  using unat_lt_2_64 [of w] by (simp add: from_be_bytes_def to_be_bytes_def be_value_digits)

text \<open>Fixed-length big-endian encodings are ordered as the numbers are.\<close>

lemma be_digits_less_iff:
  "\<lbrakk>m < 256 ^ k; n < 256 ^ k\<rbrakk> \<Longrightarrow> (be_digits k m < be_digits k n) = (m < n)"
proof (induction k arbitrary: m n)
  case (Suc k)
  let ?q = "\<lambda>x. x div 256 ^ k" and ?r = "\<lambda>x. x mod (256 :: nat) ^ k"
  have q: "?q m < 256" "?q n < 256" using Suc.prems by (auto intro: div_pow_less)
  have word: "(word_of_nat (?q m) < (word_of_nat (?q n) :: u8)) = (?q m < ?q n)"
    "(word_of_nat (?q m) = (word_of_nat (?q n) :: u8)) = (?q m = ?q n)"
    using q by (simp_all add: word_less_nat_alt word_unat_eq_iff unat_word_of_nat_u8)
  have IH: "(be_digits k (?r m) < be_digits k (?r n)) = (?r m < ?r n)"
    by (rule Suc.IH) simp_all
  have split: "m = ?q m * 256 ^ k + ?r m" "n = ?q n * 256 ^ k + ?r n"
    by (simp_all only: div_mult_mod_eq)
  have "(m < n) = (?q m < ?q n \<or> ?q m = ?q n \<and> ?r m < ?r n)"
  proof (cases "?q m" "?q n" rule: linorder_cases)
    case less
    then show ?thesis using div_le_mono [of n m "256 ^ k"] by (auto simp: not_less [symmetric])
  next
    case equal
    then show ?thesis using split by (metis nat_add_left_cancel_less less_irrefl)
  next
    case greater
    have "\<not> m \<le> n"
    proof
      assume "m \<le> n"
      then have "?q m \<le> ?q n" by (rule div_le_mono)
      with greater show False by simp
    qed
    with greater show ?thesis by simp
  qed
  then show ?case by (simp add: word IH)
qed simp

lemma to_be_bytes_less_iff: "(to_be_bytes v < to_be_bytes w) = (unat v < unat w)"
  using unat_lt_2_64 [of v] unat_lt_2_64 [of w]
  by (simp add: to_be_bytes_def be_digits_less_iff)

section \<open>UTF-8\<close>

text \<open>\<open>str::as_bytes\<close> and \<open>str::from_utf8\<close>: a string is its bytes, and the converse checks them.\<close>

definition as_bytes :: "string \<Rightarrow> bytes" where "as_bytes s = map (\<lambda>c. word_of_nat (of_char c)) s"

fun valid_utf8 :: "nat list \<Rightarrow> bool" where
  "valid_utf8 [] = True"
| "valid_utf8 (b # bs) =
    (let cont = (\<lambda>c. 128 \<le> c \<and> c < (192 :: nat)) in
     if b < 128 then valid_utf8 bs
     else if 194 \<le> b \<and> b < 224 then (case bs of c # cs \<Rightarrow> cont c \<and> valid_utf8 cs | _ \<Rightarrow> False)
     else if 224 \<le> b \<and> b < 240 then
       (case bs of c # d # cs \<Rightarrow> cont c \<and> cont d \<and> (b = 224 \<longrightarrow> 160 \<le> c) \<and> (b = 237 \<longrightarrow> c < 160) \<and> valid_utf8 cs
        | _ \<Rightarrow> False)
     else if 240 \<le> b \<and> b < 245 then
       (case bs of c # d # e # cs \<Rightarrow> cont c \<and> cont d \<and> cont e \<and> (b = 240 \<longrightarrow> 144 \<le> c) \<and> (b = 244 \<longrightarrow> c < 144)
          \<and> valid_utf8 cs
        | _ \<Rightarrow> False)
     else False)"

definition from_utf8 :: "bytes \<Rightarrow> string option" where
  "from_utf8 bs = (if valid_utf8 (map unat bs) then Some (map (\<lambda>b. char_of (unat b)) bs) else None)"

definition ascii :: "string \<Rightarrow> bool" where
  "ascii s = (\<forall>c \<in> set s. of_char c < (128 :: nat))"

lemma valid_utf8_ascii: "\<forall>b \<in> set bs. b < 128 \<Longrightarrow> valid_utf8 bs"
  by (induction bs) auto

lemma unat_of_char [simp]: "unat (word_of_nat (of_char c) :: u8) = of_char c"
proof (rule unat_word_of_nat_u8)
  have "(of_char c :: nat) mod 256 < 256" by simp
  then show "of_char c < (256 :: nat)" by simp
qed

lemma from_utf8_as_bytes: "ascii s \<Longrightarrow> from_utf8 (as_bytes s) = Some s"
  by (auto simp: from_utf8_def as_bytes_def ascii_def comp_def intro!: valid_utf8_ascii)

lemma as_bytes_append [simp]: "as_bytes (s @ t) = as_bytes s @ as_bytes t"
  by (simp add: as_bytes_def)

lemma length_as_bytes [simp]: "length (as_bytes s) = length s"
  by (simp add: as_bytes_def)

lemma as_bytes_inj [simp]: "(as_bytes s = as_bytes t) = (s = t)"
proof -
  have "inj (\<lambda>c :: char. word_of_nat (of_char c) :: u8)"
  proof (rule injI)
    fix c d :: char assume "(word_of_nat (of_char c) :: u8) = word_of_nat (of_char d)"
    then have "unat (word_of_nat (of_char c) :: u8) = unat (word_of_nat (of_char d) :: u8)" by simp
    then show "c = d" by (simp only: unat_of_char of_char_eq_iff)
  qed
  then show ?thesis by (simp add: as_bytes_def inj_map_eq_map)
qed

end
