(* ===== verification/Ordered_Map.thy ===== *)
theory Ordered_Map
  imports Prelude
begin

text \<open>
  The contents of a key-value store, as its read interface lists them: an association list in
  ascending byte order of its keys, with \<open>get\<close>, \<open>put\<close>, \<open>delete\<close> and the scan of a key prefix. The
  interface is the locale \<open>ordered_store\<close>; \<open>key_table\<close> extends it by a family of keys built by one
  key-construction function under one prefix, which is how every table of the state is laid out.
\<close>

section \<open>The interface\<close>

lemma strict_sorted_entries_unique:
  fixes xs ys :: "('k :: linorder \<times> 'v) list"
  assumes "sorted_wrt (<) (map fst xs)" "sorted_wrt (<) (map fst ys)" "set xs = set ys"
  shows "xs = ys"
  using assms
proof (induction xs arbitrary: ys)
  case (Cons x xs)
  then obtain y ys' where ys: "ys = y # ys'" by (cases ys) auto
  have x_min: "\<forall>p \<in> set xs. fst x < fst p" and y_min: "\<forall>p \<in> set ys'. fst y < fst p"
    using Cons.prems(1,2) ys by auto
  have "x \<in> set ys" "y \<in> set (x # xs)" using Cons.prems(3) ys by auto
  with ys x_min y_min have xy: "x = y" by (auto dest!: bspec)
  have "x \<notin> set xs" "y \<notin> set ys'" using x_min y_min by auto
  with Cons.prems(3) ys xy have "set xs = set ys'" by auto
  with Cons.IH [of ys'] Cons.prems(1,2) ys xy show ?case by simp
qed simp

locale ordered_store =
  fixes get :: "'m \<Rightarrow> 'k :: linorder list \<Rightarrow> 'v option"
    and put :: "'k list \<Rightarrow> 'v \<Rightarrow> 'm \<Rightarrow> 'm"
    and del :: "'k list \<Rightarrow> 'm \<Rightarrow> 'm"
    and scan :: "'k list \<Rightarrow> 'm \<Rightarrow> ('k list \<times> 'v) list"
    and invar :: "'m \<Rightarrow> bool"
  assumes get_put: "invar m \<Longrightarrow> get (put k v m) = (get m)(k \<mapsto> v)"
    and get_del: "invar m \<Longrightarrow> get (del k m) = (get m)(k := None)"
    and set_scan: "invar m \<Longrightarrow> set (scan p m) = {(k, v). prefix p k \<and> get m k = Some v}"
    and sorted_scan: "invar m \<Longrightarrow> sorted_wrt (<) (map fst (scan p m))"
    and invar_put: "invar m \<Longrightarrow> invar (put k v m)"
    and invar_del: "invar m \<Longrightarrow> invar (del k m)"
begin

lemma scan_cong:
  assumes "invar m" "invar m'" "\<And>k. prefix p k \<Longrightarrow> get m k = get m' k"
  shows "scan p m = scan p m'"
proof (rule strict_sorted_entries_unique)
  show "set (scan p m) = set (scan p m')"
    using assms by (auto simp: set_scan)
  show "sorted_wrt (<) (map fst (scan p m))" "sorted_wrt (<) (map fst (scan p m'))"
    using assms by (simp_all add: sorted_scan)
qed

lemma scan_put_frame: "invar m \<Longrightarrow> \<not> prefix p k \<Longrightarrow> scan p (put k v m) = scan p m"
  by (rule scan_cong) (auto simp: invar_put get_put)

lemma scan_del_frame: "invar m \<Longrightarrow> \<not> prefix p k \<Longrightarrow> scan p (del k m) = scan p m"
  by (rule scan_cong) (auto simp: invar_del get_del)

lemma distinct_scan: "invar m \<Longrightarrow> distinct (map fst (scan p m))"
  using sorted_scan strict_sorted_iff by blast

lemma scan_Nil_iff: "invar m \<Longrightarrow> (scan p m = []) = (\<forall>k. prefix p k \<longrightarrow> get m k = None)"
proof -
  assume "invar m"
  then have "(scan p m = []) = (set (scan p m) = {})" by simp
  also have "\<dots> = (\<forall>k. prefix p k \<longrightarrow> get m k = None)"
    using \<open>invar m\<close> by (auto simp: set_scan)
  finally show ?thesis .
qed

lemma in_scan_get: "invar m \<Longrightarrow> (k, v) \<in> set (scan p m) \<Longrightarrow> get m k = Some v"
  by (simp add: set_scan)

lemma in_scan_prefix: "invar m \<Longrightarrow> (k, v) \<in> set (scan p m) \<Longrightarrow> prefix p k"
  by (simp add: set_scan)

end

section \<open>The model's contents\<close>

type_synonym ('k, 'v) omap = "('k \<times> 'v) list"

definition om_invar :: "('k :: linorder, 'v) omap \<Rightarrow> bool" where
  "om_invar m = sorted_wrt (<) (map fst m)"

abbreviation om_empty :: "('k, 'v) omap" where "om_empty \<equiv> []"

abbreviation om_get :: "('k, 'v) omap \<Rightarrow> 'k \<Rightarrow> 'v option" where "om_get \<equiv> map_of"

fun om_put :: "'k :: linorder \<Rightarrow> 'v \<Rightarrow> ('k, 'v) omap \<Rightarrow> ('k, 'v) omap" where
  "om_put k v [] = [(k, v)]"
| "om_put k v ((a, b) # m) =
     (if k < a then (k, v) # (a, b) # m else if k = a then (k, v) # m else (a, b) # om_put k v m)"

definition om_del :: "'k \<Rightarrow> ('k, 'v) omap \<Rightarrow> ('k, 'v) omap" where
  "om_del k m = filter (\<lambda>e. fst e \<noteq> k) m"

definition om_scan :: "'k list \<Rightarrow> ('k list, 'v) omap \<Rightarrow> ('k list \<times> 'v) list" where
  "om_scan p m = filter (\<lambda>e. prefix p (fst e)) m"

lemma om_get_put: "om_get (om_put k v m) = (om_get m)(k \<mapsto> v)"
  by (induction k v m rule: om_put.induct) auto

lemma om_get_del: "om_get (om_del k m) = (om_get m)(k := None)"
  by (induction m) (auto simp: om_del_def)

lemma set_om_put: "fst ` set (om_put k v m) = insert k (fst ` set m)"
  by (induction k v m rule: om_put.induct) auto

lemma om_invar_put: "om_invar m \<Longrightarrow> om_invar (om_put k v m)"
proof (induction k v m rule: om_put.induct)
  case (2 k v a b m)
  have "\<forall>x \<in> set (map fst (om_put k v m)). x = k \<or> x \<in> fst ` set m"
    using set_om_put [of k v m] by auto
  with 2 show ?case by (fastforce simp: om_invar_def)
qed (simp add: om_invar_def)

lemma om_invar_del: "om_invar m \<Longrightarrow> om_invar (om_del k m)"
  by (auto simp: om_invar_def om_del_def sorted_wrt_map intro: sorted_wrt_filter)

lemma om_invar_distinct: "om_invar m \<Longrightarrow> distinct (map fst m)"
  by (simp add: om_invar_def strict_sorted_iff)

interpretation kv: ordered_store "om_get" om_put om_del om_scan om_invar
proof unfold_locales
  fix m :: "('a :: linorder list, 'b) omap" and p
  assume inv: "om_invar m"
  show "set (om_scan p m) = {(k, v). prefix p k \<and> om_get m k = Some v}"
    using om_invar_distinct [OF inv] by (auto simp: om_scan_def map_of_eq_Some_iff)
  show "sorted_wrt (<) (map fst (om_scan p m))"
    using inv by (auto simp: om_invar_def om_scan_def sorted_wrt_map intro: sorted_wrt_filter)
qed (simp_all add: om_get_put om_get_del om_invar_put om_invar_del)

section \<open>The keys under a prefix\<close>

text \<open>The keys that start with \<open>pre\<close>, with \<open>pre\<close> cut off, are again an ordered store.\<close>

definition om_scan_under :: "'k list \<Rightarrow> 'k list \<Rightarrow> ('k list, 'v) omap \<Rightarrow> ('k list \<times> 'v) list" where
  "om_scan_under pre p m = map (\<lambda>(k, v). (drop (length pre) k, v)) (om_scan (pre @ p) m)"

lemma append_less_iff: "(xs @ ys < xs @ zs) = (ys < (zs :: 'a :: linorder list))"
  by (induction xs) auto

interpretation under: ordered_store
  "\<lambda>m k. om_get m (pre @ k)" "\<lambda>k. om_put (pre @ k)" "\<lambda>k. om_del (pre @ k)" "om_scan_under pre" om_invar
  for pre
proof unfold_locales
  fix m :: "('a list, 'b) omap" and p k v
  assume inv: "om_invar m"
  show "(\<lambda>k'. om_get (om_put (pre @ k) v m) (pre @ k')) = (\<lambda>k'. om_get m (pre @ k'))(k \<mapsto> v)"
    by (auto simp: om_get_put)
  show "(\<lambda>k'. om_get (om_del (pre @ k) m) (pre @ k')) = (\<lambda>k'. om_get m (pre @ k'))(k := None)"
    by (auto simp: om_get_del)
  show "set (om_scan_under pre p m) = {(k, v). prefix p k \<and> om_get m (pre @ k) = Some v}"
    by (force simp: om_scan_under_def kv.set_scan [OF inv] prefix_def)
  have "sorted_wrt (<) (map fst (om_scan (pre @ p) m))" using inv by (rule kv.sorted_scan)
  moreover have "(drop (length pre) a < drop (length pre) b) = (a < b)"
    if "a \<in> set (map fst (om_scan (pre @ p) m))" "b \<in> set (map fst (om_scan (pre @ p) m))" for a b
    using that by (auto simp: kv.set_scan [OF inv] prefix_def append_less_iff)
  ultimately have "sorted_wrt (\<lambda>a b. drop (length pre) a < drop (length pre) b) (map fst (om_scan (pre @ p) m))"
    using sorted_wrt_mono_rel [of _ "(<)" "\<lambda>a b. drop (length pre) a < drop (length pre) b"] by blast
  then show "sorted_wrt (<) (map fst (om_scan_under pre p m))"
    by (simp add: om_scan_under_def sorted_wrt_map case_prod_beta comp_def)
qed (simp_all add: om_invar_put om_invar_del)

section \<open>Tables: a family of keys under one prefix\<close>

text \<open>
  A table lists its rows under keys \<open>mk i\<close>, one for each valid index \<open>i\<close>, all of which start with
  the table's prefix. \<open>table_ok\<close> says that the store holds no foreign key under the prefix.
\<close>

locale key_table = ordered_store get put del scan invar
  for get :: "'m \<Rightarrow> 'k :: linorder list \<Rightarrow> 'v option" and put del scan invar +
  fixes pre :: "'k list" and mk :: "'i \<Rightarrow> 'k list" and valid :: "'i \<Rightarrow> bool"
  assumes mk_inj: "valid i \<Longrightarrow> valid j \<Longrightarrow> mk i = mk j \<Longrightarrow> i = j"
    and mk_prefix: "prefix pre (mk i)"
begin

definition row :: "'m \<Rightarrow> 'i \<Rightarrow> 'v option" where
  "row m i = (if valid i then get m (mk i) else None)"

definition table_ok :: "'m \<Rightarrow> bool" where
  "table_ok m = (\<forall>k v. prefix pre k \<longrightarrow> get m k = Some v \<longrightarrow> (\<exists>i. valid i \<and> k = mk i))"

lemma row_put: "invar m \<Longrightarrow> valid i \<Longrightarrow> row (put (mk i) v m) = (row m)(i \<mapsto> v)"
  by (rule ext) (auto simp: row_def get_put dest: mk_inj)

lemma row_del: "invar m \<Longrightarrow> valid i \<Longrightarrow> row (del (mk i) m) = (row m)(i := None)"
  by (rule ext) (auto simp: row_def get_del dest: mk_inj)

lemma row_put_frame: "invar m \<Longrightarrow> \<not> prefix pre k \<Longrightarrow> row (put k v m) = row m"
  using mk_prefix by (auto simp: row_def get_put fun_eq_iff)

lemma row_del_frame: "invar m \<Longrightarrow> \<not> prefix pre k \<Longrightarrow> row (del k m) = row m"
  using mk_prefix by (auto simp: row_def get_del fun_eq_iff)

lemma table_ok_put: "invar m \<Longrightarrow> table_ok m \<Longrightarrow> valid i \<Longrightarrow> table_ok (put (mk i) v m)"
  by (auto simp: table_ok_def get_put split: if_splits)

lemma table_ok_del: "invar m \<Longrightarrow> table_ok m \<Longrightarrow> table_ok (del k m)"
  by (auto simp: table_ok_def get_del split: if_splits)

lemma table_ok_put_frame: "invar m \<Longrightarrow> table_ok m \<Longrightarrow> \<not> prefix pre k \<Longrightarrow> table_ok (put k v m)"
  by (auto simp: table_ok_def get_put split: if_splits)

lemma set_scan_rows:
  assumes "invar m" "table_ok m" "prefix pre p"
  shows "set (scan p m) = {(mk i, v) | i v. valid i \<and> prefix p (mk i) \<and> row m i = Some v}"
  using assms prefix_order.trans [OF assms(3)]
  by (fastforce simp: set_scan row_def table_ok_def)

text \<open>A scan of the table lists its rows once each, in the order of their keys.\<close>

lemma scan_rows:
  assumes "invar m" "table_ok m" "prefix pre p"
  obtains ix where "scan p m = map (\<lambda>i. (mk i, the (row m i))) ix" "distinct ix"
    "set ix = {i. valid i \<and> prefix p (mk i) \<and> row m i \<noteq> None}"
    "sorted_wrt (\<lambda>i j. mk i < mk j) ix"
proof -
  let ?ok = "\<lambda>i kv. valid i \<and> fst kv = mk i \<and> row m i = Some (snd kv)"
  have "\<forall>kv \<in> set (scan p m). \<exists>i. ?ok i kv"
    using set_scan_rows [OF assms] by auto
  then obtain f where f: "\<And>kv. kv \<in> set (scan p m) \<Longrightarrow> ?ok (f kv) kv" by metis
  define ix where "ix = map f (scan p m)"
  have scan: "scan p m = map (\<lambda>i. (mk i, the (row m i))) ix"
    unfolding ix_def map_map by (rule sym, rule map_idI) (use f in fastforce)
  show thesis
  proof (rule that [OF scan])
    have "distinct (map fst (scan p m))" using assms(1) by (rule distinct_scan)
    then show "distinct ix" unfolding scan by (auto simp: distinct_map comp_def dest: inj_on_imageI2)
    have "sorted_wrt (<) (map fst (scan p m))" using assms(1) by (rule sorted_scan)
    then show "sorted_wrt (\<lambda>i j. mk i < mk j) ix" unfolding scan by (simp add: sorted_wrt_map)
    have eq: "i = f kv" if "valid i" "kv \<in> set (scan p m)" "fst kv = mk i" for i kv
      using f [OF that(2)] that mk_inj by metis
    show "set ix = {i. valid i \<and> prefix p (mk i) \<and> row m i \<noteq> None}"
    proof (intro equalityI subsetI)
      fix i assume "i \<in> set ix"
      then obtain kv where kv: "kv \<in> set (scan p m)" "i = f kv" by (auto simp: ix_def)
      have "prefix p (fst kv)" using kv(1) in_scan_prefix [OF assms(1), of "fst kv" "snd kv" p] by simp
      with f [OF kv(1)] kv(2) show "i \<in> {i. valid i \<and> prefix p (mk i) \<and> row m i \<noteq> None}" by auto
    next
      fix i assume "i \<in> {i. valid i \<and> prefix p (mk i) \<and> row m i \<noteq> None}"
      then obtain v where "valid i" "prefix p (mk i)" "row m i = Some v" by auto
      then have "(mk i, v) \<in> set (scan p m)" using set_scan_rows [OF assms] by auto
      with eq [OF \<open>valid i\<close> this] show "i \<in> set ix" by (auto simp: ix_def)
    qed
  qed
qed

end

end
