(* ===== verification/Base_Data.thy ===== *)
theory Base_Data
  imports Prelude
begin

text \<open>
  Values of outside packages that the code computes with, as data: a \<open>tendermint::Time\<close> is its
  nanoseconds since the Unix epoch, a \<open>Duration\<close> its nanoseconds, a \<open>Height\<close> and a \<open>Power\<close> their
  \<open>u64\<close>, an \<open>AppHash\<close> its bytes, an \<open>fqdn::FQDN\<close> its labels from the leftmost to the top-level one.
\<close>

type_synonym time = int
type_synonym duration = nat
type_synonym height = u64
type_synonym power = u64
type_synonym app_hash = bytes
type_synonym fqdn = "string list"

section \<open>Time and duration\<close>

definition nanos_per_sec :: nat where "nanos_per_sec = 1000000000"

definition unix_timestamp :: "time \<Rightarrow> int" where
  "unix_timestamp t = t div 1000000000"

definition from_secs :: "u64 \<Rightarrow> duration" where
  "from_secs w = unat w * nanos_per_sec"

definition as_secs :: "duration \<Rightarrow> nat" where
  "as_secs d = d div nanos_per_sec"

text \<open>\<open>Time::duration_since\<close> fails when the other time is later.\<close>

definition duration_since :: "time \<Rightarrow> time \<Rightarrow> duration option" where
  "duration_since t u = (if u \<le> t then Some (nat (t - u)) else None)"

text \<open>\<open>unwrap_or_default\<close> on it: no time has passed.\<close>

definition elapsed :: "time \<Rightarrow> time \<Rightarrow> duration" where
  "elapsed t u = (case duration_since t u of None \<Rightarrow> 0 | Some d \<Rightarrow> d)"

definition trunc_secs :: "time \<Rightarrow> time" where
  "trunc_secs t = unix_timestamp t * 1000000000"

lemma as_secs_from_secs [simp]: "as_secs (from_secs w) = unat w"
  by (simp add: as_secs_def from_secs_def nanos_per_sec_def)

lemma unix_timestamp_trunc [simp]: "unix_timestamp (trunc_secs t) = unix_timestamp t"
proof -
  have "(s * 1000000000) div 1000000000 = s" for s :: int by simp
  then show ?thesis by (simp only: trunc_secs_def unix_timestamp_def)
qed

lemma trunc_secs_idem [simp]: "trunc_secs (trunc_secs t) = trunc_secs t"
  by (simp only: trunc_secs_def [of "trunc_secs t"] unix_timestamp_trunc) (simp only: trunc_secs_def)

lemma trunc_secs_of_secs [simp]: "trunc_secs (s * 1000000000) = s * 1000000000"
  by (simp add: trunc_secs_def unix_timestamp_def)

lemma trunc_secs_bounds: "trunc_secs t \<le> t" "t < trunc_secs t + 1000000000"
proof -
  have "t = t div 1000000000 * 1000000000 + t mod 1000000000" by simp
  moreover have "0 \<le> t mod 1000000000" "t mod 1000000000 < 1000000000" by simp_all
  ultimately show "trunc_secs t \<le> t" "t < trunc_secs t + 1000000000"
    unfolding trunc_secs_def unix_timestamp_def by linarith+
qed

lemma elapsed_eq: "elapsed t u = nat (t - u)"
  by (auto simp: elapsed_def duration_since_def)

lemma elapsed_antimono: "u \<le> u' \<Longrightarrow> elapsed t u' \<le> elapsed t u"
  by (simp add: elapsed_eq nat_mono)

section \<open>Domain names\<close>

definition fqdn_labels :: "fqdn \<Rightarrow> string list" where "fqdn_labels d = d"

definition fqdn_depth :: "fqdn \<Rightarrow> nat" where "fqdn_depth d = length d"

definition fqdn_root :: fqdn where "fqdn_root = []"

text \<open>\<open>hierarchy\<close> lists a name and its parents up to the top-level one.\<close>

fun fqdn_hierarchy :: "fqdn \<Rightarrow> fqdn list" where
  "fqdn_hierarchy [] = []"
| "fqdn_hierarchy (l # ls) = (l # ls) # fqdn_hierarchy ls"

definition fqdn_is_subdomain_of :: "fqdn \<Rightarrow> fqdn \<Rightarrow> bool" where
  "fqdn_is_subdomain_of d z = suffix z d"

definition fqdn_display :: "fqdn \<Rightarrow> string" where
  "fqdn_display d = (if d = [] then ''.'' else concat (map (\<lambda>l. l @ ''.'') d))"

text \<open>What every label of a name satisfies: it is non-empty ASCII without dots or slashes.\<close>

definition label_ok :: "string \<Rightarrow> bool" where
  "label_ok l = (l \<noteq> [] \<and> ascii l \<and> CHR ''.'' \<notin> set l \<and> CHR ''/'' \<notin> set l)"

lemma length_fqdn_hierarchy [simp]: "length (fqdn_hierarchy d) = length d"
  by (induction d) auto

lemma nth_fqdn_hierarchy: "n < length d \<Longrightarrow> fqdn_hierarchy d ! n = drop n d"
proof (induction d arbitrary: n)
  case (Cons l ls)
  then show ?case by (cases n) auto
qed simp

end
