(* ===== verification/Types.thy ===== *)
theory Types
  imports Base_Data
begin

text \<open>
  The domain types of \<open>crates/felidae-types/src/transaction.rs\<close> (transactions, actions, the chain
  configuration, domains, observations and blockstamps), the errors of the program with one
  constructor per place that raises them, and the transaction builder of \<open>transaction/build.rs\<close>.
\<close>

section \<open>Errors\<close>

text \<open>\<open>ParseError::new::<T>(value)\<close> keeps the name of \<open>T\<close>; the text of the message is not modelled.\<close>

datatype type_name =
    TAction | TAdmin | TAdminConfig | TAppHash | TBlockstamp | TChainId | TConfig | TDelay | TDomain
  | TDuration | TEmpty | THashObserved | THeight | TObservation | TOnionConfig | TOracleConfig
  | TOracleIdentity | TOracleVoteValue | TPower | TPrefixOrderDomain | TQuorum | TTime | TTimeout | TTotal
  | TU32 | TU64 | TVotingConfig | TZone | TSignature

datatype verify_error = VerifyError

datatype sign_error = MissingKeypair | AlreadySigned

datatype error =
    ParseError type_name
  | DecodeError
  | NotInState string
  | KeyPrefixMismatch | KeyFormat | KeyLength | KeyUtf8 | KeyTime | Panic string
  | ChainIdAlreadySet | ChainIdMismatch | EmptyTransaction
  | NotCurrentOracle | BlockstampInFuture | TimeBeforeBlock | BlockstampTooOld | AppHashMismatch
  | DomainEqualsZone | DomainNotUnderZone | ZoneDepths | DeleteUnknown | CannotRegister error
  | SubdomainLimit
  | NotCurrentAdmin | BeforeNotBefore | AfterNotAfter | PendingVersion
  | ConfigVersion | TotalMismatch | QuorumZero | QuorumAboveTotal | MaxSubdomainsZero
  | MaxSubdomainsDecrease | AdminAllZero nat | OracleAllZero nat
  | MultiplePending | CanonicalHashLength
  | ValidatorExists | HexDecode | InvalidEd25519
  | InitialHeight | AppStateJson | AppStateNoConfig | AppStateConfig
  | NoStagedBatch | StorageError

section \<open>Configuration\<close>

record voting_config =
  total :: u64
  quorum :: u64
  timeout :: duration
  delay :: duration

datatype admin = Admin (admin_identity: bytes)

record admin_config =
  a_voting :: voting_config
  a_authorized :: "admin list"

record oracle_entry =
  or_identity :: bytes
  or_endpoint :: string

datatype oracle_identity = OracleIdentity (oid_identity: bytes)

record oracle_config =
  o_enabled :: bool
  o_voting :: voting_config
  max_enrolled_subdomains :: u64
  observation_timeout :: duration
  o_authorized :: "oracle_entry list"

datatype onion_config = OnionConfig (onion_enabled: bool)

record config =
  version :: u32
  admins :: admin_config
  oracles :: oracle_config
  onion :: onion_config

definition default_oracle_endpoint :: string where
  "default_oracle_endpoint = ''127.0.0.1''"

definition config_template :: "u32 \<Rightarrow> config" where
  "config_template v =
    \<lparr>version = v,
     admins =
       \<lparr>a_voting =
          \<lparr>total = 0, quorum = 0, timeout = from_secs (24 * 60 * 60), delay = from_secs 0\<rparr>,
        a_authorized = [Admin (replicate 64 0)]\<rparr>,
     oracles =
       \<lparr>o_enabled = False,
        o_voting =
          \<lparr>total = 0, quorum = 0, timeout = from_secs (5 * 60), delay = from_secs (7 * 24 * 60 * 60)\<rparr>,
        max_enrolled_subdomains = 1,
        observation_timeout = from_secs (5 * 60),
        o_authorized = [\<lparr>or_identity = replicate 64 0, or_endpoint = ''127.0.0.1''\<rparr>]\<rparr>,
     onion = OnionConfig False\<rparr>"

section \<open>Domains\<close>

datatype domain = Domain (domain_name: fqdn)

datatype zone = Zone (zone_name: fqdn)

datatype prefix_order_domain = PrefixOrderDomain (pod_name: fqdn)

definition pod_of_domain :: "domain \<Rightarrow> prefix_order_domain" where
  "pod_of_domain d = PrefixOrderDomain (domain_name d)"

definition domain_of_pod :: "prefix_order_domain \<Rightarrow> domain" where
  "domain_of_pod p = Domain (pod_name p)"

definition domain_display :: "domain \<Rightarrow> string" where
  "domain_display d = fqdn_display (domain_name d)"

definition zone_display :: "zone \<Rightarrow> string" where
  "zone_display z = fqdn_display (zone_name z)"

text \<open>\<open>PrefixOrderDomain\<close> is displayed label by label from the top: \<open>.com.example\<close>.\<close>

definition pod_display :: "prefix_order_domain \<Rightarrow> string" where
  "pod_display p = ''.'' @ join ''.'' (rev (fqdn_labels (pod_name p)))"

text \<open>\<open>Empty\<close> is the unit type, displayed and parsed as the empty string.\<close>

definition empty_display :: "unit \<Rightarrow> string" where
  "empty_display u = []"

definition empty_from_str :: "string \<Rightarrow> error + unit" where
  "empty_from_str s = (if s = [] then Inr () else Inl (ParseError TEmpty))"

section \<open>Observations and transactions\<close>

datatype hash_observed = Hash bytes | NotFound

record oracle_vote_value =
  ovv_hash_observed :: hash_observed
  ovv_zone :: zone

datatype blockstamp = Blockstamp (block_height: height) (bs_app_hash: app_hash)

record observation =
  ob_domain :: domain
  ob_zone :: zone
  ob_blockstamp :: blockstamp
  ob_hash_observed :: hash_observed

record observe_action =
  obs_observation :: observation
  obs_oracle :: oracle_identity

record reconfigure_action =
  re_config :: config
  re_not_before :: time
  re_not_after :: time
  re_admin :: admin

datatype action = Reconfigure reconfigure_action | Observe observe_action

datatype chain_id = ChainId (chain_id_str: string)

record transaction =
  tx_chain_id :: chain_id
  tx_actions :: "action list"

datatype unsigned_key = Unsigned (unsigned_public_key: bytes)

text \<open>\<open>Ord\<close> for \<open>Blockstamp\<close>: by height, then by the bytes of the app hash.\<close>

definition blockstamp_less :: "blockstamp \<Rightarrow> blockstamp \<Rightarrow> bool" where
  "blockstamp_less a b =
     (block_height a < block_height b \<or>
      block_height a = block_height b \<and> bs_app_hash a < bs_app_hash b)"

instantiation blockstamp :: linorder
begin

definition less_blockstamp :: "blockstamp \<Rightarrow> blockstamp \<Rightarrow> bool" where
  "less_blockstamp a b = blockstamp_less a b"

definition less_eq_blockstamp :: "blockstamp \<Rightarrow> blockstamp \<Rightarrow> bool" where
  "less_eq_blockstamp a b = (blockstamp_less a b \<or> a = b)"

instance
proof
  fix x y z :: blockstamp
  show "(x < y) = (x \<le> y \<and> \<not> y \<le> x)"
    by (auto simp: less_blockstamp_def less_eq_blockstamp_def blockstamp_less_def)
  show "x \<le> x" by (simp add: less_eq_blockstamp_def)
  show "x \<le> y \<Longrightarrow> y \<le> z \<Longrightarrow> x \<le> z"
    by (auto simp: less_eq_blockstamp_def blockstamp_less_def)
  show "x \<le> y \<Longrightarrow> y \<le> x \<Longrightarrow> x = y"
    by (auto simp: less_eq_blockstamp_def blockstamp_less_def)
  show "x \<le> y \<or> y \<le> x"
    by (cases x; cases y) (auto simp: less_eq_blockstamp_def blockstamp_less_def not_less)
qed

end

section \<open>The transaction builder\<close>

record builder =
  b_chain_id :: chain_id
  b_actions :: "action list"

definition builder_new :: "chain_id \<Rightarrow> builder" where
  "builder_new c = \<lparr>b_chain_id = c, b_actions = []\<rparr>"

definition builder_action :: "action \<Rightarrow> builder \<Rightarrow> builder" where
  "builder_action a b = b\<lparr>b_actions := b_actions b @ [a]\<rparr>"

definition builder_reconfigure :: "bytes \<Rightarrow> time \<Rightarrow> time \<Rightarrow> config \<Rightarrow> builder \<Rightarrow> builder" where
  "builder_reconfigure adm not_before not_after cfg b =
     builder_action (Reconfigure \<lparr>re_config = cfg, re_not_before = not_before,
       re_not_after = not_after, re_admin = Admin adm\<rparr>) b"

definition builder_observe :: "bytes \<Rightarrow> observation \<Rightarrow> builder \<Rightarrow> builder" where
  "builder_observe orc ob b =
     builder_action (Observe \<lparr>obs_observation = ob, obs_oracle = OracleIdentity orc\<rparr>) b"

definition builder_build :: "builder \<Rightarrow> transaction" where
  "builder_build b = \<lparr>tx_chain_id = b_chain_id b, tx_actions = b_actions b\<rparr>"

end
