(* ===== verification/Proto.thy ===== *)
theory Proto
  imports Prelude
begin

text \<open>
  The protobuf messages of \<open>crates/felidae-proto/src/transaction.proto\<close>, as the structs the build
  generates from it: a nested message is optional, a repeated field a list, \<open>int64\<close> and \<open>int32\<close>
  are machine words. Field names carry a prefix for the message they belong to.
\<close>

datatype p_voting_config =
  PVotingConfig (pv_total: i64) (pv_quorum: i64) (pv_timeout: i64) (pv_delay: i64)

datatype p_admin = PAdmin (padm_public_key: bytes)

datatype p_admin_config =
  PAdminConfig (pac_admins: "p_admin list") (pac_voting_config: "p_voting_config option")

datatype p_oracle_identity = POracleIdentity (poi_public_key: bytes)

datatype p_oracle = POracle (por_public_key: "p_oracle_identity option") (por_endpoint: string)

datatype p_oracle_config =
  POracleConfig (poc_oracles: "p_oracle list") (poc_voting_config: "p_voting_config option")
    (poc_enabled: bool) (poc_max_enrolled_subdomains: i64) (poc_observation_timeout: i64)

datatype p_onion_config = POnionConfig (pon_enabled: bool)

datatype p_config =
  PConfig (pc_admin_config: "p_admin_config option") (pc_oracle_config: "p_oracle_config option")
    (pc_onion_config: "p_onion_config option") (pc_version: i64)

datatype p_hash_observed = PHashObserved (pho_hash: bytes)

datatype p_oracle_vote_value =
  POracleVoteValue (povv_hash_observed: "p_hash_observed option") (povv_zone: string)

datatype p_signature = PSignature (ps_public_key: bytes) (ps_signature: bytes)

datatype p_timestamp = PTimestamp (pt_seconds: i64) (pt_nanos: "32 word")

datatype p_blockstamp = PBlockstamp (pbs_block_hash: bytes) (pbs_block_number: i64)

datatype p_observation =
  PObservation (pob_domain: string) (pob_zone: string) (pob_hash_observed: "p_hash_observed option")
    (pob_blockstamp: "p_blockstamp option")

datatype p_observe =
  PObserve (pobs_signature: "p_signature option") (pobs_observation: "p_observation option")

datatype p_reconfigure =
  PReconfigure (pr_signature: "p_signature option") (pr_config: "p_config option")
    (pr_not_before: "p_timestamp option") (pr_not_after: "p_timestamp option")

datatype p_action_kind = PAReconfigure p_reconfigure | PAObserve p_observe

datatype p_action = PAction (pact_action: "p_action_kind option")

datatype p_transaction = PTransaction (ptx_chain_id: string) (ptx_actions: "p_action list")

end
