(* ===== verification/Environment.thy ===== *)
theory Environment
  imports Types Proto
begin

text \<open>
  What the code takes from outside the repository. The algorithms of the packages it uses (hex,
  RFC 3339, domain name parsing, SHA-256, P-256, the protobuf encoding) are the fields of \<open>env\<close>, a
  parameter of every definition that uses them; so is the order in which a \<open>HashMap\<close> is iterated,
  which the standard library leaves open. \<open>env_ok\<close> states the documented behaviour relied on.
\<close>

section \<open>ABCI and JSON values\<close>

text \<open>The parts of the \<open>tendermint\<close> requests and of \<open>serde_json::Value\<close> the code reads. What it only
  passes on (consensus parameters) is kept as bytes.\<close>

datatype public_key = Ed25519 (pk_to_bytes: bytes)

datatype validator_update = Update (vu_pub_key: public_key) (vu_power: power)

datatype json =
  JNull | JBool bool | JNumber string | JString string | JArray "json list" | JObject "(string \<times> json) list"

fun json_get :: "string \<Rightarrow> json \<Rightarrow> json option" where
  "json_get k (JObject kvs) = map_of kvs k"
| "json_get k v = None"

record init_chain_request =
  ic_chain_id :: string
  ic_initial_height :: height
  ic_app_state_bytes :: bytes
  ic_validators :: "validator_update list"
  ic_consensus_params :: bytes

section \<open>The environment\<close>

datatype 'm message = Message (encode: "'m \<Rightarrow> bytes") (decode: "bytes \<Rightarrow> 'm option")

record env =
  hex_encode :: "bytes \<Rightarrow> string"
  time_display :: "time \<Rightarrow> string"
  time_parse_rfc3339 :: "string \<Rightarrow> time option"
  time_from_unix :: "int \<Rightarrow> time option"
  time_to_timestamp :: "time \<Rightarrow> p_timestamp"
  time_try_from_timestamp :: "p_timestamp \<Rightarrow> time option"
  fqdn_valid :: "fqdn \<Rightarrow> bool"
  fqdn_from_ascii_str :: "string \<Rightarrow> fqdn option"
  fqdn_from_str :: "string \<Rightarrow> fqdn option"
  app_hash_try_from :: "bytes \<Rightarrow> app_hash option"
  height_try_from :: "u64 \<Rightarrow> height option"
  power_try_from :: "u64 \<Rightarrow> power option"
  sha256 :: "bytes \<Rightarrow> bytes"
  msg_config :: "p_config message"
  msg_oracle_vote_value :: "p_oracle_vote_value message"
  msg_transaction :: "p_transaction message"
  msg_timestamp :: "p_timestamp message"
  msg_u64 :: "u64 message"
  msg_bytes :: "bytes message"
  msg_string :: "string message"
  msg_unit_decode :: "bytes \<Rightarrow> unit option"
  json_to_transaction :: "string \<Rightarrow> p_transaction option"
  json_of_transaction :: "p_transaction \<Rightarrow> string option"
  p256_signature_from_bytes :: "bytes \<Rightarrow> bytes option"
  p256_encoded_point :: "bytes \<Rightarrow> bytes option"
  p256_verifying_key :: "bytes \<Rightarrow> bytes option"
  p256_verify :: "bytes \<Rightarrow> bytes \<Rightarrow> bytes \<Rightarrow> bool"
  p256_public_key :: "bytes \<Rightarrow> bytes"
  p256_sign :: "bytes \<Rightarrow> bytes \<Rightarrow> bytes"
  merkle_root :: "(string \<times> bytes) list \<Rightarrow> bytes"
  merkle_prefix_root :: "string \<Rightarrow> (string \<times> bytes) list \<Rightarrow> bytes"
  hex_decode :: "string \<Rightarrow> bytes option"
  ed25519_from_raw :: "bytes \<Rightarrow> public_key option"
  init_chain_request_encode :: "init_chain_request \<Rightarrow> bytes"
  json_from_slice :: "bytes \<Rightarrow> json option"
  config_from_json :: "json \<Rightarrow> config option"
  oracle_tally_order :: "(oracle_vote_value \<times> nat) list \<Rightarrow> (oracle_vote_value \<times> nat) list"
  config_tally_order :: "(config \<times> nat) list \<Rightarrow> (config \<times> nat) list"

definition message_ok :: "'m message \<Rightarrow> bool" where
  "message_ok M = (\<forall>m. decode M (encode M m) = Some m)"

text \<open>A time the \<open>Time\<close> type can hold: the years 1 to 9999.\<close>

definition time_ok :: "time \<Rightarrow> bool" where
  "time_ok t = (- 62135596800 \<le> unix_timestamp t \<and> unix_timestamp t \<le> 253402300799)"

definition env_ok :: "env \<Rightarrow> bool" where
  "env_ok E =
    ((\<forall>b. ascii (hex_encode E b) \<and> CHR ''/'' \<notin> set (hex_encode E b) \<and>
        hex_decode E (hex_encode E b) = Some b) \<and>
     (\<forall>b. length b = 32 \<longrightarrow> ed25519_from_raw E b = Some (Ed25519 b)) \<and>
     (\<forall>b pk. ed25519_from_raw E b = Some pk \<longrightarrow> pk_to_bytes pk = b) \<and>
     (\<forall>t. time_ok t \<longrightarrow> ascii (time_display E t) \<and> CHR ''/'' \<notin> set (time_display E t) \<and>
        time_parse_rfc3339 E (time_display E t) = Some t) \<and>
     (\<forall>s. time_from_unix E s = (if time_ok (s * 1000000000) then Some (s * 1000000000) else None)) \<and>
     (\<forall>t. time_ok t \<longrightarrow> time_try_from_timestamp E (time_to_timestamp E t) = Some t) \<and>
     (\<forall>p t. time_try_from_timestamp E p = Some t \<longrightarrow> time_ok t) \<and>
     (\<forall>d. fqdn_valid E d \<longrightarrow> fqdn_from_ascii_str E (fqdn_display d) = Some d \<and>
        fqdn_from_str E (fqdn_display d) = Some d \<and> (\<forall>l \<in> set d. label_ok l) \<and>
        (\<forall>n. fqdn_valid E (drop n d))) \<and>
     fqdn_valid E fqdn_root \<and>
     (\<forall>s d. fqdn_from_ascii_str E s = Some d \<or> fqdn_from_str E s = Some d \<longrightarrow> fqdn_valid E d) \<and>
     (\<forall>b. app_hash_try_from E b = Some b) \<and>
     (\<forall>w. height_try_from E w = (if w \<le> i64_max then Some w else None)) \<and>
     (\<forall>w. power_try_from E w = (if w \<le> i64_max then Some w else None)) \<and>
     message_ok (msg_config E) \<and> message_ok (msg_oracle_vote_value E) \<and>
     message_ok (msg_transaction E) \<and> message_ok (msg_timestamp E) \<and> message_ok (msg_u64 E) \<and>
     message_ok (msg_bytes E) \<and> message_ok (msg_string E) \<and>
     (\<forall>m. msg_unit_decode E (encode (msg_config E) m) = Some ()) \<and>
     (\<forall>m. msg_unit_decode E (encode (msg_oracle_vote_value E) m) = Some ()) \<and>
     (\<forall>t. set (oracle_tally_order E t) = set t) \<and> (\<forall>t. set (config_tally_order E t) = set t))"

lemma env_okD:
  assumes "env_ok E"
  shows env_hex_no_slash: "CHR ''/'' \<notin> set (hex_encode E b)"
    and env_hex_ascii: "ascii (hex_encode E b)"
    and env_hex_inj: "(hex_encode E b = hex_encode E b') = (b = b')"
    and env_hex_decode: "hex_decode E (hex_encode E b) = Some b"
    and env_ed25519_to_bytes: "ed25519_from_raw E b = Some pk \<Longrightarrow> pk_to_bytes pk = b"
    and env_time_no_slash: "time_ok t \<Longrightarrow> CHR ''/'' \<notin> set (time_display E t)"
    and env_time_parse: "time_ok t \<Longrightarrow> time_parse_rfc3339 E (time_display E t) = Some t"
    and env_time_from_unix:
      "time_from_unix E s = (if time_ok (s * 1000000000) then Some (s * 1000000000) else None)"
    and env_timestamp: "time_ok t \<Longrightarrow> time_try_from_timestamp E (time_to_timestamp E t) = Some t"
    and env_timestamp_ok: "time_try_from_timestamp E p = Some t \<Longrightarrow> time_ok t"
    and env_fqdn_from_ascii_str: "fqdn_valid E d \<Longrightarrow> fqdn_from_ascii_str E (fqdn_display d) = Some d"
    and env_fqdn_from_str: "fqdn_valid E d \<Longrightarrow> fqdn_from_str E (fqdn_display d) = Some d"
    and env_label_ok: "fqdn_valid E d \<Longrightarrow> l \<in> set d \<Longrightarrow> label_ok l"
    and env_fqdn_drop: "fqdn_valid E d \<Longrightarrow> fqdn_valid E (drop n d)"
    and env_fqdn_root: "fqdn_valid E fqdn_root"
    and env_fqdn_from_ascii_str_valid: "fqdn_from_ascii_str E str = Some d \<Longrightarrow> fqdn_valid E d"
    and env_fqdn_from_str_valid: "fqdn_from_str E str = Some d \<Longrightarrow> fqdn_valid E d"
    and env_app_hash: "app_hash_try_from E b = Some b"
    and env_height: "height_try_from E w = (if w \<le> i64_max then Some w else None)"
    and env_power: "power_try_from E w = (if w \<le> i64_max then Some w else None)"
    and env_msg_config: "decode (msg_config E) (encode (msg_config E) mc) = Some mc"
    and env_msg_ovv: "decode (msg_oracle_vote_value E) (encode (msg_oracle_vote_value E) mo) = Some mo"
    and env_msg_transaction: "decode (msg_transaction E) (encode (msg_transaction E) mt) = Some mt"
    and env_msg_timestamp: "decode (msg_timestamp E) (encode (msg_timestamp E) ms) = Some ms"
    and env_msg_u64: "decode (msg_u64 E) (encode (msg_u64 E) mu) = Some mu"
    and env_msg_bytes: "decode (msg_bytes E) (encode (msg_bytes E) mb) = Some mb"
    and env_msg_string: "decode (msg_string E) (encode (msg_string E) mg) = Some mg"
    and env_unit_config: "msg_unit_decode E (encode (msg_config E) mc) = Some ()"
    and env_unit_ovv: "msg_unit_decode E (encode (msg_oracle_vote_value E) mo) = Some ()"
    and env_oracle_order: "set (oracle_tally_order E to) = set to"
    and env_config_order: "set (config_tally_order E tc) = set tc"
proof -
  show "(hex_encode E b = hex_encode E b') = (b = b')"
    using assms unfolding env_ok_def by (metis option.inject)
qed (use assms in \<open>auto simp: env_ok_def message_ok_def\<close>)

lemmas env_messages = env_msg_config env_msg_ovv env_msg_transaction env_msg_timestamp env_msg_u64
  env_msg_bytes env_msg_string env_unit_config env_unit_ovv

end
