(* ===== verification/Convert.thy ===== *)
theory Convert
  imports Environment
begin

text \<open>
  The conversions between the domain types and the protobuf messages
  (\<open>crates/felidae-types/src/transaction/convert.rs\<close>) and the \<open>DomainType\<close> encoding built on them
  (\<open>crates/felidae-proto/src/lib.rs\<close>). The interface they share is the locale \<open>proto_conv\<close>: what
  \<open>try_from\<close> gives back for a converted value. For the configuration this is not the value itself:
  numbers above \<open>i64::MAX\<close> are clamped, durations cut to whole seconds and an empty endpoint filled
  in, which \<open>norm\<close> describes.
\<close>

section \<open>The interface of a domain type\<close>

definition domain_encode :: "'p message \<Rightarrow> ('d \<Rightarrow> 'p) \<Rightarrow> 'd \<Rightarrow> bytes" where
  "domain_encode M to_proto d = encode M (to_proto d)"

definition domain_decode :: "'p message \<Rightarrow> ('p \<Rightarrow> error + 'd) \<Rightarrow> bytes \<Rightarrow> error + 'd" where
  "domain_decode M try_from b = ebind (ok_or DecodeError (decode M b)) try_from"

locale proto_conv =
  fixes to_proto :: "'d \<Rightarrow> 'p" and try_from :: "'p \<Rightarrow> error + 'd"
    and norm :: "'d \<Rightarrow> 'd" and good :: "'d \<Rightarrow> bool"
  assumes conv: "good d \<Longrightarrow> try_from (to_proto d) = Inr (norm d)"
begin

lemma conv_list:
  "\<forall>d \<in> set ds. good d \<Longrightarrow> ecollect (map try_from (map to_proto ds)) = Inr (map norm ds)"
  by (induction ds) (auto simp: conv)

lemma conv_exact: "good d \<Longrightarrow> norm d = d \<Longrightarrow> try_from (to_proto d) = Inr d"
  by (simp add: conv)

lemma to_proto_inj: "good d \<Longrightarrow> good d' \<Longrightarrow> to_proto d = to_proto d' \<Longrightarrow> norm d = norm d'"
  by (metis conv sum.inject(2))

lemma encode_decode:
  "message_ok M \<Longrightarrow> good d \<Longrightarrow>
    domain_decode M try_from (domain_encode M to_proto d) = Inr (norm d)"
  by (simp add: domain_decode_def domain_encode_def message_ok_def conv)

lemma encode_inj:
  assumes "message_ok M" "good d" "good d'"
    and "domain_encode M to_proto d = domain_encode M to_proto d'"
  shows "norm d = norm d'"
  using encode_decode [OF assms(1,2)] encode_decode [OF assms(1,3)] assms(4) by simp

end

section \<open>Configuration\<close>

definition whole_secs :: "duration \<Rightarrow> duration" where
  "whole_secs d = min (as_secs d) 9223372036854775807 * nanos_per_sec"

text \<open>\<open>i64::try_from(d.as_secs()).unwrap_or(i64::MAX)\<close>\<close>

definition secs_or_max :: "duration \<Rightarrow> i64" where
  "secs_or_max d = (if as_secs d \<le> 9223372036854775807 then word_of_nat (as_secs d) else i64_max)"

definition voting_config_try_from :: "p_voting_config \<Rightarrow> error + voting_config" where
  "voting_config_try_from p =
    ebind (ok_or (ParseError TTotal) (u64_try_from_i64 (pv_total p))) (\<lambda>tot.
    ebind (ok_or (ParseError TQuorum) (u64_try_from_i64 (pv_quorum p))) (\<lambda>quo.
    ebind (ok_or (ParseError TTimeout) (u64_try_from_i64 (pv_timeout p))) (\<lambda>tmo.
    ebind (ok_or (ParseError TDelay) (u64_try_from_i64 (pv_delay p))) (\<lambda>del.
    Inr \<lparr>total = tot, quorum = quo, timeout = from_secs tmo, delay = from_secs del\<rparr>))))"

definition voting_config_to_proto :: "voting_config \<Rightarrow> p_voting_config" where
  "voting_config_to_proto c =
    PVotingConfig (i64_or_max (total c)) (i64_or_max (quorum c)) (secs_or_max (timeout c))
      (secs_or_max (delay c))"

definition voting_config_norm :: "voting_config \<Rightarrow> voting_config" where
  "voting_config_norm c =
    \<lparr>total = min (total c) i64_max, quorum = min (quorum c) i64_max,
     timeout = whole_secs (timeout c), delay = whole_secs (delay c)\<rparr>"

lemma u64_try_secs_or_max:
  "u64_try_from_i64 (secs_or_max d) = Some (word_of_nat (min (as_secs d) 9223372036854775807))"
  by (auto simp: u64_try_from_i64_def secs_or_max_def sint_nonneg_iff i64_max_def unsigned_of_nat
      take_bit_nat_eq_self min_def)

lemma from_secs_word_of_nat:
  "from_secs (word_of_nat (min (as_secs d) 9223372036854775807)) = whole_secs d"
  by (simp add: from_secs_def whole_secs_def unsigned_of_nat take_bit_nat_eq_self)

interpretation voting_config_conv:
  proto_conv voting_config_to_proto voting_config_try_from voting_config_norm "\<lambda>_. True"
  by unfold_locales
    (simp add: voting_config_try_from_def voting_config_to_proto_def voting_config_norm_def
      i64_or_max_clamps u64_try_secs_or_max from_secs_word_of_nat)

definition admin_try_from :: "p_admin \<Rightarrow> error + admin" where
  "admin_try_from p = Inr (Admin (padm_public_key p))"

definition admin_to_proto :: "admin \<Rightarrow> p_admin" where
  "admin_to_proto a = PAdmin (admin_identity a)"

interpretation admin_conv: proto_conv admin_to_proto admin_try_from id "\<lambda>_. True"
  by unfold_locales (simp add: admin_try_from_def admin_to_proto_def)

definition admin_config_try_from :: "p_admin_config \<Rightarrow> error + admin_config" where
  "admin_config_try_from p =
    ebind (ecollect (map admin_try_from (pac_admins p))) (\<lambda>adms.
    ebind (ok_or (ParseError TVotingConfig) (map_option voting_config_try_from (pac_voting_config p)))
      (\<lambda>r. ebind r (\<lambda>vc.
    Inr \<lparr>a_voting = vc, a_authorized = adms\<rparr>)))"

definition admin_config_to_proto :: "admin_config \<Rightarrow> p_admin_config" where
  "admin_config_to_proto c =
    PAdminConfig (map admin_to_proto (a_authorized c)) (Some (voting_config_to_proto (a_voting c)))"

definition admin_config_norm :: "admin_config \<Rightarrow> admin_config" where
  "admin_config_norm c = \<lparr>a_voting = voting_config_norm (a_voting c), a_authorized = a_authorized c\<rparr>"

interpretation admin_config_conv:
  proto_conv admin_config_to_proto admin_config_try_from admin_config_norm "\<lambda>_. True"
  by unfold_locales
    (use admin_conv.conv_list in \<open>simp add: admin_config_try_from_def admin_config_to_proto_def
      admin_config_norm_def voting_config_conv.conv\<close>)

definition oracle_try_from :: "p_oracle \<Rightarrow> error + oracle_entry" where
  "oracle_try_from p =
    ebind (ok_or (ParseError TOracleIdentity) (por_public_key p)) (\<lambda>pk.
    Inr \<lparr>or_identity = poi_public_key pk,
         or_endpoint = (if por_endpoint p = [] then ''127.0.0.1'' else por_endpoint p)\<rparr>)"

definition oracle_to_proto :: "oracle_entry \<Rightarrow> p_oracle" where
  "oracle_to_proto orc = POracle (Some (POracleIdentity (or_identity orc))) (or_endpoint orc)"

definition oracle_norm :: "oracle_entry \<Rightarrow> oracle_entry" where
  "oracle_norm orc = orc\<lparr>or_endpoint := (if or_endpoint orc = [] then ''127.0.0.1'' else or_endpoint orc)\<rparr>"

interpretation oracle_conv: proto_conv oracle_to_proto oracle_try_from oracle_norm "\<lambda>_. True"
  by unfold_locales (simp add: oracle_try_from_def oracle_to_proto_def oracle_norm_def)

definition oracle_config_try_from :: "p_oracle_config \<Rightarrow> error + oracle_config" where
  "oracle_config_try_from p =
    ebind (ok_or (ParseError TU64) (u64_try_from_i64 (poc_max_enrolled_subdomains p))) (\<lambda>mx.
    ebind (ecollect (map oracle_try_from (poc_oracles p))) (\<lambda>orcs.
    ebind (ok_or (ParseError TVotingConfig) (map_option voting_config_try_from (poc_voting_config p)))
      (\<lambda>r. ebind r (\<lambda>vc.
    ebind (ok_or (ParseError TDuration) (u64_try_from_i64 (poc_observation_timeout p))) (\<lambda>secs.
    Inr \<lparr>o_enabled = poc_enabled p, o_voting = vc, max_enrolled_subdomains = mx,
         observation_timeout = from_secs secs, o_authorized = orcs\<rparr>)))))"

definition oracle_config_to_proto :: "oracle_config \<Rightarrow> p_oracle_config" where
  "oracle_config_to_proto c =
    POracleConfig (map oracle_to_proto (o_authorized c)) (Some (voting_config_to_proto (o_voting c)))
      (o_enabled c) (i64_or_max (max_enrolled_subdomains c)) (secs_or_max (observation_timeout c))"

definition oracle_config_norm :: "oracle_config \<Rightarrow> oracle_config" where
  "oracle_config_norm c =
    \<lparr>o_enabled = o_enabled c, o_voting = voting_config_norm (o_voting c),
     max_enrolled_subdomains = min (max_enrolled_subdomains c) i64_max,
     observation_timeout = whole_secs (observation_timeout c),
     o_authorized = map oracle_norm (o_authorized c)\<rparr>"

interpretation oracle_config_conv:
  proto_conv oracle_config_to_proto oracle_config_try_from oracle_config_norm "\<lambda>_. True"
  by unfold_locales
    (use oracle_conv.conv_list in \<open>simp add: oracle_config_try_from_def oracle_config_to_proto_def
      oracle_config_norm_def voting_config_conv.conv i64_or_max_clamps u64_try_secs_or_max
      from_secs_word_of_nat\<close>)

definition onion_config_try_from :: "p_onion_config \<Rightarrow> error + onion_config" where
  "onion_config_try_from p = Inr (OnionConfig (pon_enabled p))"

definition onion_config_to_proto :: "onion_config \<Rightarrow> p_onion_config" where
  "onion_config_to_proto c = POnionConfig (onion_enabled c)"

interpretation onion_config_conv:
  proto_conv onion_config_to_proto onion_config_try_from id "\<lambda>_. True"
  by unfold_locales (simp add: onion_config_try_from_def onion_config_to_proto_def)

definition config_try_from :: "p_config \<Rightarrow> error + config" where
  "config_try_from p =
    ebind (ok_or (ParseError TU32) (u32_try_from_i64 (pc_version p))) (\<lambda>ver.
    ebind (ok_or (ParseError TAdminConfig) (map_option admin_config_try_from (pc_admin_config p)))
      (\<lambda>r1. ebind r1 (\<lambda>adms.
    ebind (ok_or (ParseError TOracleConfig) (map_option oracle_config_try_from (pc_oracle_config p)))
      (\<lambda>r2. ebind r2 (\<lambda>orcs.
    ebind (ok_or (ParseError TOnionConfig) (map_option onion_config_try_from (pc_onion_config p)))
      (\<lambda>r3. ebind r3 (\<lambda>oni.
    Inr \<lparr>version = ver, admins = adms, oracles = orcs, onion = oni\<rparr>)))))))"

definition config_to_proto :: "config \<Rightarrow> p_config" where
  "config_to_proto c =
    PConfig (Some (admin_config_to_proto (admins c))) (Some (oracle_config_to_proto (oracles c)))
      (Some (onion_config_to_proto (onion c))) (i64_from_u32 (version c))"

definition config_norm :: "config \<Rightarrow> config" where
  "config_norm c =
    \<lparr>version = version c, admins = admin_config_norm (admins c),
     oracles = oracle_config_norm (oracles c), onion = onion c\<rparr>"

interpretation config_conv: proto_conv config_to_proto config_try_from config_norm "\<lambda>_. True"
  by unfold_locales
    (simp add: config_try_from_def config_to_proto_def config_norm_def admin_config_conv.conv
      oracle_config_conv.conv onion_config_conv.conv)

section \<open>Signers\<close>

definition signature_unsigned :: "bytes \<Rightarrow> p_signature" where
  "signature_unsigned pk = PSignature pk []"

definition unsigned_try_from :: "p_signature \<Rightarrow> error + unsigned_key" where
  "unsigned_try_from s = Inr (Unsigned (ps_public_key s))"

definition signature_of_unsigned :: "unsigned_key \<Rightarrow> p_signature" where
  "signature_of_unsigned u = signature_unsigned (unsigned_public_key u)"

definition admin_of_unsigned :: "unsigned_key \<Rightarrow> error + admin" where
  "admin_of_unsigned u = Inr (Admin (unsigned_public_key u))"

definition signature_of_admin :: "admin \<Rightarrow> p_signature" where
  "signature_of_admin a = signature_unsigned (admin_identity a)"

definition oracle_identity_of_unsigned :: "unsigned_key \<Rightarrow> error + oracle_identity" where
  "oracle_identity_of_unsigned u = Inr (OracleIdentity (unsigned_public_key u))"

definition signature_of_oracle_identity :: "oracle_identity \<Rightarrow> p_signature" where
  "signature_of_oracle_identity orc = signature_unsigned (oid_identity orc)"

definition oracle_identity_try_from :: "p_oracle_identity \<Rightarrow> error + oracle_identity" where
  "oracle_identity_try_from p = Inr (OracleIdentity (poi_public_key p))"

definition oracle_identity_to_proto :: "oracle_identity \<Rightarrow> p_oracle_identity" where
  "oracle_identity_to_proto orc = POracleIdentity (oid_identity orc)"

interpretation oracle_identity_conv:
  proto_conv oracle_identity_to_proto oracle_identity_try_from id "\<lambda>_. True"
  by unfold_locales (simp add: oracle_identity_to_proto_def oracle_identity_try_from_def)

interpretation unsigned_conv: proto_conv signature_of_unsigned unsigned_try_from id "\<lambda>_. True"
  by unfold_locales (simp add: signature_of_unsigned_def unsigned_try_from_def signature_unsigned_def)

section \<open>Strings\<close>

definition chain_id_try_from :: "string \<Rightarrow> error + chain_id" where
  "chain_id_try_from s = (if s = [] then Inl (ParseError TChainId) else Inr (ChainId s))"

definition domain_try_from :: "env \<Rightarrow> string \<Rightarrow> error + domain" where
  "domain_try_from E s =
    ebind (ok_or (ParseError TDomain) (fqdn_from_ascii_str E s)) (\<lambda>n. Inr (Domain n))"

definition zone_try_from :: "env \<Rightarrow> string \<Rightarrow> error + zone" where
  "zone_try_from E s =
    ebind (ok_or (ParseError TZone) (fqdn_from_ascii_str E s)) (\<lambda>n. Inr (Zone n))"

text \<open>\<open>FromStr for PrefixOrderDomain\<close> (\<open>transaction.rs\<close>) and the \<open>TryFrom<String>\<close> around it.\<close>

definition pod_from_str :: "env \<Rightarrow> string \<Rightarrow> prefix_order_domain option" where
  "pod_from_str E s =
    (let labels = rev (split_on CHR ''.'' (trim_start_matches CHR ''.'' s));
         domain_string = join ''.'' labels @ ''.''
     in map_option PrefixOrderDomain (fqdn_from_str E domain_string))"

definition pod_try_from :: "env \<Rightarrow> string \<Rightarrow> error + prefix_order_domain" where
  "pod_try_from E s = ok_or (ParseError TPrefixOrderDomain) (pod_from_str E s)"

interpretation domain_conv: proto_conv domain_display "domain_try_from E" id
  "\<lambda>d. env_ok E \<and> fqdn_valid E (domain_name d)" for E
  by unfold_locales (auto simp: domain_display_def domain_try_from_def env_fqdn_from_ascii_str)

interpretation zone_conv: proto_conv zone_display "zone_try_from E" id
  "\<lambda>z. env_ok E \<and> fqdn_valid E (zone_name z)" for E
  by unfold_locales (auto simp: zone_display_def zone_try_from_def env_fqdn_from_ascii_str)

interpretation chain_id_conv: proto_conv chain_id_str chain_id_try_from id "\<lambda>c. chain_id_str c \<noteq> []"
  by unfold_locales (auto simp: chain_id_try_from_def)

lemma join_snoc_dot: "d \<noteq> [] \<Longrightarrow> join ''.'' d @ ''.'' = concat (map (\<lambda>l. l @ ''.'') d)"
  by (induction "''.''" d rule: join.induct) auto

lemma trim_start_dot:
  assumes "d \<noteq> []" "\<forall>l \<in> set d. label_ok l"
  shows "trim_start_matches CHR ''.'' (''.'' @ join ''.'' (rev d)) = join ''.'' (rev d)"
proof -
  obtain l ls where r: "rev d = l # ls" using assms(1) by (cases "rev d") auto
  then have "l \<in> set d" by (metis list.set_intros(1) set_rev)
  with assms(2) have "label_ok l" by blast
  then obtain c cs where l: "l = c # cs" "c \<noteq> CHR ''.''"
    by (cases l) (auto simp: label_ok_def)
  have "\<exists>cs'. join ''.'' (rev d) = c # cs'"
    unfolding r l by (cases ls) auto
  with l show ?thesis by (auto simp: trim_start_matches_def)
qed

lemma pod_from_display:
  assumes "env_ok E" "fqdn_valid E (pod_name p)"
  shows "pod_from_str E (pod_display p) = Some p"
proof (cases "pod_name p = []")
  case True
  then have "pod_from_str E (pod_display p) = map_option PrefixOrderDomain (fqdn_from_str E (fqdn_display []))"
    by (simp add: pod_from_str_def pod_display_def fqdn_labels_def trim_start_matches_def fqdn_display_def)
  with assms True show ?thesis
    by (metis env_fqdn_from_str option.simps(9) prefix_order_domain.collapse)
next
  case False
  let ?d = "pod_name p"
  have lab: "\<forall>l \<in> set ?d. label_ok l" using assms env_label_ok by blast
  have "split_on CHR ''.'' (join ''.'' (rev ?d)) = rev ?d"
    using False lab by (intro split_on_join) (auto simp: label_ok_def)
  then have "pod_from_str E (pod_display p) = map_option PrefixOrderDomain (fqdn_from_str E (fqdn_display ?d))"
    using False lab
    by (simp add: pod_from_str_def pod_display_def fqdn_labels_def trim_start_dot [simplified]
        join_snoc_dot [simplified] fqdn_display_def)
  with assms show ?thesis by (simp add: env_fqdn_from_str)
qed

interpretation pod_conv: proto_conv pod_display "pod_try_from E" id
  "\<lambda>p. env_ok E \<and> fqdn_valid E (pod_name p)" for E
  by unfold_locales (simp add: pod_try_from_def pod_from_display)

interpretation empty_conv: proto_conv empty_display empty_from_str id "\<lambda>_. True"
  by unfold_locales (simp add: empty_display_def empty_from_str_def)

end
