(* ===== verification/Convert_Tx.thy ===== *)
theory Convert_Tx
  imports Convert
begin

text \<open>
  The conversions of observations, actions and transactions (\<open>convert.rs\<close>, continued). What is lost
  on the way: a blockstamp height above \<open>i64::MAX\<close> is clamped by \<open>From<Blockstamp>\<close>, which no value
  of \<open>Height\<close> reaches, and signatures are blank in the converted message.
\<close>

section \<open>Observed hashes and blockstamps\<close>

definition hash_observed_try_from :: "p_hash_observed \<Rightarrow> error + hash_observed" where
  "hash_observed_try_from p =
    (if length (pho_hash p) = 32 then Inr (Hash (pho_hash p))
     else if pho_hash p = [] then Inr NotFound
     else Inl (ParseError THashObserved))"

fun hash_observed_to_proto :: "hash_observed \<Rightarrow> p_hash_observed" where
  "hash_observed_to_proto (Hash h) = PHashObserved h"
| "hash_observed_to_proto NotFound = PHashObserved []"

text \<open>A \<open>[u8; 32]\<close> has 32 bytes.\<close>

fun hash_observed_ok :: "hash_observed \<Rightarrow> bool" where
  "hash_observed_ok (Hash h) = (length h = 32)"
| "hash_observed_ok NotFound = True"

lemma hash_observed_roundtrip: "hash_observed_ok h \<Longrightarrow> hash_observed_try_from (hash_observed_to_proto h) = Inr h"
  by (cases h) (auto simp: hash_observed_try_from_def)

interpretation hash_observed_conv:
  proto_conv hash_observed_to_proto hash_observed_try_from id hash_observed_ok
  by unfold_locales (simp add: hash_observed_roundtrip)

definition blockstamp_try_from :: "env \<Rightarrow> p_blockstamp \<Rightarrow> error + blockstamp" where
  "blockstamp_try_from E p =
    ebind (ok_or (ParseError TAppHash) (app_hash_try_from E (pbs_block_hash p))) (\<lambda>block_hash.
    ebind (ok_or (ParseError THeight) (u64_try_from_i64 (pbs_block_number p))) (\<lambda>n.
    ebind (ok_or (ParseError THeight) (height_try_from E n)) (\<lambda>h.
    Inr (Blockstamp h block_hash))))"

definition blockstamp_to_proto :: "blockstamp \<Rightarrow> p_blockstamp" where
  "blockstamp_to_proto b = PBlockstamp (bs_app_hash b) (i64_or_max (block_height b))"

interpretation blockstamp_conv: proto_conv blockstamp_to_proto "blockstamp_try_from E" id
  "\<lambda>b. env_ok E \<and> block_height b \<le> i64_max" for E
  by unfold_locales
    (auto simp: blockstamp_to_proto_def blockstamp_try_from_def env_app_hash env_height
      i64_or_max_clamps min_def)

section \<open>Observations\<close>

definition observation_try_from :: "env \<Rightarrow> p_observation \<Rightarrow> error + observation" where
  "observation_try_from E p =
    ebind (ok_or (ParseError TDomain) (fqdn_from_ascii_str E (pob_domain p))) (\<lambda>dn.
    ebind (ok_or (ParseError TZone) (fqdn_from_ascii_str E (pob_zone p))) (\<lambda>zn.
    ebind (ok_or (ParseError THashObserved) (map_option hash_observed_try_from (pob_hash_observed p)))
      (\<lambda>r. ebind r (\<lambda>h.
    ebind (ok_or (ParseError TBlockstamp) (pob_blockstamp p)) (\<lambda>pb.
    ebind (ok_or (ParseError TBlockstamp) (ok (blockstamp_try_from E pb))) (\<lambda>b.
    Inr \<lparr>ob_domain = Domain dn, ob_zone = Zone zn, ob_blockstamp = b, ob_hash_observed = h\<rparr>))))))"

definition observation_to_proto :: "observation \<Rightarrow> p_observation" where
  "observation_to_proto ob =
    PObservation (domain_display (ob_domain ob)) (zone_display (ob_zone ob))
      (Some (hash_observed_to_proto (ob_hash_observed ob)))
      (Some (blockstamp_to_proto (ob_blockstamp ob)))"

definition observation_ok :: "env \<Rightarrow> observation \<Rightarrow> bool" where
  "observation_ok E ob =
    (fqdn_valid E (domain_name (ob_domain ob)) \<and> fqdn_valid E (zone_name (ob_zone ob)) \<and>
     hash_observed_ok (ob_hash_observed ob) \<and> block_height (ob_blockstamp ob) \<le> i64_max)"

interpretation observation_conv: proto_conv observation_to_proto "observation_try_from E" id
  "\<lambda>ob. env_ok E \<and> observation_ok E ob" for E
  by unfold_locales
    (auto simp: observation_to_proto_def observation_try_from_def observation_ok_def domain_display_def
      zone_display_def env_fqdn_from_ascii_str hash_observed_conv.conv blockstamp_conv.conv)

definition observe_try_from :: "env \<Rightarrow> p_observe \<Rightarrow> error + observe_action" where
  "observe_try_from E p =
    ebind (ok_or (ParseError TOracleIdentity) (map_option unsigned_try_from (pobs_signature p)))
      (\<lambda>r1. ebind r1 (\<lambda>u. ebind (oracle_identity_of_unsigned u) (\<lambda>orc.
    ebind (ok_or (ParseError TObservation) (map_option (observation_try_from E) (pobs_observation p)))
      (\<lambda>r2. ebind r2 (\<lambda>ob.
    Inr \<lparr>obs_observation = ob, obs_oracle = orc\<rparr>)))))"

definition observe_to_proto :: "observe_action \<Rightarrow> p_observe" where
  "observe_to_proto ob =
    PObserve (Some (signature_of_oracle_identity (obs_oracle ob)))
      (Some (observation_to_proto (obs_observation ob)))"

interpretation observe_conv: proto_conv observe_to_proto "observe_try_from E" id
  "\<lambda>ob. env_ok E \<and> observation_ok E (obs_observation ob)" for E
  by unfold_locales
    (auto simp: observe_to_proto_def observe_try_from_def signature_of_oracle_identity_def
      signature_unsigned_def unsigned_try_from_def oracle_identity_of_unsigned_def observation_conv.conv)

section \<open>Reconfigurations\<close>

definition reconfigure_try_from :: "env \<Rightarrow> p_reconfigure \<Rightarrow> error + reconfigure_action" where
  "reconfigure_try_from E p =
    ebind (ok_or (ParseError TAdmin) (map_option unsigned_try_from (pr_signature p)))
      (\<lambda>r1. ebind r1 (\<lambda>u. ebind (admin_of_unsigned u) (\<lambda>adm.
    ebind (ok_or (ParseError TConfig) (map_option config_try_from (pr_config p)))
      (\<lambda>r2. ebind r2 (\<lambda>cfg.
    ebind (ok_or (ParseError TTime) (pr_not_before p)) (\<lambda>nb.
    ebind (ok_or (ParseError TTime) (time_try_from_timestamp E nb)) (\<lambda>not_before.
    ebind (ok_or (ParseError TTime) (pr_not_after p)) (\<lambda>na.
    ebind (ok_or (ParseError TTime) (time_try_from_timestamp E na)) (\<lambda>not_after.
    Inr \<lparr>re_config = cfg, re_not_before = not_before, re_not_after = not_after, re_admin = adm\<rparr>)))))))))"

definition reconfigure_to_proto :: "env \<Rightarrow> reconfigure_action \<Rightarrow> p_reconfigure" where
  "reconfigure_to_proto E r =
    PReconfigure (Some (signature_of_admin (re_admin r))) (Some (config_to_proto (re_config r)))
      (Some (time_to_timestamp E (re_not_before r))) (Some (time_to_timestamp E (re_not_after r)))"

definition reconfigure_norm :: "reconfigure_action \<Rightarrow> reconfigure_action" where
  "reconfigure_norm r = r\<lparr>re_config := config_norm (re_config r)\<rparr>"

definition reconfigure_ok :: "reconfigure_action \<Rightarrow> bool" where
  "reconfigure_ok r = (time_ok (re_not_before r) \<and> time_ok (re_not_after r))"

interpretation reconfigure_conv:
  proto_conv "reconfigure_to_proto E" "reconfigure_try_from E" reconfigure_norm
    "\<lambda>r. env_ok E \<and> reconfigure_ok r" for E
  by unfold_locales
    (auto simp: reconfigure_to_proto_def reconfigure_try_from_def reconfigure_norm_def reconfigure_ok_def
      signature_of_admin_def signature_unsigned_def unsigned_try_from_def admin_of_unsigned_def
      config_conv.conv env_timestamp)

section \<open>Actions and transactions\<close>

definition action_try_from :: "env \<Rightarrow> p_action \<Rightarrow> error + action" where
  "action_try_from E p =
    (case pact_action p of
       Some (PAReconfigure r) \<Rightarrow> ebind (reconfigure_try_from E r) (\<lambda>x. Inr (Reconfigure x))
     | Some (PAObserve ob) \<Rightarrow> ebind (observe_try_from E ob) (\<lambda>x. Inr (Observe x))
     | None \<Rightarrow> Inl (ParseError TAction))"

fun action_to_proto :: "env \<Rightarrow> action \<Rightarrow> p_action" where
  "action_to_proto E (Reconfigure r) = PAction (Some (PAReconfigure (reconfigure_to_proto E r)))"
| "action_to_proto E (Observe ob) = PAction (Some (PAObserve (observe_to_proto ob)))"

fun action_norm :: "action \<Rightarrow> action" where
  "action_norm (Reconfigure r) = Reconfigure (reconfigure_norm r)"
| "action_norm (Observe ob) = Observe ob"

fun action_ok :: "env \<Rightarrow> action \<Rightarrow> bool" where
  "action_ok E (Reconfigure r) = reconfigure_ok r"
| "action_ok E (Observe ob) = observation_ok E (obs_observation ob)"

lemma action_roundtrip:
  "env_ok E \<Longrightarrow> action_ok E a \<Longrightarrow> action_try_from E (action_to_proto E a) = Inr (action_norm a)"
  by (cases a) (auto simp: action_try_from_def reconfigure_conv.conv observe_conv.conv)

interpretation action_conv: proto_conv "action_to_proto E" "action_try_from E" action_norm
  "\<lambda>a. env_ok E \<and> action_ok E a" for E
  by unfold_locales (simp add: action_roundtrip)

definition transaction_try_from :: "env \<Rightarrow> p_transaction \<Rightarrow> error + transaction" where
  "transaction_try_from E p =
    ebind (ecollect (map (action_try_from E) (ptx_actions p))) (\<lambda>acts.
    Inr \<lparr>tx_chain_id = ChainId (ptx_chain_id p), tx_actions = acts\<rparr>)"

definition transaction_to_proto :: "env \<Rightarrow> transaction \<Rightarrow> p_transaction" where
  "transaction_to_proto E tx =
    PTransaction (chain_id_str (tx_chain_id tx)) (map (action_to_proto E) (tx_actions tx))"

definition transaction_norm :: "transaction \<Rightarrow> transaction" where
  "transaction_norm tx = tx\<lparr>tx_actions := map action_norm (tx_actions tx)\<rparr>"

definition transaction_ok :: "env \<Rightarrow> transaction \<Rightarrow> bool" where
  "transaction_ok E tx = (\<forall>a \<in> set (tx_actions tx). action_ok E a)"

lemma transaction_roundtrip:
  assumes "env_ok E" "transaction_ok E tx"
  shows "transaction_try_from E (transaction_to_proto E tx) = Inr (transaction_norm tx)"
proof -
  have "ecollect (map (action_try_from E) (map (action_to_proto E) (tx_actions tx)))
      = Inr (map action_norm (tx_actions tx))"
    using assms by (intro action_conv.conv_list) (auto simp: transaction_ok_def)
  then show ?thesis
    by (simp add: transaction_try_from_def transaction_to_proto_def transaction_norm_def)
qed

interpretation transaction_conv:
  proto_conv "transaction_to_proto E" "transaction_try_from E" transaction_norm
    "\<lambda>tx. env_ok E \<and> transaction_ok E tx" for E
  by unfold_locales (simp add: transaction_roundtrip)

section \<open>Oracle vote values\<close>

definition oracle_vote_value_try_from :: "env \<Rightarrow> p_oracle_vote_value \<Rightarrow> error + oracle_vote_value" where
  "oracle_vote_value_try_from E p =
    ebind (ok_or (ParseError TOracleVoteValue) (povv_hash_observed p)) (\<lambda>ph.
    ebind (hash_observed_try_from ph) (\<lambda>h.
    ebind (ok_or (ParseError TOracleVoteValue) (fqdn_from_str E (povv_zone p))) (\<lambda>z.
    Inr \<lparr>ovv_hash_observed = h, ovv_zone = Zone z\<rparr>)))"

definition oracle_vote_value_to_proto :: "oracle_vote_value \<Rightarrow> p_oracle_vote_value" where
  "oracle_vote_value_to_proto v =
    POracleVoteValue (Some (hash_observed_to_proto (ovv_hash_observed v)))
      (fqdn_display (zone_name (ovv_zone v)))"

definition oracle_vote_value_ok :: "env \<Rightarrow> oracle_vote_value \<Rightarrow> bool" where
  "oracle_vote_value_ok E v =
    (hash_observed_ok (ovv_hash_observed v) \<and> fqdn_valid E (zone_name (ovv_zone v)))"

interpretation oracle_vote_value_conv:
  proto_conv oracle_vote_value_to_proto "oracle_vote_value_try_from E" id
    "\<lambda>v. env_ok E \<and> oracle_vote_value_ok E v" for E
  by unfold_locales
    (auto simp: oracle_vote_value_to_proto_def oracle_vote_value_try_from_def oracle_vote_value_ok_def
      hash_observed_conv.conv env_fqdn_from_str)

section \<open>The stored types\<close>

definition config_encode :: "env \<Rightarrow> config \<Rightarrow> bytes" where
  "config_encode E = domain_encode (msg_config E) config_to_proto"

definition config_decode :: "env \<Rightarrow> bytes \<Rightarrow> error + config" where
  "config_decode E = domain_decode (msg_config E) config_try_from"

definition ovv_encode :: "env \<Rightarrow> oracle_vote_value \<Rightarrow> bytes" where
  "ovv_encode E = domain_encode (msg_oracle_vote_value E) oracle_vote_value_to_proto"

definition ovv_decode :: "env \<Rightarrow> bytes \<Rightarrow> error + oracle_vote_value" where
  "ovv_decode E = domain_decode (msg_oracle_vote_value E) (oracle_vote_value_try_from E)"

definition time_encode :: "env \<Rightarrow> time \<Rightarrow> bytes" where
  "time_encode E = domain_encode (msg_timestamp E) (time_to_timestamp E)"

definition time_decode :: "env \<Rightarrow> bytes \<Rightarrow> error + time" where
  "time_decode E =
    domain_decode (msg_timestamp E) (\<lambda>p. ok_or (ParseError TTime) (time_try_from_timestamp E p))"

definition height_encode :: "env \<Rightarrow> height \<Rightarrow> bytes" where
  "height_encode E = domain_encode (msg_u64 E) id"

definition height_decode :: "env \<Rightarrow> bytes \<Rightarrow> error + height" where
  "height_decode E = domain_decode (msg_u64 E) (\<lambda>w. ok_or (ParseError THeight) (height_try_from E w))"

definition power_encode :: "env \<Rightarrow> power \<Rightarrow> bytes" where
  "power_encode E = domain_encode (msg_u64 E) id"

definition power_decode :: "env \<Rightarrow> bytes \<Rightarrow> error + power" where
  "power_decode E = domain_decode (msg_u64 E) (\<lambda>w. ok_or (ParseError TPower) (power_try_from E w))"

definition app_hash_encode :: "env \<Rightarrow> app_hash \<Rightarrow> bytes" where
  "app_hash_encode E = domain_encode (msg_bytes E) id"

definition app_hash_decode :: "env \<Rightarrow> bytes \<Rightarrow> error + app_hash" where
  "app_hash_decode E = domain_decode (msg_bytes E) (\<lambda>b. ok_or (ParseError TAppHash) (app_hash_try_from E b))"

definition bytes_encode :: "env \<Rightarrow> bytes \<Rightarrow> bytes" where
  "bytes_encode E = domain_encode (msg_bytes E) id"

definition bytes_decode :: "env \<Rightarrow> bytes \<Rightarrow> error + bytes" where
  "bytes_decode E = domain_decode (msg_bytes E) Inr"

definition chain_id_encode :: "env \<Rightarrow> chain_id \<Rightarrow> bytes" where
  "chain_id_encode E = domain_encode (msg_string E) chain_id_str"

definition chain_id_decode :: "env \<Rightarrow> bytes \<Rightarrow> error + chain_id" where
  "chain_id_decode E = domain_decode (msg_string E) chain_id_try_from"

definition unit_decode :: "env \<Rightarrow> bytes \<Rightarrow> error + unit" where
  "unit_decode E b = ok_or DecodeError (msg_unit_decode E b)"

named_theorems codec_simps \<open>decoding what was encoded\<close>

lemma config_codec [codec_simps]: "env_ok E \<Longrightarrow> config_decode E (config_encode E c) = Inr (config_norm c)"
  by (simp add: config_decode_def config_encode_def domain_decode_def domain_encode_def env_messages
      config_conv.conv)

lemma ovv_codec [codec_simps]:
  "env_ok E \<Longrightarrow> oracle_vote_value_ok E v \<Longrightarrow> ovv_decode E (ovv_encode E v) = Inr v"
  by (simp add: ovv_decode_def ovv_encode_def domain_decode_def domain_encode_def env_messages
      oracle_vote_value_conv.conv)

lemma time_codec [codec_simps]: "env_ok E \<Longrightarrow> time_ok t \<Longrightarrow> time_decode E (time_encode E t) = Inr t"
  by (simp add: time_decode_def time_encode_def domain_decode_def domain_encode_def env_messages env_timestamp)

lemma height_codec [codec_simps]: "env_ok E \<Longrightarrow> h \<le> i64_max \<Longrightarrow> height_decode E (height_encode E h) = Inr h"
  by (simp add: height_decode_def height_encode_def domain_decode_def domain_encode_def env_messages env_height)

lemma power_codec [codec_simps]: "env_ok E \<Longrightarrow> p \<le> i64_max \<Longrightarrow> power_decode E (power_encode E p) = Inr p"
  by (simp add: power_decode_def power_encode_def domain_decode_def domain_encode_def env_messages env_power)

lemma app_hash_codec [codec_simps]: "env_ok E \<Longrightarrow> app_hash_decode E (app_hash_encode E b) = Inr b"
  by (simp add: app_hash_decode_def app_hash_encode_def domain_decode_def domain_encode_def env_messages
      env_app_hash)

lemma bytes_codec [codec_simps]: "env_ok E \<Longrightarrow> bytes_decode E (bytes_encode E b) = Inr b"
  by (simp add: bytes_decode_def bytes_encode_def domain_decode_def domain_encode_def env_messages)

lemma chain_id_codec [codec_simps]:
  "env_ok E \<Longrightarrow> chain_id_str c \<noteq> [] \<Longrightarrow> chain_id_decode E (chain_id_encode E c) = Inr c"
  by (simp add: chain_id_decode_def chain_id_encode_def domain_decode_def domain_encode_def env_messages
      chain_id_try_from_def)

lemma unit_codec [codec_simps]:
  "env_ok E \<Longrightarrow> unit_decode E (config_encode E c) = Inr ()"
  "env_ok E \<Longrightarrow> unit_decode E (ovv_encode E v) = Inr ()"
  by (simp_all add: unit_decode_def config_encode_def ovv_encode_def domain_encode_def env_messages)

lemma config_norm_idem [simp]: "config_norm (config_norm c) = config_norm c"
proof -
  have "whole_secs (whole_secs d) = whole_secs d" for d
    by (simp add: whole_secs_def as_secs_def nanos_per_sec_def)
  then show ?thesis
    by (simp add: config_norm_def admin_config_norm_def oracle_config_norm_def voting_config_norm_def
        oracle_norm_def)
qed

end
