(* ===== verification/Store.thy ===== *)
theory Store
  imports Ordered_Map Convert_Tx
begin

text \<open>
  The storage layer: \<open>crates/felidae-state/src/store.rs\<close>. A \<open>State<S>\<close> is the contents it reads
  through its delta: the verifiable keys (strings) and the non-verifiable index (bytes), each listed
  in key order, which is what the storage library promises of its prefix scans. A \<open>Store\<close> has the
  committed contents, the pending ones and the batch staged for the next commit.
\<close>

section \<open>Substores\<close>

record contents =
  verifiable :: "(string, bytes) omap"
  nonverifiable :: "(bytes, bytes) omap"

datatype substore = Internal | Canonical

fun substore_display :: "substore \<Rightarrow> string" where
  "substore_display Internal = ''internal''"
| "substore_display Canonical = ''canonical''"

definition substore_prefix :: "substore \<Rightarrow> string \<Rightarrow> string" where
  "substore_prefix sub key = substore_display sub @ ''/'' @ key"

definition substore_prefix_bytes :: "substore \<Rightarrow> bytes \<Rightarrow> bytes" where
  "substore_prefix_bytes sub key = as_bytes (substore_display sub @ ''/'') @ key"

definition substore_unprefix :: "substore \<Rightarrow> string \<Rightarrow> string option" where
  "substore_unprefix sub key = strip_prefix (substore_display sub @ ''/'') key"

definition substore_unprefix_bytes :: "substore \<Rightarrow> bytes \<Rightarrow> bytes option" where
  "substore_unprefix_bytes sub key =
    (let p = as_bytes (substore_display sub @ ''/'')
     in if prefix p key then Some (drop (length p) key) else None)"

section \<open>Typed access\<close>

text \<open>
  The \<open>expect\<close> on \<open>unprefix\<close> is the branch \<open>Panic\<close>. A stream is the list of its items, each an error
  or a value; whether the error reaches the caller depends on how it reads the stream.
\<close>

definition expect_unprefix :: "'k option \<Rightarrow> error + 'k" where
  "expect_unprefix k = ok_or (Panic ''key from wrong substore'') k"

definition get :: "(bytes \<Rightarrow> error + 'v) \<Rightarrow> substore \<Rightarrow> string \<Rightarrow> contents \<Rightarrow> error + 'v option" where
  "get dec sub key s =
    (case om_get (verifiable s) (substore_prefix sub key) of
       None \<Rightarrow> Inr None
     | Some b \<Rightarrow> ebind (dec b) (\<lambda>v. Inr (Some v)))"

definition prefix_keys :: "substore \<Rightarrow> string \<Rightarrow> contents \<Rightarrow> (error + string) list" where
  "prefix_keys sub p s =
    map (\<lambda>(key, b). expect_unprefix (substore_unprefix sub key))
      (om_scan (substore_prefix sub p) (verifiable s))"

definition prefix_stream ::
  "(bytes \<Rightarrow> error + 'v) \<Rightarrow> substore \<Rightarrow> string \<Rightarrow> contents \<Rightarrow> (error + string \<times> 'v) list" where
  "prefix_stream dec sub p s =
    map (\<lambda>(key, b). ebind (dec b) (\<lambda>v.
           ebind (expect_unprefix (substore_unprefix sub key)) (\<lambda>k. Inr (k, v))))
      (om_scan (substore_prefix sub p) (verifiable s))"

definition index_get :: "(bytes \<Rightarrow> error + 'v) \<Rightarrow> substore \<Rightarrow> bytes \<Rightarrow> contents \<Rightarrow> error + 'v option" where
  "index_get dec sub key s =
    (case om_get (nonverifiable s) (substore_prefix_bytes sub key) of
       None \<Rightarrow> Inr None
     | Some b \<Rightarrow> ebind (dec b) (\<lambda>v. Inr (Some v)))"

definition index_prefix ::
  "(bytes \<Rightarrow> error + 'v) \<Rightarrow> substore \<Rightarrow> bytes \<Rightarrow> contents \<Rightarrow> (error + bytes \<times> 'v) list" where
  "index_prefix dec sub p s =
    map (\<lambda>(key, b). ebind (dec b) (\<lambda>v.
           ebind (expect_unprefix (substore_unprefix_bytes sub key)) (\<lambda>k. Inr (k, v))))
      (om_scan (substore_prefix_bytes sub p) (nonverifiable s))"

definition put :: "('v \<Rightarrow> bytes) \<Rightarrow> substore \<Rightarrow> string \<Rightarrow> 'v \<Rightarrow> contents \<Rightarrow> contents" where
  "put enc sub key v s = s\<lparr>verifiable := om_put (substore_prefix sub key) (enc v) (verifiable s)\<rparr>"

definition delete :: "substore \<Rightarrow> string \<Rightarrow> contents \<Rightarrow> contents" where
  "delete sub key s = s\<lparr>verifiable := om_del (substore_prefix sub key) (verifiable s)\<rparr>"

definition index_put :: "('v \<Rightarrow> bytes) \<Rightarrow> substore \<Rightarrow> bytes \<Rightarrow> 'v \<Rightarrow> contents \<Rightarrow> contents" where
  "index_put enc sub key v s =
    s\<lparr>nonverifiable := om_put (substore_prefix_bytes sub key) (enc v) (nonverifiable s)\<rparr>"

definition index_delete :: "substore \<Rightarrow> bytes \<Rightarrow> contents \<Rightarrow> contents" where
  "index_delete sub key s = s\<lparr>nonverifiable := om_del (substore_prefix_bytes sub key) (nonverifiable s)\<rparr>"

section \<open>Each substore is an ordered store\<close>

definition contents_ok :: "contents \<Rightarrow> bool" where
  "contents_ok s = (om_invar (verifiable s) \<and> om_invar (nonverifiable s))"

text \<open>The raw view of one substore, under the keys the rest of the program uses.\<close>

definition vget :: "substore \<Rightarrow> contents \<Rightarrow> string \<Rightarrow> bytes option" where
  "vget sub s key = om_get (verifiable s) (substore_display sub @ ''/'' @ key)"

definition vscan :: "substore \<Rightarrow> string \<Rightarrow> contents \<Rightarrow> (string \<times> bytes) list" where
  "vscan sub p s = om_scan_under (substore_display sub @ ''/'') p (verifiable s)"

definition nget :: "substore \<Rightarrow> contents \<Rightarrow> bytes \<Rightarrow> bytes option" where
  "nget sub s key = om_get (nonverifiable s) (as_bytes (substore_display sub @ ''/'') @ key)"

definition nscan :: "substore \<Rightarrow> bytes \<Rightarrow> contents \<Rightarrow> (bytes \<times> bytes) list" where
  "nscan sub p s = om_scan_under (as_bytes (substore_display sub @ ''/'')) p (nonverifiable s)"

interpretation vs: ordered_store "vget sub" "\<lambda>k. put id sub k" "delete sub" "vscan sub" contents_ok for sub
proof unfold_locales
  fix s :: contents and k p :: string and v :: bytes
  assume ok: "contents_ok s"
  then have inv: "om_invar (verifiable s)" by (simp add: contents_ok_def)
  show "vget sub (put id sub k v s) = (vget sub s)(k \<mapsto> v)"
    by (auto simp: vget_def put_def substore_prefix_def om_get_put)
  show "vget sub (delete sub k s) = (vget sub s)(k := None)"
    by (auto simp: vget_def delete_def substore_prefix_def om_get_del)
  show "set (vscan sub p s) = {(k, v). prefix p k \<and> vget sub s k = Some v}"
    using under.set_scan [OF inv, of "substore_display sub @ ''/''" p] by (simp add: vscan_def vget_def)
  show "sorted_wrt (<) (map fst (vscan sub p s))"
    unfolding vscan_def by (rule under.sorted_scan [OF inv])
qed (auto simp: contents_ok_def put_def delete_def om_invar_put om_invar_del)

interpretation ns: ordered_store "nget sub" "\<lambda>k. index_put id sub k" "index_delete sub" "nscan sub" contents_ok
  for sub
proof unfold_locales
  fix s :: contents and k p :: bytes and v :: bytes
  assume ok: "contents_ok s"
  then have inv: "om_invar (nonverifiable s)" by (simp add: contents_ok_def)
  show "nget sub (index_put id sub k v s) = (nget sub s)(k \<mapsto> v)"
    by (auto simp: nget_def index_put_def substore_prefix_bytes_def om_get_put)
  show "nget sub (index_delete sub k s) = (nget sub s)(k := None)"
    by (auto simp: nget_def index_delete_def substore_prefix_bytes_def om_get_del)
  show "set (nscan sub p s) = {(k, v). prefix p k \<and> nget sub s k = Some v}"
    using under.set_scan [OF inv, of "as_bytes (substore_display sub @ ''/'')" p]
    by (simp add: nscan_def nget_def)
  show "sorted_wrt (<) (map fst (nscan sub p s))"
    unfolding nscan_def by (rule under.sorted_scan [OF inv])
qed (auto simp: contents_ok_def index_put_def index_delete_def om_invar_put om_invar_del)

text \<open>The typed operations over the raw view.\<close>

named_theorems store_simps \<open>the typed store operations over the raw view\<close>

lemma get_eq:
  "get dec sub k s = (case vget sub s k of None \<Rightarrow> Inr None | Some b \<Rightarrow> ebind (dec b) (\<lambda>v. Inr (Some v)))"
  by (simp add: get_def vget_def substore_prefix_def)

lemma index_get_eq:
  "index_get dec sub k s =
    (case nget sub s k of None \<Rightarrow> Inr None | Some b \<Rightarrow> ebind (dec b) (\<lambda>v. Inr (Some v)))"
  by (simp add: index_get_def nget_def substore_prefix_bytes_def)

lemma put_raw_eq: "put enc sub k v = put id sub k (enc v)"
  by (simp add: put_def fun_eq_iff)

lemma index_put_raw_eq: "index_put enc sub k v = index_put id sub k (enc v)"
  by (simp add: index_put_def fun_eq_iff)

lemma scan_unprefix:
  "map (\<lambda>(key, b). f (drop (length pre) key) b) (om_scan (pre @ p) m)
    = map (\<lambda>(k, b). f k b) (om_scan_under pre p m)"
  by (simp add: om_scan_under_def case_prod_beta comp_def)

lemma prefix_stream_eq:
  "prefix_stream dec sub p s = map (\<lambda>(k, b). ebind (dec b) (\<lambda>v. Inr (k, v))) (vscan sub p s)"
proof -
  let ?pre = "substore_display sub @ ''/''"
  have "substore_unprefix sub key = Some (drop (length ?pre) key)"
    if "(key, b) \<in> set (om_scan (?pre @ p) m)" for key b and m :: "(string, bytes) omap"
    using that by (auto simp: om_scan_def substore_unprefix_def strip_prefix_def prefix_def)
  then have "prefix_stream dec sub p s
      = map (\<lambda>(key, b). ebind (dec b) (\<lambda>v. Inr (drop (length ?pre) key, v))) (om_scan (?pre @ p) (verifiable s))"
    by (auto simp: prefix_stream_def substore_prefix_def expect_unprefix_def)
  then show ?thesis unfolding vscan_def scan_unprefix [of "\<lambda>k b. ebind (dec b) (\<lambda>v. Inr (k, v))"] .
qed

lemma index_prefix_eq:
  "index_prefix dec sub p s = map (\<lambda>(k, b). ebind (dec b) (\<lambda>v. Inr (k, v))) (nscan sub p s)"
proof -
  let ?pre = "as_bytes (substore_display sub @ ''/'')"
  have "substore_unprefix_bytes sub key = Some (drop (length ?pre) key)"
    if "(key, b) \<in> set (om_scan (?pre @ p) m)" for key b and m :: "(bytes, bytes) omap"
    using that by (auto simp: om_scan_def substore_unprefix_bytes_def prefix_def Let_def)
  then have "index_prefix dec sub p s
      = map (\<lambda>(key, b). ebind (dec b) (\<lambda>v. Inr (drop (length ?pre) key, v))) (om_scan (?pre @ p) (nonverifiable s))"
    by (auto simp: index_prefix_def substore_prefix_bytes_def expect_unprefix_def)
  then show ?thesis unfolding nscan_def scan_unprefix [of "\<lambda>k b. ebind (dec b) (\<lambda>v. Inr (k, v))"] .
qed

lemma prefix_keys_eq: "prefix_keys sub p s = map (\<lambda>(k, b). Inr k) (vscan sub p s)"
proof -
  let ?pre = "substore_display sub @ ''/''"
  have "substore_unprefix sub key = Some (drop (length ?pre) key)"
    if "(key, b) \<in> set (om_scan (?pre @ p) m)" for key b and m :: "(string, bytes) omap"
    using that by (auto simp: om_scan_def substore_unprefix_def strip_prefix_def prefix_def)
  then have "prefix_keys sub p s
      = map (\<lambda>(key, b). Inr (drop (length ?pre) key)) (om_scan (?pre @ p) (verifiable s))"
    by (auto simp: prefix_keys_def substore_prefix_def expect_unprefix_def)
  then show ?thesis unfolding vscan_def scan_unprefix [of "\<lambda>k b. Inr k"] .
qed

text \<open>The effect of every operation on both views: other substores and the other table are untouched.\<close>

lemma display_prefix_free:
  "substore_display a @ ''/'' @ k = substore_display b @ ''/'' @ k' \<longleftrightarrow> a = b \<and> k = k'"
  by (cases a; cases b) auto

lemma display_prefix_free_bytes:
  "as_bytes (substore_display a @ ''/'') @ k = as_bytes (substore_display b @ ''/'') @ k' \<longleftrightarrow> a = b \<and> k = k'"
  by (cases a; cases b) (auto simp: as_bytes_def)

lemma vget_put [store_simps]:
  "vget sub (put enc sub' k v s) k' = (if sub = sub' \<and> k = k' then Some (enc v) else vget sub s k')"
  by (auto simp: vget_def put_def substore_prefix_def om_get_put display_prefix_free [simplified])

lemma vget_delete [store_simps]:
  "vget sub (delete sub' k s) k' = (if sub = sub' \<and> k = k' then None else vget sub s k')"
  by (auto simp: vget_def delete_def substore_prefix_def om_get_del display_prefix_free [simplified])

lemma nget_index_put [store_simps]:
  "nget sub (index_put enc sub' k v s) k' = (if sub = sub' \<and> k = k' then Some (enc v) else nget sub s k')"
  by (auto simp: nget_def index_put_def substore_prefix_bytes_def om_get_put
      display_prefix_free_bytes [simplified])

lemma nget_index_delete [store_simps]:
  "nget sub (index_delete sub' k s) k' = (if sub = sub' \<and> k = k' then None else nget sub s k')"
  by (auto simp: nget_def index_delete_def substore_prefix_bytes_def om_get_del
      display_prefix_free_bytes [simplified])

lemma view_frames [store_simps]:
  "nget sub (put enc sub' sk v s) = nget sub s"
  "nget sub (delete sub' sk s) = nget sub s"
  "vget sub (index_put enc sub' bk v s) = vget sub s"
  "vget sub (index_delete sub' bk s) = vget sub s"
  by (auto simp: nget_def vget_def put_def delete_def index_put_def index_delete_def)

lemma contents_ok_ops [simp]:
  "contents_ok s \<Longrightarrow> contents_ok (put enc sub sk v s)"
  "contents_ok s \<Longrightarrow> contents_ok (delete sub sk s)"
  "contents_ok s \<Longrightarrow> contents_ok (index_put enc' sub bk v' s)"
  "contents_ok s \<Longrightarrow> contents_ok (index_delete sub bk s)"
  by (auto simp: contents_ok_def put_def delete_def index_put_def index_delete_def om_invar_put om_invar_del)

section \<open>The life cycle of a store\<close>

record store =
  committed :: contents
  pending :: contents
  staged :: "contents option"

definition empty_contents :: contents where
  "empty_contents = \<lparr>verifiable = om_empty, nonverifiable = om_empty\<rparr>"

text \<open>\<open>Store::new\<close> on a storage whose latest snapshot is \<open>c\<close>; \<open>Store::init\<close> opens it first.\<close>

definition store_new :: "contents \<Rightarrow> store" where
  "store_new c = \<lparr>committed = c, pending = c, staged = None\<rparr>"

definition root_hash_of :: "env \<Rightarrow> substore option \<Rightarrow> contents \<Rightarrow> bytes" where
  "root_hash_of E sub c =
    (case sub of None \<Rightarrow> merkle_root E (verifiable c)
     | Some x \<Rightarrow> merkle_prefix_root E (substore_display x) (verifiable c))"

definition root_hash :: "env \<Rightarrow> substore option \<Rightarrow> store \<Rightarrow> bytes" where
  "root_hash E sub st = root_hash_of E sub (committed st)"

datatype root_hashes = RootHashes (rh_internal: bytes) (rh_canonical: bytes) (rh_app_hash: app_hash)

definition root_hashes :: "env \<Rightarrow> store \<Rightarrow> error + root_hashes" where
  "root_hashes E st =
    ebind (ok_or (ParseError TAppHash) (app_hash_try_from E (root_hash E None st))) (\<lambda>h.
    Inr (RootHashes (root_hash E (Some Internal) st) (root_hash E (Some Canonical) st) h))"

definition prepare_commit :: "env \<Rightarrow> store \<Rightarrow> store \<times> (error + app_hash)" where
  "prepare_commit E st =
    (let batch = pending st; st' = st\<lparr>pending := committed st\<rparr>
     in case app_hash_try_from E (root_hash_of E None batch) of
          None \<Rightarrow> (st', Inl (ParseError TAppHash))
        | Some h \<Rightarrow> (st'\<lparr>staged := Some batch\<rparr>, Inr h))"

definition commit_staged :: "contents \<Rightarrow> store \<Rightarrow> store" where
  "commit_staged batch st = st\<lparr>committed := batch\<rparr>"

definition commit :: "store \<Rightarrow> store \<times> (error + unit)" where
  "commit st =
    (case staged st of
       None \<Rightarrow> (st, Inl NoStagedBatch)
     | Some batch \<Rightarrow>
         let st' = commit_staged batch (st\<lparr>staged := None\<rparr>)
         in (st'\<lparr>pending := committed st'\<rparr>, Inr ()))"

definition abort :: "store \<Rightarrow> store" where
  "abort st = st\<lparr>pending := committed st, staged := None\<rparr>"

text \<open>\<open>fork\<close> turns the delta of the original into a shared one with the same contents, and shares its
  storage: the pair is the fork and the original.\<close>

definition fork :: "store \<Rightarrow> store \<times> store" where
  "fork st = (st\<lparr>staged := None\<rparr>, st)"

definition put_raw :: "string \<Rightarrow> bytes \<Rightarrow> store \<Rightarrow> store" where
  "put_raw key v st = st\<lparr>pending := (pending st)\<lparr>verifiable := om_put key v (verifiable (pending st))\<rparr>\<rparr>"

end
