(* ===== verification/Keys.thy ===== *)
theory Keys
  imports Store
begin

text \<open>
  The keys of a vote queue: \<open>crates/felidae-state/src/state/voting/vote_queue/keys.rs\<close>. Every
  builder and parser takes the queue's \<open>internal_state_prefix\<close> (\<open>qp\<close>). The four families of keys
  (votes and pending changes, each by key and by timestamp) are tables in the sense of
  \<open>key_table\<close>; that distinct rows have distinct keys follows from the parsers being left inverses
  of the builders.
\<close>

section \<open>Builders\<close>

definition queue_prefix :: "string \<Rightarrow> string" where
  "queue_prefix qp = (case strip_suffix ''/'' qp of None \<Rightarrow> qp | Some p \<Rightarrow> p)"

definition votes_by_key_party_prefix :: "string \<Rightarrow> string \<Rightarrow> string \<Rightarrow> bool \<Rightarrow> string" where
  "votes_by_key_party_prefix qp key party exact =
    queue_prefix qp @ ''/votes_by_key/'' @ key @ ''/'' @ party @ (if exact then ''/'' else [])"

definition votes_by_key_prefix :: "string \<Rightarrow> string \<Rightarrow> bool \<Rightarrow> string" where
  "votes_by_key_prefix qp key exact =
    queue_prefix qp @ ''/votes_by_key/'' @ key @ (if exact then ''/'' else [])"

text \<open>The time in a key is cut to the second: \<open>Time::from_unix_timestamp(t.unix_timestamp(), 0)\<close>, which
  exists for every \<open>Time\<close> (\<open>time_of_own_timestamp\<close> below).\<close>

definition votes_by_key_party_timestamp :: "env \<Rightarrow> string \<Rightarrow> string \<Rightarrow> string \<Rightarrow> time \<Rightarrow> string" where
  "votes_by_key_party_timestamp E qp key party t =
    votes_by_key_party_prefix qp key party True @ time_display E (trunc_secs t)"

definition timestamp_bytes :: "time \<Rightarrow> bytes" where
  "timestamp_bytes t = to_be_bytes (word_of_int (unix_timestamp t))"

definition index_votes_by_timestamp_key_party :: "string \<Rightarrow> time \<Rightarrow> string \<Rightarrow> string \<Rightarrow> bytes" where
  "index_votes_by_timestamp_key_party qp t key party =
    as_bytes (queue_prefix qp @ ''/votes_by_timestamp/'') @ timestamp_bytes t @ as_bytes ''/'' @
    as_bytes key @ as_bytes ''/'' @ as_bytes party"

definition votes_by_timestamp_all_prefix :: "string \<Rightarrow> bytes" where
  "votes_by_timestamp_all_prefix qp = as_bytes (queue_prefix qp @ ''/votes_by_timestamp/'')"

definition pending_by_key_prefix :: "string \<Rightarrow> string \<Rightarrow> bool \<Rightarrow> string" where
  "pending_by_key_prefix qp key exact =
    queue_prefix qp @ ''/pending_by_key/'' @ key @ (if exact then ''/'' else [])"

definition pending_by_key_timestamp :: "env \<Rightarrow> string \<Rightarrow> string \<Rightarrow> time \<Rightarrow> string" where
  "pending_by_key_timestamp E qp key t =
    pending_by_key_prefix qp key True @ time_display E (trunc_secs t)"

definition index_pending_by_timestamp_key :: "string \<Rightarrow> time \<Rightarrow> string \<Rightarrow> bytes" where
  "index_pending_by_timestamp_key qp t key =
    as_bytes (queue_prefix qp @ ''/pending_by_timestamp/'') @ timestamp_bytes t @ as_bytes ''/'' @
    as_bytes key"

definition index_pending_by_timestamp_all_prefix :: "string \<Rightarrow> bytes" where
  "index_pending_by_timestamp_all_prefix qp = as_bytes (queue_prefix qp @ ''/pending_by_timestamp/'')"

section \<open>Parsers\<close>

definition strip_key_prefix :: "string \<Rightarrow> string \<Rightarrow> string \<Rightarrow> error + string" where
  "strip_key_prefix qp key key_type =
    ok_or KeyPrefixMismatch (strip_prefix (queue_prefix qp @ ''/'' @ key_type @ ''/'') key)"

definition parse_time_from_rfc3339 :: "env \<Rightarrow> string \<Rightarrow> error + time" where
  "parse_time_from_rfc3339 E s = ok_or KeyTime (time_parse_rfc3339 E s)"

definition parse_votes_by_key_party_timestamp ::
  "env \<Rightarrow> string \<Rightarrow> string \<Rightarrow> error + string \<times> string \<times> time" where
  "parse_votes_by_key_party_timestamp E qp key =
    ebind (strip_key_prefix qp key ''votes_by_key'') (\<lambda>remainder.
    let parts = split_on CHR ''/'' remainder in
    if length parts \<noteq> 3 then Inl KeyFormat
    else ebind (parse_time_from_rfc3339 E (parts ! 2)) (\<lambda>t. Inr (parts ! 0, parts ! 1, t)))"

definition parse_pending_by_key_timestamp :: "env \<Rightarrow> string \<Rightarrow> string \<Rightarrow> error + string \<times> time" where
  "parse_pending_by_key_timestamp E qp key =
    ebind (strip_key_prefix qp key ''pending_by_key'') (\<lambda>remainder.
    ebind (ok_or KeyFormat (rfind CHR ''/'' remainder)) (\<lambda>sep.
    ebind (parse_time_from_rfc3339 E (drop (sep + 1) remainder)) (\<lambda>t.
    Inr (take sep remainder, t))))"

definition parse_timestamp_index_key ::
  "env \<Rightarrow> string \<Rightarrow> bytes \<Rightarrow> string \<Rightarrow> error + time \<times> string" where
  "parse_timestamp_index_key E qp key key_type =
    (let pb = as_bytes (queue_prefix qp @ ''/'' @ key_type @ ''/'') in
     if length key < length pb + 8 + 1 then Inl KeyLength
     else if \<not> prefix pb key then Inl KeyPrefixMismatch
     else
       let ts = from_be_bytes (take 8 (drop (length pb) key)) in
       ebind (ok_or KeyTime (time_from_unix E (sint ts))) (\<lambda>t.
       ebind (ok_or KeyUtf8 (from_utf8 (drop (length pb + 8 + 1) key))) (\<lambda>rest.
       Inr (t, rest))))"

definition parse_index_votes_by_timestamp_key_party ::
  "env \<Rightarrow> string \<Rightarrow> bytes \<Rightarrow> error + time \<times> string \<times> string" where
  "parse_index_votes_by_timestamp_key_party E qp key =
    ebind (parse_timestamp_index_key E qp key ''votes_by_timestamp'') (\<lambda>(t, remainder).
    let parts = split_on CHR ''/'' remainder in
    if length parts < 2 then Inl KeyFormat else Inr (t, parts ! 0, parts ! 1))"

definition parse_index_pending_by_timestamp_key :: "env \<Rightarrow> string \<Rightarrow> bytes \<Rightarrow> error + time \<times> string" where
  "parse_index_pending_by_timestamp_key E qp key =
    parse_timestamp_index_key E qp key ''pending_by_timestamp''"

section \<open>The parsers undo the builders\<close>

text \<open>A component of a key: ASCII without slashes. A time a table can hold: whole
  seconds since the epoch.\<close>

definition part_ok :: "string \<Rightarrow> bool" where
  "part_ok s = (ascii s \<and> CHR ''/'' \<notin> set s)"

definition stamp_ok :: "time \<Rightarrow> bool" where
  "stamp_ok t = (time_ok t \<and> trunc_secs t = t \<and> 0 \<le> t)"

lemma time_ok_trunc [simp]: "time_ok (trunc_secs t) = time_ok t"
  by (simp add: time_ok_def)

lemma trunc_secs_nonneg [simp]: "(0 \<le> trunc_secs t) = (0 \<le> t)"
  by (simp add: trunc_secs_def unix_timestamp_def zero_le_mult_iff pos_imp_zdiv_nonneg_iff)

lemma stamp_ok_trunc [simp]: "stamp_ok (trunc_secs t) = (time_ok t \<and> 0 \<le> t)"
  by (simp add: stamp_ok_def)

lemma stamp_okD: "stamp_ok t \<Longrightarrow> time_ok t" "stamp_ok t \<Longrightarrow> trunc_secs t = t" "stamp_ok t \<Longrightarrow> 0 \<le> t"
  by (simp_all add: stamp_ok_def)

lemma ascii_append [simp]: "ascii (s @ t) = (ascii s \<and> ascii t)"
  by (auto simp: ascii_def)

lemma ascii_Cons_slash [simp]: "ascii (CHR ''/'' # s) = ascii s"
  by (simp add: ascii_def)

lemma as_bytes_Cons: "as_bytes (c # s) = as_bytes [c] @ as_bytes s"
  by (simp add: as_bytes_def)

lemma time_of_own_timestamp:
  "env_ok E \<Longrightarrow> time_ok t \<Longrightarrow> time_from_unix E (unix_timestamp t) = Some (trunc_secs t)"
  by (simp add: env_time_from_unix time_ok_def trunc_secs_def [symmetric])

lemma sint_timestamp:
  assumes "time_ok t"
  shows "sint (word_of_int (unix_timestamp t) :: i64) = unix_timestamp t"
  using assms
  by (simp add: signed_of_int, subst signed_take_bit_int_eq_self) (auto simp: time_ok_def)

lemma length_timestamp_bytes [simp]: "length (timestamp_bytes t) = 8"
  by (simp add: timestamp_bytes_def)

lemma parse_votes_key:
  assumes "env_ok E" "time_ok t" "part_ok key" "part_ok party"
  shows "parse_votes_by_key_party_timestamp E qp (votes_by_key_party_timestamp E qp key party t)
    = Inr (key, party, trunc_secs t)"
proof -
  let ?ts = "time_display E (trunc_secs t)"
  have "split_on CHR ''/'' (key @ CHR ''/'' # party @ CHR ''/'' # ?ts) = [key, party, ?ts]"
    using assms by (simp add: split_on_append split_on_single part_ok_def env_time_no_slash)
  moreover have "strip_key_prefix qp (votes_by_key_party_timestamp E qp key party t) ''votes_by_key''
      = Inr (key @ CHR ''/'' # party @ CHR ''/'' # ?ts)"
    using strip_prefix_append [of "queue_prefix qp @ ''/votes_by_key/''"
        "key @ CHR ''/'' # party @ CHR ''/'' # ?ts"]
    by (simp add: strip_key_prefix_def votes_by_key_party_timestamp_def votes_by_key_party_prefix_def)
  ultimately show ?thesis
    using assms
    by (simp add: parse_votes_by_key_party_timestamp_def parse_time_from_rfc3339_def env_time_parse)
qed

lemma parse_pending_key:
  assumes "env_ok E" "time_ok t"
  shows "parse_pending_by_key_timestamp E qp (pending_by_key_timestamp E qp key t) = Inr (key, trunc_secs t)"
proof -
  let ?ts = "time_display E (trunc_secs t)"
  have "strip_key_prefix qp (pending_by_key_timestamp E qp key t) ''pending_by_key''
      = Inr (key @ CHR ''/'' # ?ts)"
    using strip_prefix_append [of "queue_prefix qp @ ''/pending_by_key/''" "key @ CHR ''/'' # ?ts"]
    by (simp add: strip_key_prefix_def pending_by_key_timestamp_def pending_by_key_prefix_def)
  moreover have "rfind CHR ''/'' (key @ CHR ''/'' # ?ts) = Some (length key)"
    using assms by (simp add: rfind_append env_time_no_slash)
  ultimately show ?thesis
    using assms
    by (simp add: parse_pending_by_key_timestamp_def parse_time_from_rfc3339_def env_time_parse)
qed

lemma parse_timestamp_index:
  assumes "env_ok E" "time_ok t" "ascii rest"
  shows "parse_timestamp_index_key E qp
      (as_bytes (queue_prefix qp @ ''/'' @ kt @ ''/'') @ timestamp_bytes t @ as_bytes ''/'' @ as_bytes rest) kt
    = Inr (trunc_secs t, rest)"
proof -
  have "from_be_bytes (timestamp_bytes t) = word_of_int (unix_timestamp t)"
    by (simp add: timestamp_bytes_def)
  then show ?thesis
    using assms
    by (simp add: parse_timestamp_index_key_def Let_def sint_timestamp time_of_own_timestamp
        from_utf8_as_bytes del: as_bytes_append)
qed

lemma parse_index_votes_key:
  assumes "env_ok E" "time_ok t" "part_ok key" "part_ok party"
  shows "parse_index_votes_by_timestamp_key_party E qp (index_votes_by_timestamp_key_party qp t key party)
    = Inr (trunc_secs t, key, party)"
proof -
  have "parse_timestamp_index_key E qp (index_votes_by_timestamp_key_party qp t key party) ''votes_by_timestamp''
      = Inr (trunc_secs t, key @ ''/'' @ party)"
    using parse_timestamp_index [OF assms(1,2), of "key @ ''/'' @ party" qp "''votes_by_timestamp''"] assms
    by (simp add: index_votes_by_timestamp_key_party_def part_ok_def as_bytes_Cons [of _ party])
  moreover have "split_on CHR ''/'' (key @ CHR ''/'' # party) = [key, party]"
    using assms by (simp add: split_on_append split_on_single part_ok_def)
  ultimately show ?thesis by (simp add: parse_index_votes_by_timestamp_key_party_def)
qed

lemma parse_index_pending_key:
  assumes "env_ok E" "time_ok t" "part_ok key"
  shows "parse_index_pending_by_timestamp_key E qp (index_pending_by_timestamp_key qp t key)
    = Inr (trunc_secs t, key)"
  using parse_timestamp_index [OF assms(1,2), of key qp "''pending_by_timestamp''"] assms
  by (simp add: parse_index_pending_by_timestamp_key_def index_pending_by_timestamp_key_def part_ok_def)

lemma parse_valid_keys:
  assumes "env_ok E" "part_ok key" "stamp_ok t"
  shows "part_ok party \<Longrightarrow>
      parse_votes_by_key_party_timestamp E qp (votes_by_key_party_timestamp E qp key party t) = Inr (key, party, t)"
    and "part_ok party \<Longrightarrow>
      parse_index_votes_by_timestamp_key_party E qp (index_votes_by_timestamp_key_party qp t key party)
        = Inr (t, key, party)"
    and "parse_pending_by_key_timestamp E qp (pending_by_key_timestamp E qp key t) = Inr (key, t)"
    and "parse_index_pending_by_timestamp_key E qp (index_pending_by_timestamp_key qp t key) = Inr (t, key)"
proof -
  have t: "time_ok t" "trunc_secs t = t" using assms(3) by (simp_all add: stamp_ok_def)
  note parse = parse_votes_key [OF assms(1) t(1)] parse_index_votes_key [OF assms(1) t(1)]
    parse_pending_key [OF assms(1) t(1)] parse_index_pending_key [OF assms(1) t(1)]
  show "part_ok party \<Longrightarrow>
      parse_votes_by_key_party_timestamp E qp (votes_by_key_party_timestamp E qp key party t) = Inr (key, party, t)"
    "part_ok party \<Longrightarrow>
      parse_index_votes_by_timestamp_key_party E qp (index_votes_by_timestamp_key_party qp t key party)
        = Inr (t, key, party)"
    "parse_pending_by_key_timestamp E qp (pending_by_key_timestamp E qp key t) = Inr (key, t)"
    "parse_index_pending_by_timestamp_key E qp (index_pending_by_timestamp_key qp t key) = Inr (t, key)"
    using assms(2) by (simp_all only: parse t(2))
qed

section \<open>The tables\<close>

definition votes_by_key_all :: "string \<Rightarrow> string" where
  "votes_by_key_all qp = queue_prefix qp @ ''/votes_by_key/''"

definition pending_by_key_all :: "string \<Rightarrow> string" where
  "pending_by_key_all qp = queue_prefix qp @ ''/pending_by_key/''"

definition vote_valid :: "env \<Rightarrow> string \<times> string \<times> time \<Rightarrow> bool" where
  "vote_valid E = (\<lambda>(key, party, t). env_ok E \<and> part_ok key \<and> part_ok party \<and> stamp_ok t)"

definition pending_valid :: "env \<Rightarrow> string \<times> time \<Rightarrow> bool" where
  "pending_valid E = (\<lambda>(key, t). env_ok E \<and> part_ok key \<and> stamp_ok t)"

lemma vote_validI [simp]:
  "vote_valid E (key, party, t) = (env_ok E \<and> part_ok key \<and> part_ok party \<and> stamp_ok t)"
  by (simp add: vote_valid_def)

lemma pending_validI [simp]: "pending_valid E (key, t) = (env_ok E \<and> part_ok key \<and> stamp_ok t)"
  by (simp add: pending_valid_def)

lemma votes_key_inj:
  assumes "vote_valid E (k, p, t)" "vote_valid E (k', p', t')" "votes_by_key_party_timestamp E qp k p t = votes_by_key_party_timestamp E qp k' p' t'"
  shows "(k, p, t) = (k', p', t')"
proof -
  have "Inr (k, p, t) = parse_votes_by_key_party_timestamp E qp (votes_by_key_party_timestamp E qp k p t)"
    using assms(1) by (simp add: parse_valid_keys(1))
  also have "\<dots> = parse_votes_by_key_party_timestamp E qp (votes_by_key_party_timestamp E qp k' p' t')"
    by (simp only: assms(3))
  also have "\<dots> = Inr (k', p', t')"
    using assms(2) by (simp add: parse_valid_keys(1))
  finally show ?thesis by simp
qed

lemma pending_key_inj:
  assumes "pending_valid E (k, t)" "pending_valid E (k', t')" "pending_by_key_timestamp E qp k t = pending_by_key_timestamp E qp k' t'"
  shows "(k, t) = (k', t')"
proof -
  have "Inr (k, t) = parse_pending_by_key_timestamp E qp (pending_by_key_timestamp E qp k t)"
    using assms(1) by (simp add: parse_valid_keys(3))
  also have "\<dots> = parse_pending_by_key_timestamp E qp (pending_by_key_timestamp E qp k' t')"
    by (simp only: assms(3))
  also have "\<dots> = Inr (k', t')"
    using assms(2) by (simp add: parse_valid_keys(3))
  finally show ?thesis by simp
qed

lemma vote_index_key_inj:
  assumes "vote_valid E (k, p, t)" "vote_valid E (k', p', t')" "index_votes_by_timestamp_key_party qp t k p = index_votes_by_timestamp_key_party qp t' k' p'"
  shows "(k, p, t) = (k', p', t')"
proof -
  have "Inr (t, k, p) = parse_index_votes_by_timestamp_key_party E qp (index_votes_by_timestamp_key_party qp t k p)"
    using assms(1) by (simp add: parse_valid_keys(2))
  also have "\<dots> = parse_index_votes_by_timestamp_key_party E qp (index_votes_by_timestamp_key_party qp t' k' p')"
    by (simp only: assms(3))
  also have "\<dots> = Inr (t', k', p')"
    using assms(2) by (simp add: parse_valid_keys(2))
  finally show ?thesis by simp
qed

lemma pending_index_key_inj:
  assumes "pending_valid E (k, t)" "pending_valid E (k', t')" "index_pending_by_timestamp_key qp t k = index_pending_by_timestamp_key qp t' k'"
  shows "(k, t) = (k', t')"
proof -
  have "Inr (t, k) = parse_index_pending_by_timestamp_key E qp (index_pending_by_timestamp_key qp t k)"
    using assms(1) by (simp add: parse_valid_keys(4))
  also have "\<dots> = parse_index_pending_by_timestamp_key E qp (index_pending_by_timestamp_key qp t' k')"
    by (simp only: assms(3))
  also have "\<dots> = Inr (t', k')"
    using assms(2) by (simp add: parse_valid_keys(4))
  finally show ?thesis by simp
qed

interpretation votes: key_table "vget Internal" "\<lambda>k. put id Internal k" "delete Internal" "vscan Internal"
  contents_ok "votes_by_key_all qp" "\<lambda>(key, party, t). votes_by_key_party_timestamp E qp key party t"
  "vote_valid E" for E qp
proof unfold_locales
  fix i j :: "string \<times> string \<times> time"
  obtain k p t k' p' t' where ij: "i = (k, p, t)" "j = (k', p', t')" by (cases i; cases j) auto
  assume "vote_valid E i" "vote_valid E j"
    "(\<lambda>(key, party, t). votes_by_key_party_timestamp E qp key party t) i
      = (\<lambda>(key, party, t). votes_by_key_party_timestamp E qp key party t) j"
  then show "i = j"
    unfolding ij prod.case by (rule votes_key_inj)
next
  fix i show "prefix (votes_by_key_all qp) ((\<lambda>(key, party, t). votes_by_key_party_timestamp E qp key party t) i)"
    by (cases i) (simp add: votes_by_key_all_def votes_by_key_party_timestamp_def votes_by_key_party_prefix_def)
qed

interpretation pendings: key_table "vget Internal" "\<lambda>k. put id Internal k" "delete Internal" "vscan Internal"
  contents_ok "pending_by_key_all qp" "\<lambda>(key, t). pending_by_key_timestamp E qp key t"
  "pending_valid E" for E qp
proof unfold_locales
  fix i j :: "string \<times> time"
  obtain k t k' t' where ij: "i = (k, t)" "j = (k', t')" by (cases i; cases j) auto
  assume "pending_valid E i" "pending_valid E j"
    "(\<lambda>(key, t). pending_by_key_timestamp E qp key t) i = (\<lambda>(key, t). pending_by_key_timestamp E qp key t) j"
  then show "i = j"
    unfolding ij prod.case by (rule pending_key_inj)
next
  fix i show "prefix (pending_by_key_all qp) ((\<lambda>(key, t). pending_by_key_timestamp E qp key t) i)"
    by (cases i) (simp add: pending_by_key_all_def pending_by_key_timestamp_def pending_by_key_prefix_def)
qed

interpretation vote_index: key_table "nget Internal" "\<lambda>k. index_put id Internal k" "index_delete Internal"
  "nscan Internal" contents_ok "votes_by_timestamp_all_prefix qp"
  "\<lambda>(key, party, t). index_votes_by_timestamp_key_party qp t key party" "vote_valid E" for E qp
proof unfold_locales
  fix i j :: "string \<times> string \<times> time"
  obtain k p t k' p' t' where ij: "i = (k, p, t)" "j = (k', p', t')" by (cases i; cases j) auto
  assume "vote_valid E i" "vote_valid E j"
    "(\<lambda>(key, party, t). index_votes_by_timestamp_key_party qp t key party) i
      = (\<lambda>(key, party, t). index_votes_by_timestamp_key_party qp t key party) j"
  then show "i = j"
    unfolding ij prod.case by (rule vote_index_key_inj)
next
  fix i show "prefix (votes_by_timestamp_all_prefix qp)
      ((\<lambda>(key, party, t). index_votes_by_timestamp_key_party qp t key party) i)"
    by (cases i) (simp add: votes_by_timestamp_all_prefix_def index_votes_by_timestamp_key_party_def)
qed

interpretation pending_index: key_table "nget Internal" "\<lambda>k. index_put id Internal k" "index_delete Internal"
  "nscan Internal" contents_ok "index_pending_by_timestamp_all_prefix qp"
  "\<lambda>(key, t). index_pending_by_timestamp_key qp t key" "pending_valid E" for E qp
proof unfold_locales
  fix i j :: "string \<times> time"
  obtain k t k' t' where ij: "i = (k, t)" "j = (k', t')" by (cases i; cases j) auto
  assume "pending_valid E i" "pending_valid E j"
    "(\<lambda>(key, t). index_pending_by_timestamp_key qp t key) i = (\<lambda>(key, t). index_pending_by_timestamp_key qp t key) j"
  then show "i = j"
    unfolding ij prod.case by (rule pending_index_key_inj)
next
  fix i show "prefix (index_pending_by_timestamp_all_prefix qp)
      ((\<lambda>(key, t). index_pending_by_timestamp_key qp t key) i)"
    by (cases i) (simp add: index_pending_by_timestamp_all_prefix_def index_pending_by_timestamp_key_def)
qed

text \<open>The index keys are listed by time.\<close>

lemma less_append_same_length:
  "length xs = length ys \<Longrightarrow> xs @ us < ys @ vs \<Longrightarrow> xs \<le> (ys :: 'a :: linorder list)"
  by (induction xs ys rule: list_induct2) auto

lemma timestamp_bytes_le:
  assumes "time_ok t" "time_ok u" "0 \<le> t" "0 \<le> u" "timestamp_bytes t \<le> timestamp_bytes u"
  shows "trunc_secs t \<le> trunc_secs u"
proof -
  have un: "unat (word_of_int (unix_timestamp v) :: i64) = nat (unix_timestamp v)" if "time_ok v" "0 \<le> v" for v
  proof -
    have "0 \<le> unix_timestamp v" using that by (simp add: unix_timestamp_def pos_imp_zdiv_nonneg_iff)
    moreover have "unix_timestamp v < 18446744073709551616" using that by (simp add: time_ok_def)
    ultimately show ?thesis by (simp add: unsigned_of_int take_bit_int_eq_self)
  qed
  have "nat (unix_timestamp t) \<le> nat (unix_timestamp u)"
    using assms to_be_bytes_less_iff [of "word_of_int (unix_timestamp u)" "word_of_int (unix_timestamp t)"]
    by (simp add: timestamp_bytes_def un not_less [symmetric])
  moreover have "0 \<le> unix_timestamp u"
    using assms(4) by (simp add: unix_timestamp_def pos_imp_zdiv_nonneg_iff)
  ultimately have "unix_timestamp t \<le> unix_timestamp u" by linarith
  then show ?thesis by (simp add: trunc_secs_def)
qed

lemma vote_index_order:
  assumes "index_votes_by_timestamp_key_party qp t k p < index_votes_by_timestamp_key_party qp t' k' p'"
    and "stamp_ok t" "stamp_ok t'"
  shows "t \<le> t'"
proof -
  have "timestamp_bytes t \<le> timestamp_bytes t'"
    using assms(1) less_append_same_length [of "timestamp_bytes t" "timestamp_bytes t'"]
    by (simp add: index_votes_by_timestamp_key_party_def append_less_iff del: as_bytes_append)
  with assms(2,3) timestamp_bytes_le show ?thesis by (metis stamp_ok_def)
qed

lemma pending_index_order:
  assumes "index_pending_by_timestamp_key qp t k < index_pending_by_timestamp_key qp t' k'"
    and "stamp_ok t" "stamp_ok t'"
  shows "t \<le> t'"
proof -
  have "timestamp_bytes t \<le> timestamp_bytes t'"
    using assms(1) less_append_same_length [of "timestamp_bytes t" "timestamp_bytes t'"]
    by (simp add: index_pending_by_timestamp_key_def append_less_iff del: as_bytes_append)
  with assms(2,3) timestamp_bytes_le show ?thesis by (metis stamp_ok_def)
qed

end
