(* ===== verification/Chain_State.thy ===== *)
theory Chain_State
  imports Keys
begin

text \<open>
  The parameters and tables of the chain state outside the vote queues, under
  \<open>crates/felidae-state/src/state/\<close>: \<open>util.rs\<close>, \<open>height.rs\<close>, \<open>time.rs\<close>, \<open>chain_id.rs\<close>,
  \<open>app_hash.rs\<close>, \<open>config.rs\<close>, \<open>canonical.rs\<close> and \<open>validator.rs\<close>. A method on \<open>&self\<close> is a function of
  the contents; a method on \<open>&mut self\<close> returns the contents it leaves with its result.
\<close>

section \<open>Heights and times\<close>

text \<open>\<open>format!("{:020}", n)\<close>: the decimal digits of a \<open>u64\<close>, of which there are at most 20.\<close>

fun decimal :: "nat \<Rightarrow> nat \<Rightarrow> string" where
  "decimal 0 n = []"
| "decimal (Suc k) n = char_of (48 + n div 10 ^ k) # decimal k (n mod 10 ^ k)"

definition pad_height :: "height \<Rightarrow> string" where
  "pad_height h = decimal 20 (unat h)"

definition block_height :: "env \<Rightarrow> contents \<Rightarrow> error + height" where
  "block_height E s =
    ebind (get (height_decode E) Internal ''current/block_height'' s)
      (ok_or (NotInState ''block height''))"

definition set_block_height :: "env \<Rightarrow> height \<Rightarrow> contents \<Rightarrow> contents \<times> (error + unit)" where
  "set_block_height E h s = (put (height_encode E) Internal ''current/block_height'' h s, Inr ())"

definition block_time :: "env \<Rightarrow> contents \<Rightarrow> error + time" where
  "block_time E s =
    ebind (get (time_decode E) Internal ''current/block_time'' s) (ok_or (NotInState ''block time''))"

definition record_block_time :: "env \<Rightarrow> time \<Rightarrow> contents \<Rightarrow> contents \<times> (error + unit)" where
  "record_block_time E t s =
    lift_res s (block_height E s) (\<lambda>h.
      (put (time_encode E) Internal (''blocktime/'' @ pad_height h) t s, Inr ()))"

definition set_block_time :: "env \<Rightarrow> time \<Rightarrow> contents \<Rightarrow> contents \<times> (error + unit)" where
  "set_block_time E t s =
    record_block_time E t (put (time_encode E) Internal ''current/block_time'' t s)"

definition time_of_block :: "env \<Rightarrow> height \<Rightarrow> contents \<Rightarrow> error + time" where
  "time_of_block E h s =
    ebind (get (time_decode E) Internal (''blocktime/'' @ pad_height h) s)
      (ok_or (NotInState ''block time''))"

section \<open>Chain id and app hashes\<close>

definition chain_id :: "env \<Rightarrow> contents \<Rightarrow> error + chain_id" where
  "chain_id E s =
    ebind (get (chain_id_decode E) Internal ''parameters/chain_id'' s) (ok_or (NotInState ''chain ID''))"

definition set_chain_id :: "env \<Rightarrow> chain_id \<Rightarrow> contents \<Rightarrow> contents \<times> (error + unit)" where
  "set_chain_id E c s =
    (if ok (chain_id E s) \<noteq> None then (s, Inl ChainIdAlreadySet)
     else (put (chain_id_encode E) Internal ''parameters/chain_id'' c s, Inr ()))"

text \<open>The subtraction wraps in a release build (and panics in a debug one); the conversion to a
  \<open>Height\<close> then fails.\<close>

definition record_app_hash :: "env \<Rightarrow> app_hash \<Rightarrow> contents \<Rightarrow> contents \<times> (error + unit)" where
  "record_app_hash E h s =
    lift_res s (block_height E s) (\<lambda>cur.
    lift_res s (ok_or (ParseError THeight) (height_try_from E (cur - 1))) (\<lambda>height.
      (put (app_hash_encode E) Internal (''apphash/'' @ pad_height height) h s, Inr ())))"

definition previous_app_hash :: "env \<Rightarrow> height \<Rightarrow> contents \<Rightarrow> error + app_hash" where
  "previous_app_hash E h s =
    ebind (get (app_hash_decode E) Internal (''apphash/'' @ pad_height h) s)
      (ok_or (NotInState ''app hash''))"

section \<open>The configuration\<close>

definition config :: "env \<Rightarrow> contents \<Rightarrow> error + config" where
  "config E s =
    ebind (get (config_decode E) Internal ''parameters/config'' s) (ok_or (NotInState ''config''))"

definition set_config :: "env \<Rightarrow> config \<Rightarrow> contents \<Rightarrow> contents \<times> (error + unit)" where
  "set_config E c s = (put (config_encode E) Internal ''parameters/config'' c s, Inr ())"

definition is_all_zeros :: "bytes \<Rightarrow> bool" where
  "is_all_zeros b = list_all (\<lambda>x. x = 0) b"

definition check_voting_config :: "u64 \<Rightarrow> voting_config \<Rightarrow> error + unit" where
  "check_voting_config expected_total vc =
    ebind (check (total vc = expected_total) TotalMismatch) (\<lambda>_.
    ebind (check (quorum vc \<noteq> 0) QuorumZero) (\<lambda>_.
    check (quorum vc \<le> total vc) QuorumAboveTotal))"

fun check_not_zero :: "(nat \<Rightarrow> error) \<Rightarrow> nat \<Rightarrow> bytes list \<Rightarrow> error + unit" where
  "check_not_zero e i [] = Inr ()"
| "check_not_zero e i (b # bs) = (if is_all_zeros b then Inl (e i) else check_not_zero e (Suc i) bs)"

definition check_config :: "env \<Rightarrow> config \<Rightarrow> contents \<Rightarrow> error + unit" where
  "check_config E c s =
    ebind (config E s) (\<lambda>current.
    ebind (check (version current < version c) ConfigVersion) (\<lambda>_.
    ebind (check_voting_config (word_of_nat (length (a_authorized (admins c)))) (a_voting (admins c))) (\<lambda>_.
    ebind (check_voting_config (word_of_nat (length (o_authorized (oracles c)))) (o_voting (oracles c))) (\<lambda>_.
    ebind (check (max_enrolled_subdomains (oracles c) \<noteq> 0) MaxSubdomainsZero) (\<lambda>_.
    ebind (check (max_enrolled_subdomains (oracles current) \<le> max_enrolled_subdomains (oracles c))
      MaxSubdomainsDecrease) (\<lambda>_.
    ebind (check_not_zero AdminAllZero 0 (map admin_identity (a_authorized (admins c)))) (\<lambda>_.
    check_not_zero OracleAllZero 0 (map or_identity (o_authorized (oracles c))))))))))"

section \<open>Canonical state\<close>

definition hash_of_bytes :: "bytes \<Rightarrow> error + bytes" where
  "hash_of_bytes b = (if length b = 32 then Inr b else Inl CanonicalHashLength)"

definition canonical_hash :: "env \<Rightarrow> domain \<Rightarrow> contents \<Rightarrow> error + bytes option" where
  "canonical_hash E subdomain s =
    ebind (get (bytes_decode E) Canonical (pod_display (pod_of_domain subdomain)) s) (\<lambda>v.
    case v of None \<Rightarrow> Inr None | Some b \<Rightarrow> ebind (hash_of_bytes b) (\<lambda>h. Inr (Some h)))"

definition canonical_strict_subdomains_hashes :: "env \<Rightarrow> domain \<Rightarrow> contents \<Rightarrow> (error + domain \<times> bytes) list" where
  "canonical_strict_subdomains_hashes E registered_domain s =
    (let p = pod_display (pod_of_domain registered_domain) @
             (if domain_name registered_domain \<noteq> fqdn_root then ''.'' else [])
     in map (\<lambda>r. ebind r (\<lambda>(key, b).
          ebind (pod_try_from E key) (\<lambda>pod.
          ebind (hash_of_bytes b) (\<lambda>h. Inr (domain_of_pod pod, h)))))
        (prefix_stream (bytes_decode E) Canonical p s))"

definition canonical_subdomains_hashes ::
  "env \<Rightarrow> domain \<Rightarrow> contents \<Rightarrow> error + (error + domain \<times> bytes) list" where
  "canonical_subdomains_hashes E registered_domain s =
    ebind (canonical_hash E registered_domain s) (\<lambda>h.
    Inr ((case h of None \<Rightarrow> [] | Some b \<Rightarrow> [Inr (registered_domain, b)]) @
      canonical_strict_subdomains_hashes E registered_domain s))"

definition canonical_strict_subdomains :: "env \<Rightarrow> domain \<Rightarrow> contents \<Rightarrow> error + domain list" where
  "canonical_strict_subdomains E registered_domain s =
    (let p = pod_display (pod_of_domain registered_domain) @ ''.''
     in ecollect (map (\<lambda>key. ebind (pod_try_from E key) (\<lambda>pod. Inr (domain_of_pod pod)))
          (while_ok (prefix_keys Canonical p s))))"

definition canonical_subdomains :: "env \<Rightarrow> domain \<Rightarrow> contents \<Rightarrow> error + domain list" where
  "canonical_subdomains E registered_domain s =
    ebind (canonical_strict_subdomains E registered_domain s) (\<lambda>subdomains.
    ebind (canonical_hash E registered_domain s) (\<lambda>h.
    Inr (subdomains @ (if h \<noteq> None then [registered_domain] else []))))"

fun update_canonical :: "env \<Rightarrow> domain \<Rightarrow> hash_observed \<Rightarrow> contents \<Rightarrow> contents \<times> (error + unit)" where
  "update_canonical E subdomain (Hash h) s =
     (put (bytes_encode E) Canonical (pod_display (pod_of_domain subdomain)) h s, Inr ())"
| "update_canonical E subdomain NotFound s =
     (delete Canonical (pod_display (pod_of_domain subdomain)) s, Inr ())"

section \<open>Validators\<close>

definition validator_key :: "env \<Rightarrow> public_key \<Rightarrow> string" where
  "validator_key E pk = ''current/validators/'' @ hex_encode E (pk_to_bytes pk)"

definition declare_validator :: "env \<Rightarrow> validator_update \<Rightarrow> contents \<Rightarrow> contents \<times> (error + unit)" where
  "declare_validator E v s =
    lift_res s (get (power_decode E) Internal (validator_key E (vu_pub_key v)) s) (\<lambda>existing.
    if existing \<noteq> None then (s, Inl ValidatorExists)
    else (put (power_encode E) Internal (validator_key E (vu_pub_key v)) (vu_power v) s, Inr ()))"

text \<open>\<open>str::trim_start_matches\<close> with a string pattern removes it as often as it occurs in front.\<close>

function trim_start_str :: "string \<Rightarrow> string \<Rightarrow> string" where
  "trim_start_str p s = (if p \<noteq> [] \<and> prefix p s then trim_start_str p (drop (length p) s) else s)"
  by auto
termination
  by (relation "measure (\<lambda>(p, s). length s)") (auto simp: prefix_def)

declare trim_start_str.simps [simp del]

fun active_validators_loop :: "env \<Rightarrow> (string \<times> power) list \<Rightarrow> error + validator_update list" where
  "active_validators_loop E [] = Inr []"
| "active_validators_loop E ((key, pw) # rest) =
     ebind (ok_or HexDecode (hex_decode E (trim_start_str ''current/validators/'' key))) (\<lambda>raw.
     if 0 < pw then
       ebind (ok_or InvalidEd25519 (ed25519_from_raw E raw)) (\<lambda>pk.
       ebind (active_validators_loop E rest) (\<lambda>us. Inr (Update pk pw # us)))
     else active_validators_loop E rest)"

definition active_validators :: "env \<Rightarrow> contents \<Rightarrow> error + validator_update list" where
  "active_validators E s =
    active_validators_loop E (while_ok (prefix_stream (power_decode E) Internal ''current/validators/'' s))"

definition validator_address :: "env \<Rightarrow> public_key \<Rightarrow> bytes" where
  "validator_address E pk = take 20 (sha256 E (pk_to_bytes pk))"

text \<open>What follows the search is a log message: neither branch writes to the state.\<close>

definition tombstone_validator :: "env \<Rightarrow> bytes \<Rightarrow> contents \<Rightarrow> contents \<times> (error + unit)" where
  "tombstone_validator E bad_address s =
    lift_res s (active_validators E s) (\<lambda>vs.
    case List.find (\<lambda>v. validator_address E (vu_pub_key v) = bad_address) vs of
      Some bad \<Rightarrow> (s, Inr ())
    | None \<Rightarrow> (s, Inr ()))"

definition voting_validators :: "env \<Rightarrow> bytes set \<Rightarrow> validator_update list \<Rightarrow> public_key list" where
  "voting_validators E addresses vs =
    map vu_pub_key (filter (\<lambda>v. validator_address E (vu_pub_key v) \<in> addresses) vs)"

definition mark_validators_voted :: "env \<Rightarrow> bytes set \<Rightarrow> contents \<Rightarrow> contents \<times> (error + unit)" where
  "mark_validators_voted E addresses s =
    lift_res s (active_validators E s) (\<lambda>vs.
    let voted = voting_validators E addresses vs in (s, Inr ()))"

end
