(* ===== verification/Vote_Queue.thy ===== *)
theory Vote_Queue
  imports Chain_State
begin

text \<open>
  The vote queue: \<open>crates/felidae-state/src/state/voting/vote_queue.rs\<close>, its two instances
  (\<open>state/voting.rs\<close>) and the subdomain limit it consults (\<open>state/action/observe.rs\<close>). The queue is
  generic in its keys and values; a \<open>vote_queue\<close> record is one instance: its prefix and voting
  configuration, the conversions the type parameters bring, and the order in which the tally, a
  \<open>HashMap\<close>, happens to be iterated.
\<close>

record ('k, 'v) vote_queue =
  internal_state_prefix :: string
  q_config :: voting_config
  key_to_string :: "'k \<Rightarrow> string"
  key_try_from :: "string \<Rightarrow> error + 'k"
  v_encode :: "'v \<Rightarrow> bytes"
  v_decode :: "bytes \<Rightarrow> error + 'v"
  tally_order :: "('v \<times> nat) list \<Rightarrow> ('v \<times> nat) list"

record ('k, 'v) vote =
  vote_party :: string
  vote_time :: time
  vote_key :: 'k
  vote_value :: 'v

abbreviation qp :: "('k, 'v) vote_queue \<Rightarrow> string" where "qp Q \<equiv> internal_state_prefix Q"

section \<open>Reading a queue\<close>

definition pending_for_key :: "('k, 'v) vote_queue \<Rightarrow> 'k \<Rightarrow> contents \<Rightarrow> error + 'v option" where
  "pending_for_key Q key s =
    ebind (ecollect (map (\<lambda>r. ebind r (\<lambda>(_, v). Inr v))
      (prefix_stream (v_decode Q) Internal (pending_by_key_prefix (qp Q) (key_to_string Q key) True) s)))
    (\<lambda>pending. if length pending > 1 then Inl MultiplePending
      else Inr (case pending of [] \<Rightarrow> None | v # _ \<Rightarrow> Some v))"

definition delimited :: "string \<Rightarrow> char option \<Rightarrow> string" where
  "delimited p delimiter = p @ (case delimiter of None \<Rightarrow> [] | Some c \<Rightarrow> [c])"

definition pending_for_key_prefix ::
  "env \<Rightarrow> ('k, 'v) vote_queue \<Rightarrow> 'k \<Rightarrow> char option \<Rightarrow> contents \<Rightarrow> error + (time \<times> 'k \<times> 'v) list" where
  "pending_for_key_prefix E Q key delimiter s =
    ecollect (map (\<lambda>r. ebind r (\<lambda>(k, v).
        ebind (parse_pending_by_key_timestamp E (qp Q) k) (\<lambda>(k, t).
        ebind (key_try_from Q k) (\<lambda>k. Inr (t, k, v)))))
      (prefix_stream (v_decode Q) Internal
        (pending_by_key_prefix (qp Q) (delimited (key_to_string Q key) delimiter) False) s))"

definition read_votes ::
  "env \<Rightarrow> ('k, 'v) vote_queue \<Rightarrow> string \<Rightarrow> contents \<Rightarrow> error + ('k, 'v) vote list" where
  "read_votes E Q p s =
    ecollect (map (\<lambda>r. ebind r (\<lambda>(k, v).
        ebind (parse_votes_by_key_party_timestamp E (qp Q) k) (\<lambda>(k, party, t).
        ebind (key_try_from Q k) (\<lambda>k.
        Inr \<lparr>vote_party = party, vote_time = t, vote_key = k, vote_value = v\<rparr>))))
      (prefix_stream (v_decode Q) Internal p s))"

definition votes_for_key ::
  "env \<Rightarrow> ('k, 'v) vote_queue \<Rightarrow> 'k \<Rightarrow> contents \<Rightarrow> error + ('k, 'v) vote list" where
  "votes_for_key E Q key = read_votes E Q (votes_by_key_prefix (qp Q) (key_to_string Q key) True)"

definition votes_for_key_prefix ::
  "env \<Rightarrow> ('k, 'v) vote_queue \<Rightarrow> 'k \<Rightarrow> char option \<Rightarrow> contents \<Rightarrow> error + ('k, 'v) vote list" where
  "votes_for_key_prefix E Q key delimiter =
    read_votes E Q (votes_by_key_prefix (qp Q) (delimited (key_to_string Q key) delimiter) False)"

section \<open>Timing out votes\<close>

definition expired :: "time \<Rightarrow> duration \<Rightarrow> time \<Rightarrow> bool" where
  "expired now limit t = (limit \<le> elapsed now t)"

definition old_votes :: "env \<Rightarrow> ('k, 'v) vote_queue \<Rightarrow> time \<Rightarrow> contents \<Rightarrow> error + (time \<times> string \<times> string) list" where
  "old_votes E Q now s =
    try_take_while (\<lambda>(t, _, _). expired now (timeout (q_config Q)) t)
      (map (\<lambda>r. ebind r (\<lambda>(key, ()). parse_index_votes_by_timestamp_key_party E (qp Q) key))
        (index_prefix (unit_decode E) Internal (votes_by_timestamp_all_prefix (qp Q)) s))"

definition delete_vote :: "env \<Rightarrow> string \<Rightarrow> time \<times> string \<times> string \<Rightarrow> contents \<Rightarrow> contents" where
  "delete_vote E p = (\<lambda>(t, key, party) s.
    index_delete Internal (index_votes_by_timestamp_key_party p t key party)
      (delete Internal (votes_by_key_party_timestamp E p key party t) s))"

definition timeout_expired_votes :: "env \<Rightarrow> ('k, 'v) vote_queue \<Rightarrow> contents \<Rightarrow> contents \<times> (error + unit)" where
  "timeout_expired_votes E Q s =
    lift_res s (block_time E s) (\<lambda>now.
    lift_res s (old_votes E Q now s) (\<lambda>old. (fold (delete_vote E (qp Q)) old s, Inr ())))"

section \<open>Promoting pending changes\<close>

definition ripe_pending :: "env \<Rightarrow> ('k, 'v) vote_queue \<Rightarrow> time \<Rightarrow> contents \<Rightarrow> error + (time \<times> string \<times> 'v) list" where
  "ripe_pending E Q now s =
    try_take_while (\<lambda>(t, _, _). expired now (delay (q_config Q)) t)
      (map (\<lambda>r. ebind r (\<lambda>(key, v).
          ebind (parse_index_pending_by_timestamp_key E (qp Q) key) (\<lambda>(t, k). Inr (t, k, v))))
        (index_prefix (v_decode Q) Internal (index_pending_by_timestamp_all_prefix (qp Q)) s))"

definition delete_pending :: "env \<Rightarrow> string \<Rightarrow> string \<Rightarrow> time \<Rightarrow> contents \<Rightarrow> contents" where
  "delete_pending E p key t s =
    index_delete Internal (index_pending_by_timestamp_key p t key)
      (delete Internal (pending_by_key_timestamp E p key t) s)"

fun promote_loop ::
  "env \<Rightarrow> ('k, 'v) vote_queue \<Rightarrow> (time \<times> string \<times> 'v) list \<Rightarrow> contents \<Rightarrow> contents \<times> (error + ('k \<times> 'v) list)" where
  "promote_loop E Q [] s = (s, Inr [])"
| "promote_loop E Q ((t, key, v) # rest) s =
     (let s' = delete_pending E (qp Q) key t s
      in lift_res s' (key_try_from Q key) (\<lambda>k.
         andthen (promote_loop E Q rest s') (\<lambda>promoted s''. (s'', Inr ((k, v) # promoted)))))"

definition promote_pending_changes ::
  "env \<Rightarrow> ('k, 'v) vote_queue \<Rightarrow> contents \<Rightarrow> contents \<times> (error + ('k \<times> 'v) list)" where
  "promote_pending_changes E Q s =
    lift_res s (block_time E s) (\<lambda>now.
    lift_res s (ripe_pending E Q now s) (\<lambda>ripe. promote_loop E Q ripe s))"

section \<open>The two queues\<close>

definition oracle_queue :: "env \<Rightarrow> voting_config \<Rightarrow> (prefix_order_domain, oracle_vote_value) vote_queue" where
  "oracle_queue E cfg =
    \<lparr>internal_state_prefix = ''oracle_voting/'', q_config = cfg, key_to_string = pod_display,
     key_try_from = pod_try_from E, v_encode = ovv_encode E, v_decode = ovv_decode E,
     tally_order = oracle_tally_order E\<rparr>"

definition admin_queue :: "env \<Rightarrow> voting_config \<Rightarrow> (unit, config) vote_queue" where
  "admin_queue E cfg =
    \<lparr>internal_state_prefix = ''admin_voting/'', q_config = cfg, key_to_string = empty_display,
     key_try_from = empty_from_str, v_encode = config_encode E, v_decode = config_decode E,
     tally_order = config_tally_order E\<rparr>"

definition oracle_voting ::
  "env \<Rightarrow> contents \<Rightarrow> error + (prefix_order_domain, oracle_vote_value) vote_queue" where
  "oracle_voting E s = ebind (config E s) (\<lambda>c. Inr (oracle_queue E (o_voting (oracles c))))"

definition admin_voting :: "env \<Rightarrow> contents \<Rightarrow> error + (unit, config) vote_queue" where
  "admin_voting E s = ebind (config E s) (\<lambda>c. Inr (admin_queue E (a_voting (admins c))))"

section \<open>The subdomain limit\<close>

text \<open>\<open>hierarchy().nth(d.depth() - z.depth() - 1)\<close>: the subtraction of \<open>usize\<close> values that would be
  negative wraps in a release build, to an index no name has.\<close>

definition registered_domain :: "fqdn \<Rightarrow> fqdn \<Rightarrow> error + prefix_order_domain" where
  "registered_domain d z =
    (if fqdn_depth d < fqdn_depth z + 1 then Inl ZoneDepths
     else let n = fqdn_depth d - fqdn_depth z - 1; h = fqdn_hierarchy d
          in if n < length h then Inr (pod_of_domain (Domain (h ! n))) else Inl ZoneDepths)"

definition check_subdomain_limit_before_pending_exact ::
  "env \<Rightarrow> prefix_order_domain \<Rightarrow> prefix_order_domain \<Rightarrow> contents \<Rightarrow> error + unit" where
  "check_subdomain_limit_before_pending_exact E subdomain registered s =
    ebind (config E s) (\<lambda>current.
    let max_enrolled = max_enrolled_subdomains (oracles current) in
    ebind (oracle_voting E s) (\<lambda>Q1.
    ebind (pending_for_key Q1 registered s) (\<lambda>registered_pending.
    ebind (oracle_voting E s) (\<lambda>Q2.
    ebind (pending_for_key_prefix E Q2 registered (Some CHR ''.'') s) (\<lambda>subdomain_pending.
    ebind (canonical_subdomains E (domain_of_pod registered) s) (\<lambda>canonical.
    let own = (case registered_pending of None \<Rightarrow> [] | Some _ \<Rightarrow> [registered]);
        all = own @ map (\<lambda>(_, k, _). k) subdomain_pending @ map pod_of_domain canonical;
        already_counted =
          domain_of_pod subdomain \<in> set (map domain_of_pod (own @ map (\<lambda>(_, k, _). k) subdomain_pending) @ canonical)
    in if already_counted then Inr ()
       else check (\<not> unat max_enrolled < card (set all) + 1) SubdomainLimit))))))"

section \<open>Casting a vote\<close>

fun tally_add :: "'v \<Rightarrow> ('v \<times> nat) list \<Rightarrow> ('v \<times> nat) list" where
  "tally_add v [] = [(v, 1)]"
| "tally_add v ((w, n) # t) = (if v = w then (w, n + 1) # t else (w, n) # tally_add v t)"

definition tally :: "'v list \<Rightarrow> ('v \<times> nat) list" where
  "tally vs = fold tally_add vs []"

definition winner :: "('k, 'v) vote_queue \<Rightarrow> 'v list \<Rightarrow> 'v option" where
  "winner Q vs =
    map_option fst (List.find (\<lambda>(v, n). unat (quorum (q_config Q)) \<le> n) (tally_order Q (tally vs)))"

definition votes_of_party :: "('k, 'v) vote_queue \<Rightarrow> string \<Rightarrow> string \<Rightarrow> contents \<Rightarrow> error + string list" where
  "votes_of_party Q key party s =
    ecollect (map (\<lambda>r. ebind r (\<lambda>(k, _). Inr k))
      (prefix_stream (v_decode Q) Internal (votes_by_key_party_prefix (qp Q) key party True) s))"

definition votes_on :: "env \<Rightarrow> ('k, 'v) vote_queue \<Rightarrow> string \<Rightarrow> contents \<Rightarrow> error + (string \<times> time \<times> 'v) list" where
  "votes_on E Q key s =
    ecollect (map (\<lambda>r. ebind r (\<lambda>(k, v).
        ebind (parse_votes_by_key_party_timestamp E (qp Q) k) (\<lambda>(_, party, t). Inr (party, t, v))))
      (prefix_stream (v_decode Q) Internal (votes_by_key_prefix (qp Q) key True) s))"

definition pending_on :: "env \<Rightarrow> ('k, 'v) vote_queue \<Rightarrow> string \<Rightarrow> contents \<Rightarrow> error + (time \<times> 'v) list" where
  "pending_on E Q key s =
    ecollect (map (\<lambda>r. ebind r (\<lambda>(k, v).
        ebind (parse_pending_by_key_timestamp E (qp Q) k) (\<lambda>(_, t). Inr (t, v))))
      (prefix_stream (v_decode Q) Internal (pending_by_key_prefix (qp Q) key True) s))"

text \<open>The vote itself: steps 0 to 2.\<close>

definition record_vote ::
  "env \<Rightarrow> ('k, 'v) vote_queue \<Rightarrow> string \<Rightarrow> string \<Rightarrow> time \<Rightarrow> 'v \<Rightarrow> contents \<Rightarrow> contents \<times> (error + unit)" where
  "record_vote E Q key party t v s =
    lift_res s (votes_of_party Q key party s) (\<lambda>old.
    let s0 = fold (delete Internal) old s;
        s1 = put (v_encode Q) Internal (votes_by_key_party_timestamp E (qp Q) key party t) v s0
    in (index_put (v_encode Q) Internal (index_votes_by_timestamp_key_party (qp Q) t key party) v s1, Inr ()))"

text \<open>The limit check of an oracle vote: go on (\<open>True\<close>), return early (\<open>False\<close>), or fail.\<close>

definition limit_allows :: "env \<Rightarrow> ('k, 'v) vote_queue \<Rightarrow> string \<Rightarrow> 'v \<Rightarrow> contents \<Rightarrow> error + bool" where
  "limit_allows E Q key winning s =
    (if qp Q \<noteq> ''oracle_voting/'' then Inr True
     else case pod_from_str E key of
       None \<Rightarrow> Inr True
     | Some subdomain \<Rightarrow>
         (case ovv_decode E (v_encode Q winning) of
            Inl _ \<Rightarrow> Inr False
          | Inr value \<Rightarrow>
              ebind (registered_domain (pod_name subdomain) (zone_name (ovv_zone value))) (\<lambda>registered.
              case check_subdomain_limit_before_pending_exact E subdomain registered s of
                Inl _ \<Rightarrow> Inr False
              | Inr _ \<Rightarrow> Inr True)))"

definition put_pending :: "env \<Rightarrow> ('k, 'v) vote_queue \<Rightarrow> string \<Rightarrow> time \<Rightarrow> 'v \<Rightarrow> contents \<Rightarrow> contents" where
  "put_pending E Q key t v s =
    index_put (v_encode Q) Internal (index_pending_by_timestamp_key (qp Q) t key) v
      (put (v_encode Q) Internal (pending_by_key_timestamp E (qp Q) key t) v s)"

text \<open>What happens once a value has won: the votes are deleted, an equal pending change keeps its
  timer, another is overwritten if the limit allows.\<close>

definition enqueue ::
  "env \<Rightarrow> ('k, 'v) vote_queue \<Rightarrow> string \<Rightarrow> time \<Rightarrow> (string \<times> time \<times> 'v) list \<Rightarrow> 'v \<Rightarrow> contents
    \<Rightarrow> contents \<times> (error + unit)" where
  "enqueue E Q key now votes winning s =
    (let s1 = fold (delete_vote E (qp Q)) (map (\<lambda>(party, t, _). (t, key, party)) votes) s
     in lift_res s1 (pending_on E Q key s1) (\<lambda>changes.
        if winning \<in> set (map snd changes) then (s1, Inr ())
        else
          let s2 = fold (delete_pending E (qp Q) key) (map fst changes) s1
          in lift_res s2 (limit_allows E Q key winning s2) (\<lambda>go.
             if go then (put_pending E Q key now winning s2, Inr ()) else (s2, Inr ()))))"

definition cast :: "env \<Rightarrow> ('k, 'v) vote_queue \<Rightarrow> ('k, 'v) vote \<Rightarrow> contents \<Rightarrow> contents \<times> (error + unit)" where
  "cast E Q vt s =
    (let key = key_to_string Q (vote_key vt)
     in andthen (record_vote E Q key (vote_party vt) (vote_time vt) (vote_value vt) s) (\<lambda>_ s'.
        lift_res s' (votes_on E Q key s') (\<lambda>votes.
        case winner Q (map (\<lambda>(_, _, v). v) votes) of
          None \<Rightarrow> (s', Inr ())
        | Some winning \<Rightarrow> enqueue E Q key (vote_time vt) votes winning s')))"

end
