(* ===== verification/Queue_State.thy ===== *)
theory Queue_State
  imports Vote_Queue
begin

text \<open>
  What the tables of a vote queue hold: the abstract view of its votes and pending changes, the
  effect of each write the code makes on the four tables, and the invariant of a queue. Writes to
  other keys, and the other queue, leave a queue as it is.
\<close>

section \<open>Rows\<close>

definition vote_row :: "env \<Rightarrow> string \<Rightarrow> contents \<Rightarrow> string \<times> string \<times> time \<Rightarrow> bytes option" where
  "vote_row E p s = votes.row E p s"

definition vote_index_row :: "env \<Rightarrow> string \<Rightarrow> contents \<Rightarrow> string \<times> string \<times> time \<Rightarrow> bytes option" where
  "vote_index_row E p s = vote_index.row p E s"

definition pending_row :: "env \<Rightarrow> string \<Rightarrow> contents \<Rightarrow> string \<times> time \<Rightarrow> bytes option" where
  "pending_row E p s = pendings.row E p s"

definition pending_index_row :: "env \<Rightarrow> string \<Rightarrow> contents \<Rightarrow> string \<times> time \<Rightarrow> bytes option" where
  "pending_index_row E p s = pending_index.row p E s"

definition tables_ok :: "env \<Rightarrow> string \<Rightarrow> contents \<Rightarrow> bool" where
  "tables_ok E p s =
    (contents_ok s \<and> votes.table_ok p E s \<and> vote_index.table_ok p E s \<and> pendings.table_ok p E s \<and>
     pending_index.table_ok p E s)"

named_theorems row_simps \<open>the effect of the queue's writes on its tables\<close>

lemma votes_key_trunc [simp]:
  "votes_by_key_party_timestamp E p k q (trunc_secs t) = votes_by_key_party_timestamp E p k q t"
  "pending_by_key_timestamp E p k (trunc_secs t) = pending_by_key_timestamp E p k t"
  by (simp_all add: votes_by_key_party_timestamp_def pending_by_key_timestamp_def)

lemma index_key_trunc [simp]:
  "index_votes_by_timestamp_key_party p (trunc_secs t) k q = index_votes_by_timestamp_key_party p t k q"
  "index_pending_by_timestamp_key p (trunc_secs t) k = index_pending_by_timestamp_key p t k"
  by (simp_all add: index_votes_by_timestamp_key_party_def index_pending_by_timestamp_key_def
      timestamp_bytes_def)

lemma key_families_apart:
  "\<not> prefix (votes_by_key_all p) (pending_by_key_timestamp E p k t)"
  "\<not> prefix (pending_by_key_all p) (votes_by_key_party_timestamp E p k q t)"
  "\<not> prefix (votes_by_timestamp_all_prefix p) (index_pending_by_timestamp_key p t k)"
  "\<not> prefix (index_pending_by_timestamp_all_prefix p) (index_votes_by_timestamp_key_party p t k q)"
  by (simp_all add: votes_by_key_all_def pending_by_key_all_def pending_by_key_timestamp_def
      pending_by_key_prefix_def votes_by_key_party_timestamp_def votes_by_key_party_prefix_def
      votes_by_timestamp_all_prefix_def index_pending_by_timestamp_all_prefix_def
      index_votes_by_timestamp_key_party_def index_pending_by_timestamp_key_def as_bytes_def
      del: votes_key_trunc)

lemma vote_rows [row_simps]:
  assumes "contents_ok s"
  shows "vote_valid E (k, q, t) \<Longrightarrow>
      vote_row E p (put enc Internal (votes_by_key_party_timestamp E p k q t) v s)
        = (vote_row E p s)((k, q, t) \<mapsto> enc v)"
    and "vote_valid E (k, q, t) \<Longrightarrow>
      vote_row E p (delete Internal (votes_by_key_party_timestamp E p k q t) s)
        = (vote_row E p s)((k, q, t) := None)"
    and "vote_row E p (put enc Internal (pending_by_key_timestamp E p k t) v s) = vote_row E p s"
    and "vote_row E p (delete Internal (pending_by_key_timestamp E p k t) s) = vote_row E p s"
  unfolding vote_row_def put_raw_eq [of enc]
  using votes.row_put [OF assms, of E "(k, q, t)" p "enc v"] votes.row_del [OF assms, of E "(k, q, t)" p]
    votes.row_put_frame [OF assms] votes.row_del_frame [OF assms] key_families_apart
  by auto

lemma vote_index_rows [row_simps]:
  assumes "contents_ok s"
  shows "vote_valid E (k, q, t) \<Longrightarrow>
      vote_index_row E p (index_put enc Internal (index_votes_by_timestamp_key_party p t k q) v s)
        = (vote_index_row E p s)((k, q, t) \<mapsto> enc v)"
    and "vote_valid E (k, q, t) \<Longrightarrow>
      vote_index_row E p (index_delete Internal (index_votes_by_timestamp_key_party p t k q) s)
        = (vote_index_row E p s)((k, q, t) := None)"
    and "vote_index_row E p (index_put enc Internal (index_pending_by_timestamp_key p t k) v s)
        = vote_index_row E p s"
    and "vote_index_row E p (index_delete Internal (index_pending_by_timestamp_key p t k) s)
        = vote_index_row E p s"
  unfolding vote_index_row_def index_put_raw_eq [of enc]
  using vote_index.row_put [OF assms, of E "(k, q, t)" p "enc v"]
    vote_index.row_del [OF assms, of E "(k, q, t)" p]
    vote_index.row_put_frame [OF assms] vote_index.row_del_frame [OF assms] key_families_apart
  by auto

lemma pending_rows [row_simps]:
  assumes "contents_ok s"
  shows "pending_valid E (k, t) \<Longrightarrow>
      pending_row E p (put enc Internal (pending_by_key_timestamp E p k t) v s)
        = (pending_row E p s)((k, t) \<mapsto> enc v)"
    and "pending_valid E (k, t) \<Longrightarrow>
      pending_row E p (delete Internal (pending_by_key_timestamp E p k t) s)
        = (pending_row E p s)((k, t) := None)"
    and "pending_row E p (put enc Internal (votes_by_key_party_timestamp E p k q t) v s) = pending_row E p s"
    and "pending_row E p (delete Internal (votes_by_key_party_timestamp E p k q t) s) = pending_row E p s"
  unfolding pending_row_def put_raw_eq [of enc]
  using pendings.row_put [OF assms, of E "(k, t)" p "enc v"] pendings.row_del [OF assms, of E "(k, t)" p]
    pendings.row_put_frame [OF assms] pendings.row_del_frame [OF assms] key_families_apart
  by auto

lemma pending_index_rows [row_simps]:
  assumes "contents_ok s"
  shows "pending_valid E (k, t) \<Longrightarrow>
      pending_index_row E p (index_put enc Internal (index_pending_by_timestamp_key p t k) v s)
        = (pending_index_row E p s)((k, t) \<mapsto> enc v)"
    and "pending_valid E (k, t) \<Longrightarrow>
      pending_index_row E p (index_delete Internal (index_pending_by_timestamp_key p t k) s)
        = (pending_index_row E p s)((k, t) := None)"
    and "pending_index_row E p (index_put enc Internal (index_votes_by_timestamp_key_party p t k q) v s)
        = pending_index_row E p s"
    and "pending_index_row E p (index_delete Internal (index_votes_by_timestamp_key_party p t k q) s)
        = pending_index_row E p s"
  unfolding pending_index_row_def index_put_raw_eq [of enc]
  using pending_index.row_put [OF assms, of E "(k, t)" p "enc v"]
    pending_index.row_del [OF assms, of E "(k, t)" p]
    pending_index.row_put_frame [OF assms] pending_index.row_del_frame [OF assms] key_families_apart
  by auto

lemma other_view_rows [row_simps]:
  "vote_row E p (index_put enc Internal bk v s) = vote_row E p s"
  "vote_row E p (index_delete Internal bk s) = vote_row E p s"
  "pending_row E p (index_put enc Internal bk v s) = pending_row E p s"
  "pending_row E p (index_delete Internal bk s) = pending_row E p s"
  "vote_index_row E p (put enc Internal sk v s) = vote_index_row E p s"
  "vote_index_row E p (delete Internal sk s) = vote_index_row E p s"
  "pending_index_row E p (put enc Internal sk v s) = pending_index_row E p s"
  "pending_index_row E p (delete Internal sk s) = pending_index_row E p s"
  by (simp_all add: fun_eq_iff vote_row_def vote_index_row_def pending_row_def pending_index_row_def
      votes.row_def vote_index.row_def pendings.row_def pending_index.row_def store_simps)

section \<open>Well-formed tables\<close>

lemma index_tables_frame:
  "votes.table_ok p E (index_put enc Internal bk v s) = votes.table_ok p E s"
  "votes.table_ok p E (index_delete Internal bk s) = votes.table_ok p E s"
  "pendings.table_ok p E (index_put enc Internal bk v s) = pendings.table_ok p E s"
  "pendings.table_ok p E (index_delete Internal bk s) = pendings.table_ok p E s"
  "vote_index.table_ok p E (put enc Internal sk v s) = vote_index.table_ok p E s"
  "vote_index.table_ok p E (delete Internal sk s) = vote_index.table_ok p E s"
  "pending_index.table_ok p E (put enc Internal sk v s) = pending_index.table_ok p E s"
  "pending_index.table_ok p E (delete Internal sk s) = pending_index.table_ok p E s"
  by (simp_all add: votes.table_ok_def vote_index.table_ok_def pendings.table_ok_def
      pending_index.table_ok_def store_simps)

lemma tables_ok_delete [simp]: "tables_ok E p s \<Longrightarrow> tables_ok E p (delete Internal sk s)"
  by (auto simp: tables_ok_def index_tables_frame intro: votes.table_ok_del pendings.table_ok_del)

lemma tables_ok_index_delete [simp]: "tables_ok E p s \<Longrightarrow> tables_ok E p (index_delete Internal bk s)"
  by (auto simp: tables_ok_def index_tables_frame intro: vote_index.table_ok_del pending_index.table_ok_del)

lemma tables_ok_put_vote [simp]:
  assumes "tables_ok E p s" "vote_valid E (k, q, t)"
  shows "tables_ok E p (put enc Internal (votes_by_key_party_timestamp E p k q t) v s)"
    and "tables_ok E p (index_put enc Internal (index_votes_by_timestamp_key_party p t k q) v s)"
  using assms votes.table_ok_put [of s p E "(k, q, t)" "enc v"]
    pendings.table_ok_put_frame [of s p E "votes_by_key_party_timestamp E p k q t" "enc v"]
    vote_index.table_ok_put [of s p E "(k, q, t)" "enc v"]
    pending_index.table_ok_put_frame [of s p E "index_votes_by_timestamp_key_party p t k q" "enc v"]
  by (auto simp: tables_ok_def index_tables_frame put_raw_eq [of enc] index_put_raw_eq [of enc]
      key_families_apart)

lemma tables_ok_put_pending [simp]:
  assumes "tables_ok E p s" "pending_valid E (k, t)"
  shows "tables_ok E p (put enc Internal (pending_by_key_timestamp E p k t) v s)"
    and "tables_ok E p (index_put enc Internal (index_pending_by_timestamp_key p t k) v s)"
  using assms pendings.table_ok_put [of s p E "(k, t)" "enc v"]
    votes.table_ok_put_frame [of s p E "pending_by_key_timestamp E p k t" "enc v"]
    pending_index.table_ok_put [of s p E "(k, t)" "enc v"]
    vote_index.table_ok_put_frame [of s p E "index_pending_by_timestamp_key p t k" "enc v"]
  by (auto simp: tables_ok_def index_tables_frame put_raw_eq [of enc] index_put_raw_eq [of enc]
      key_families_apart)

section \<open>Keys inside and outside a queue\<close>

definition queue_key :: "string \<Rightarrow> string \<Rightarrow> bool" where
  "queue_key p k = prefix (queue_prefix p @ ''/'') k"

definition queue_index_key :: "string \<Rightarrow> bytes \<Rightarrow> bool" where
  "queue_index_key p k = prefix (as_bytes (queue_prefix p @ ''/'')) k"

definition same_queue :: "string \<Rightarrow> contents \<Rightarrow> contents \<Rightarrow> bool" where
  "same_queue p s s' =
    ((\<forall>k. queue_key p k \<longrightarrow> vget Internal s' k = vget Internal s k) \<and>
     (\<forall>k. queue_index_key p k \<longrightarrow> nget Internal s' k = nget Internal s k))"

definition same_outside :: "string \<Rightarrow> contents \<Rightarrow> contents \<Rightarrow> bool" where
  "same_outside p s s' =
    ((\<forall>sub k. sub \<noteq> Internal \<or> \<not> queue_key p k \<longrightarrow> vget sub s' k = vget sub s k) \<and>
     (\<forall>sub k. sub \<noteq> Internal \<or> \<not> queue_index_key p k \<longrightarrow> nget sub s' k = nget sub s k))"

lemma same_outside_refl [simp]: "same_outside p s s"
  by (simp add: same_outside_def)

lemma same_outside_trans: "same_outside p s s' \<Longrightarrow> same_outside p s' s'' \<Longrightarrow> same_outside p s s''"
  by (simp add: same_outside_def)

lemma queue_keys [simp]:
  "queue_key p (votes_by_key_party_timestamp E p k q t)"
  "queue_key p (pending_by_key_timestamp E p k t)"
  "queue_index_key p (index_votes_by_timestamp_key_party p t k q)"
  "queue_index_key p (index_pending_by_timestamp_key p t k)"
  by (simp_all add: queue_key_def queue_index_key_def votes_by_key_party_timestamp_def
      votes_by_key_party_prefix_def pending_by_key_timestamp_def pending_by_key_prefix_def
      index_votes_by_timestamp_key_party_def index_pending_by_timestamp_key_def as_bytes_def)

lemma table_prefixes [simp]:
  "prefix (votes_by_key_all p) k \<Longrightarrow> queue_key p k"
  "prefix (pending_by_key_all p) k \<Longrightarrow> queue_key p k"
  "prefix (votes_by_timestamp_all_prefix p) bk \<Longrightarrow> queue_index_key p bk"
  "prefix (index_pending_by_timestamp_all_prefix p) bk \<Longrightarrow> queue_index_key p bk"
  by (auto simp: queue_key_def queue_index_key_def votes_by_key_all_def pending_by_key_all_def
      votes_by_timestamp_all_prefix_def index_pending_by_timestamp_all_prefix_def as_bytes_def prefix_def)

lemma same_outside_ops:
  assumes "same_outside p s s'"
  shows "queue_key p sk \<Longrightarrow> same_outside p s (put enc Internal sk v s')"
    and "queue_key p sk \<Longrightarrow> same_outside p s (delete Internal sk s')"
    and "queue_index_key p bk \<Longrightarrow> same_outside p s (index_put enc' Internal bk v' s')"
    and "queue_index_key p bk \<Longrightarrow> same_outside p s (index_delete Internal bk s')"
  using assms by (auto simp: same_outside_def store_simps)

lemma same_queue_rows:
  assumes "same_queue p s s'"
  shows "vote_row E p s' = vote_row E p s" "vote_index_row E p s' = vote_index_row E p s"
    "pending_row E p s' = pending_row E p s" "pending_index_row E p s' = pending_index_row E p s"
  using assms
  by (auto simp: same_queue_def fun_eq_iff vote_row_def vote_index_row_def pending_row_def
      pending_index_row_def votes.row_def vote_index.row_def pendings.row_def pending_index.row_def)

lemma same_queue_tables:
  assumes "same_queue p s s'" "contents_ok s'"
  shows "tables_ok E p s \<Longrightarrow> tables_ok E p s'"
  using assms
  by (auto simp: tables_ok_def same_queue_def votes.table_ok_def vote_index.table_ok_def
      pendings.table_ok_def pending_index.table_ok_def)

text \<open>The two queues of the chain do not share keys.\<close>

definition disjoint_queues :: "string \<Rightarrow> string \<Rightarrow> bool" where
  "disjoint_queues p p' =
    ((\<forall>k. queue_key p k \<longrightarrow> \<not> queue_key p' k) \<and> (\<forall>k. queue_index_key p k \<longrightarrow> \<not> queue_index_key p' k))"

lemma same_outside_disjoint: "same_outside p s s' \<Longrightarrow> disjoint_queues p p' \<Longrightarrow> same_queue p' s s'"
  unfolding same_outside_def same_queue_def disjoint_queues_def by blast

lemma prefix_comparable: "prefix xs zs \<Longrightarrow> prefix ys zs \<Longrightarrow> prefix xs ys \<or> prefix ys xs"
  by (meson prefix_same_cases)

lemma disjoint_queuesI:
  assumes "\<not> prefix (queue_prefix p @ ''/'') (queue_prefix p' @ ''/'')"
    "\<not> prefix (queue_prefix p' @ ''/'') (queue_prefix p @ ''/'')"
  shows "disjoint_queues p p'"
proof -
  have "prefix (as_bytes a) (as_bytes b) \<longleftrightarrow> prefix a b" for a b
    by (simp add: prefix_def as_bytes_def) (metis as_bytes_append as_bytes_def as_bytes_inj append_take_drop_id map_append prefix_def prefix_map_rightE)
  then show ?thesis
    using assms prefix_comparable unfolding disjoint_queues_def queue_key_def queue_index_key_def by blast
qed

section \<open>The invariant of a queue\<close>

text \<open>A value is exact if it is stored without loss. Every stored value is exact; a new value is
  stored as the exact value it decodes to.\<close>

definition exact :: "('k, 'v) vote_queue \<Rightarrow> 'v \<Rightarrow> bool" where
  "exact Q v = (v_decode Q (v_encode Q v) = Inr v)"

definition good_bytes :: "('k, 'v) vote_queue \<Rightarrow> bytes \<Rightarrow> bool" where
  "good_bytes Q b = (\<exists>v. v_decode Q b = Inr v \<and> exact Q v)"

definition key_good :: "('k, 'v) vote_queue \<Rightarrow> string \<Rightarrow> bool" where
  "key_good Q k = (part_ok k \<and> (\<exists>x. key_try_from Q k = Inr x \<and> key_to_string Q x = k))"

definition votes_ok :: "env \<Rightarrow> ('k, 'v) vote_queue \<Rightarrow> contents \<Rightarrow> bool" where
  "votes_ok E Q s =
    ((\<forall>k q t b. vote_row E (qp Q) s (k, q, t) = Some b \<longrightarrow>
        key_good Q k \<and> good_bytes Q b \<and> vote_index_row E (qp Q) s (k, q, t) \<noteq> None) \<and>
     (\<forall>i b. vote_index_row E (qp Q) s i = Some b \<longrightarrow> unit_decode E b = Inr ()) \<and>
     (\<forall>k q t t'. vote_row E (qp Q) s (k, q, t) \<noteq> None \<and> vote_row E (qp Q) s (k, q, t') \<noteq> None \<longrightarrow> t = t'))"

definition pending_ok :: "env \<Rightarrow> ('k, 'v) vote_queue \<Rightarrow> contents \<Rightarrow> bool" where
  "pending_ok E Q s =
    ((\<forall>k t b. pending_row E (qp Q) s (k, t) = Some b \<longrightarrow> key_good Q k \<and> good_bytes Q b) \<and>
     pending_index_row E (qp Q) s = pending_row E (qp Q) s \<and>
     (\<forall>k t t'. pending_row E (qp Q) s (k, t) \<noteq> None \<and> pending_row E (qp Q) s (k, t') \<noteq> None \<longrightarrow> t = t'))"

definition queue_ok :: "env \<Rightarrow> ('k, 'v) vote_queue \<Rightarrow> contents \<Rightarrow> bool" where
  "queue_ok E Q s = (env_ok E \<and> tables_ok E (qp Q) s \<and> votes_ok E Q s \<and> pending_ok E Q s)"

text \<open>The abstract state of a queue: the votes by key, party and time, the pending changes by key and
  time.\<close>

definition votes_view ::
  "env \<Rightarrow> ('k, 'v) vote_queue \<Rightarrow> contents \<Rightarrow> string \<times> string \<times> time \<Rightarrow> 'v option" where
  "votes_view E Q s i = (case vote_row E (qp Q) s i of None \<Rightarrow> None | Some b \<Rightarrow> ok (v_decode Q b))"

definition pending_view :: "env \<Rightarrow> ('k, 'v) vote_queue \<Rightarrow> contents \<Rightarrow> string \<times> time \<Rightarrow> 'v option" where
  "pending_view E Q s i = (case pending_row E (qp Q) s i of None \<Rightarrow> None | Some b \<Rightarrow> ok (v_decode Q b))"

lemma queue_okD:
  assumes "queue_ok E Q s"
  shows "env_ok E" "tables_ok E (qp Q) s" "contents_ok s" "votes_ok E Q s" "pending_ok E Q s"
  using assms by (auto simp: queue_ok_def tables_ok_def)

lemma row_valid:
  "vote_row E p s i \<noteq> None \<Longrightarrow> vote_valid E i" "vote_index_row E p s i \<noteq> None \<Longrightarrow> vote_valid E i"
  "pending_row E p s j \<noteq> None \<Longrightarrow> pending_valid E j" "pending_index_row E p s j \<noteq> None \<Longrightarrow> pending_valid E j"
  by (auto simp: vote_row_def votes.row_def vote_index_row_def vote_index.row_def pending_row_def
      pendings.row_def pending_index_row_def pending_index.row_def split: if_splits)

lemma row_valid_iff:
  "(vote_valid E i \<and> P \<and> vote_row E p s i \<noteq> None) = (P \<and> vote_row E p s i \<noteq> None)"
  "(vote_valid E i \<and> P \<and> vote_index_row E p s i \<noteq> None) = (P \<and> vote_index_row E p s i \<noteq> None)"
  "(pending_valid E j \<and> P \<and> pending_row E p s j \<noteq> None) = (P \<and> pending_row E p s j \<noteq> None)"
  "(pending_valid E j \<and> P \<and> pending_index_row E p s j \<noteq> None) = (P \<and> pending_index_row E p s j \<noteq> None)"
  using row_valid by blast+

lemma queue_ok_cong:
  assumes "same_queue (qp Q) s s'" "contents_ok s'" "queue_ok E Q s"
  shows "queue_ok E Q s'" "votes_view E Q s' = votes_view E Q s" "pending_view E Q s' = pending_view E Q s"
  using assms same_queue_tables [OF assms(1,2), of E]
  by (simp_all add: queue_ok_def votes_ok_def pending_ok_def same_queue_rows fun_eq_iff votes_view_def
      pending_view_def)

lemma votes_okD:
  assumes "votes_ok E Q s"
  shows "vote_row E (qp Q) s (k, q, t) = Some b \<Longrightarrow> key_good Q k"
    and "vote_row E (qp Q) s (k, q, t) = Some b \<Longrightarrow> good_bytes Q b"
    and "vote_row E (qp Q) s (k, q, t) \<noteq> None \<Longrightarrow> vote_index_row E (qp Q) s (k, q, t) \<noteq> None"
    and "vote_index_row E (qp Q) s i = Some b \<Longrightarrow> unit_decode E b = Inr ()"
    and "\<lbrakk>vote_row E (qp Q) s (k, q, t) \<noteq> None; vote_row E (qp Q) s (k, q, t') \<noteq> None\<rbrakk> \<Longrightarrow> t = t'"
  using assms unfolding votes_ok_def by (fast, fast, fast, fast, fast)

lemma pending_okD:
  assumes "pending_ok E Q s"
  shows "pending_row E (qp Q) s (k, t) = Some b \<Longrightarrow> key_good Q k"
    and "pending_row E (qp Q) s (k, t) = Some b \<Longrightarrow> good_bytes Q b"
    and "pending_index_row E (qp Q) s = pending_row E (qp Q) s"
    and "\<lbrakk>pending_row E (qp Q) s (k, t) \<noteq> None; pending_row E (qp Q) s (k, t') \<noteq> None\<rbrakk> \<Longrightarrow> t = t'"
  using assms unfolding pending_ok_def by (fast, fast, fast, fast)

lemma vote_row_decodes:
  assumes "queue_ok E Q s" "vote_row E (qp Q) s (k, q, t) = Some b"
  obtains v where "v_decode Q b = Inr v" "exact Q v" "votes_view E Q s (k, q, t) = Some v" "key_good Q k"
proof -
  have "key_good Q k" "good_bytes Q b"
    using assms(2) votes_okD(1,2) [OF queue_okD(4) [OF assms(1)]] by blast+
  with assms(2) that show thesis by (auto simp: good_bytes_def votes_view_def)
qed

lemma pending_row_decodes:
  assumes "queue_ok E Q s" "pending_row E (qp Q) s (k, t) = Some b"
  obtains v where "v_decode Q b = Inr v" "exact Q v" "pending_view E Q s (k, t) = Some v" "key_good Q k"
proof -
  have "key_good Q k" "good_bytes Q b"
    using assms(2) pending_okD(1,2) [OF queue_okD(5) [OF assms(1)]] by blast+
  with assms(2) that show thesis by (auto simp: good_bytes_def pending_view_def)
qed

lemma votes_view_Some:
  assumes "queue_ok E Q s"
  shows "(votes_view E Q s i \<noteq> None) = (vote_row E (qp Q) s i \<noteq> None)"
  using assms by (cases i; cases "vote_row E (qp Q) s i")
    (auto elim: vote_row_decodes simp: votes_view_def)

lemma pending_view_Some:
  assumes "queue_ok E Q s"
  shows "(pending_view E Q s i \<noteq> None) = (pending_row E (qp Q) s i \<noteq> None)"
  using assms by (cases i; cases "pending_row E (qp Q) s i")
    (auto elim: pending_row_decodes simp: pending_view_def)

lemma view_parts:
  assumes "queue_ok E Q s"
  shows "votes_view E Q s (k, q, t) = Some v \<Longrightarrow> part_ok k \<and> part_ok q \<and> stamp_ok t"
    and "pending_view E Q s (k, t) = Some v' \<Longrightarrow> part_ok k \<and> stamp_ok t"
  using row_valid(1) [of E "qp Q" s "(k, q, t)"] votes_view_Some [OF assms, of "(k, q, t)"]
    row_valid(3) [of E "qp Q" s "(k, t)"] pending_view_Some [OF assms, of "(k, t)"]
  by auto

end
