(* ===== verification/Queue_Reads.thy ===== *)
theory Queue_Reads
  imports Queue_State
begin

text \<open>
  What the reads of a vote queue return in a well-formed state, over the abstract view: each list has
  exactly the votes or pending changes asked for, once each, and none of the reads fails.
\<close>

section \<open>Which keys a prefix selects\<close>

lemma prefix_append_sep_iff:
  assumes "c \<notin> set k" "c \<notin> set k'"
  shows "prefix (k @ [c]) (k' @ c # r) = (k = k')"
  using assms prefix_append_not_in [of k c k' r] by auto

lemma votes_prefix_iff:
  assumes "part_ok k" "part_ok k'"
  shows "prefix (votes_by_key_prefix p k True) (votes_by_key_party_timestamp E p k' q t) = (k = k')"
  using assms prefix_append_sep_iff [of "CHR ''/''" k k' "q @ ''/'' @ time_display E (trunc_secs t)"]
  by (simp add: votes_by_key_prefix_def votes_by_key_party_timestamp_def votes_by_key_party_prefix_def
      part_ok_def)

lemma votes_party_prefix_iff:
  assumes "part_ok k" "part_ok k'" "part_ok q" "part_ok q'"
  shows "prefix (votes_by_key_party_prefix p k q True) (votes_by_key_party_timestamp E p k' q' t)
    = (k = k' \<and> q = q')"
proof -
  let ?ts = "time_display E (trunc_secs t)"
  have "prefix (k @ CHR ''/'' # q @ ''/'') (k' @ CHR ''/'' # q' @ CHR ''/'' # ?ts) = (k = k' \<and> q = q')"
  proof
    assume pre: "prefix (k @ CHR ''/'' # q @ ''/'') (k' @ CHR ''/'' # q' @ CHR ''/'' # ?ts)"
    then have "prefix (k @ ''/'') (k' @ CHR ''/'' # q' @ CHR ''/'' # ?ts)"
      by (auto simp: prefix_def)
    then have "k = k'" using assms prefix_append_sep_iff [of "CHR ''/''" k k'] by (simp add: part_ok_def)
    with pre have "prefix (q @ ''/'') (q' @ CHR ''/'' # ?ts)" by simp
    with \<open>k = k'\<close> show "k = k' \<and> q = q'"
      using assms prefix_append_sep_iff [of "CHR ''/''" q q'] by (simp add: part_ok_def)
  qed auto
  then show ?thesis by (simp add: votes_by_key_party_timestamp_def votes_by_key_party_prefix_def)
qed

lemma pending_prefix_iff:
  assumes "part_ok k" "part_ok k'"
  shows "prefix (pending_by_key_prefix p k True) (pending_by_key_timestamp E p k' t) = (k = k')"
  using assms prefix_append_sep_iff [of "CHR ''/''" k k' "time_display E (trunc_secs t)"]
  by (simp add: pending_by_key_timestamp_def pending_by_key_prefix_def part_ok_def)

lemma prefix_sep_iff: "c \<notin> set k \<Longrightarrow> prefix k (k' @ c # r) = prefix k k'"
  using prefix_no_sep [of c k k' r] prefix_prefix by blast

lemma inexact_prefix_iff:
  assumes "part_ok k"
  shows "prefix (pending_by_key_prefix p k False) (pending_by_key_timestamp E p k' t) = prefix k k'"
    and "prefix (votes_by_key_prefix p k False) (votes_by_key_party_timestamp E p k' q t) = prefix k k'"
  using assms
  by (simp_all add: pending_by_key_timestamp_def pending_by_key_prefix_def votes_by_key_prefix_def
      votes_by_key_party_timestamp_def votes_by_key_party_prefix_def part_ok_def prefix_sep_iff)

lemma table_of_prefix:
  "prefix (votes_by_key_all p) (votes_by_key_prefix p k ex)"
  "prefix (votes_by_key_all p) (votes_by_key_party_prefix p k q ex)"
  "prefix (pending_by_key_all p) (pending_by_key_prefix p k ex)"
  by (simp_all add: votes_by_key_all_def pending_by_key_all_def votes_by_key_prefix_def
      votes_by_key_party_prefix_def pending_by_key_prefix_def)

section \<open>The four scans\<close>

lemma vote_stream:
  assumes "queue_ok E Q s" "prefix (votes_by_key_all (qp Q)) pr"
  obtains ix where
    "prefix_stream (v_decode Q) Internal pr s =
      map (\<lambda>(k, q, t). Inr (votes_by_key_party_timestamp E (qp Q) k q t, the (votes_view E Q s (k, q, t)))) ix"
    and "distinct ix"
    and "set ix = {(k, q, t). prefix pr (votes_by_key_party_timestamp E (qp Q) k q t) \<and>
                     votes_view E Q s (k, q, t) \<noteq> None}"
proof -
  note q = queue_okD [OF assms(1)]
  have tab: "votes.table_ok (qp Q) E s" using q(2) by (simp add: tables_ok_def)
  obtain ix where scan: "vscan Internal pr s =
      map (\<lambda>i. (case i of (k, q, t) \<Rightarrow> votes_by_key_party_timestamp E (qp Q) k q t,
                the (vote_row E (qp Q) s i))) ix"
    and dist: "distinct ix" and set: "set ix = {i. vote_valid E i \<and>
      prefix pr (case i of (k, q, t) \<Rightarrow> votes_by_key_party_timestamp E (qp Q) k q t) \<and>
      vote_row E (qp Q) s i \<noteq> None}"
    unfolding vote_row_def by (rule votes.scan_rows [OF q(3) tab assms(2)])
  have dec: "v_decode Q (the (vote_row E (qp Q) s i)) = Inr (the (votes_view E Q s i))" if "i \<in> set ix" for i
  proof -
    from that obtain b where b: "vote_row E (qp Q) s i = Some b" unfolding set by auto
    then show ?thesis by (cases i) (auto elim: vote_row_decodes [OF assms(1)])
  qed
  show thesis
  proof (rule that)
    show "prefix_stream (v_decode Q) Internal pr s =
      map (\<lambda>(k, q, t). Inr (votes_by_key_party_timestamp E (qp Q) k q t, the (votes_view E Q s (k, q, t)))) ix"
      unfolding prefix_stream_eq scan using dec by (auto split: prod.splits)
    show "set ix = {(k, q, t). prefix pr (votes_by_key_party_timestamp E (qp Q) k q t) \<and>
                     votes_view E Q s (k, q, t) \<noteq> None}"
      unfolding set row_valid_iff votes_view_Some [OF assms(1)] by (rule Collect_cong) (simp only: split_def prod.collapse)
  qed (fact dist)
qed

lemma pending_stream:
  assumes "queue_ok E Q s" "prefix (pending_by_key_all (qp Q)) pr"
  obtains ix where
    "prefix_stream (v_decode Q) Internal pr s =
      map (\<lambda>(k, t). Inr (pending_by_key_timestamp E (qp Q) k t, the (pending_view E Q s (k, t)))) ix"
    and "distinct ix"
    and "set ix = {(k, t). prefix pr (pending_by_key_timestamp E (qp Q) k t) \<and>
                     pending_view E Q s (k, t) \<noteq> None}"
proof -
  note q = queue_okD [OF assms(1)]
  have tab: "pendings.table_ok (qp Q) E s" using q(2) by (simp add: tables_ok_def)
  obtain ix where scan: "vscan Internal pr s =
      map (\<lambda>i. (case i of (k, t) \<Rightarrow> pending_by_key_timestamp E (qp Q) k t,
                the (pending_row E (qp Q) s i))) ix"
    and dist: "distinct ix" and set: "set ix = {i. pending_valid E i \<and>
      prefix pr (case i of (k, t) \<Rightarrow> pending_by_key_timestamp E (qp Q) k t) \<and>
      pending_row E (qp Q) s i \<noteq> None}"
    unfolding pending_row_def by (rule pendings.scan_rows [OF q(3) tab assms(2)])
  have dec: "v_decode Q (the (pending_row E (qp Q) s i)) = Inr (the (pending_view E Q s i))" if "i \<in> set ix" for i
  proof -
    from that obtain b where b: "pending_row E (qp Q) s i = Some b" unfolding set by auto
    then show ?thesis by (cases i) (auto elim: pending_row_decodes [OF assms(1)])
  qed
  show thesis
  proof (rule that)
    show "prefix_stream (v_decode Q) Internal pr s =
      map (\<lambda>(k, t). Inr (pending_by_key_timestamp E (qp Q) k t, the (pending_view E Q s (k, t)))) ix"
      unfolding prefix_stream_eq scan using dec by (auto split: prod.splits)
    show "set ix = {(k, t). prefix pr (pending_by_key_timestamp E (qp Q) k t) \<and>
                     pending_view E Q s (k, t) \<noteq> None}"
      unfolding set row_valid_iff pending_view_Some [OF assms(1)] by (rule Collect_cong) (simp only: split_def prod.collapse)
  qed (fact dist)
qed

lemma vote_index_stream:
  assumes "queue_ok E Q s"
  obtains ix where
    "index_prefix (unit_decode E) Internal (votes_by_timestamp_all_prefix (qp Q)) s =
      map (\<lambda>(k, q, t). Inr (index_votes_by_timestamp_key_party (qp Q) t k q, ())) ix"
    and "distinct ix" and "set ix = {i. vote_index_row E (qp Q) s i \<noteq> None}"
    and "sorted_wrt (\<lambda>(k, q, t) (k', q', t'). t \<le> t') ix"
proof -
  note q = queue_okD [OF assms]
  let ?key = "\<lambda>i. case i of (k, q, t) \<Rightarrow> index_votes_by_timestamp_key_party (qp Q) t k q"
  have tab: "vote_index.table_ok (qp Q) E s" using q(2) by (simp add: tables_ok_def)
  obtain ix where scan: "nscan Internal (votes_by_timestamp_all_prefix (qp Q)) s =
      map (\<lambda>i. (?key i, the (vote_index_row E (qp Q) s i))) ix"
    and dist: "distinct ix" and set: "set ix = {i. vote_valid E i \<and>
      prefix (votes_by_timestamp_all_prefix (qp Q)) (?key i) \<and> vote_index_row E (qp Q) s i \<noteq> None}"
    and sorted: "sorted_wrt (\<lambda>i j. ?key i < ?key j) ix"
    unfolding vote_index_row_def
    by (rule vote_index.scan_rows [OF q(3) tab prefix_order.refl])
  have dec: "unit_decode E (the (vote_index_row E (qp Q) s i)) = Inr ()" if "i \<in> set ix" for i
    using that votes_okD(4) [OF q(4), of i] unfolding set by auto
  have valid: "vote_valid E i" if "i \<in> set ix" for i using that unfolding set by simp
  show thesis
  proof (rule that)
    show "index_prefix (unit_decode E) Internal (votes_by_timestamp_all_prefix (qp Q)) s =
      map (\<lambda>(k, q, t). Inr (index_votes_by_timestamp_key_party (qp Q) t k q, ())) ix"
      unfolding index_prefix_eq scan using dec by (auto split: prod.splits)
    have "prefix (votes_by_timestamp_all_prefix (qp Q)) (?key i)" for i
      by (cases i) (simp add: votes_by_timestamp_all_prefix_def index_votes_by_timestamp_key_party_def)
    then show "set ix = {i. vote_index_row E (qp Q) s i \<noteq> None}"
      unfolding set row_valid_iff by (simp del: not_None_eq)
    show "sorted_wrt (\<lambda>(k, q, t) (k', q', t'). t \<le> t') ix"
      by (rule sorted_wrt_mono_rel [OF _ sorted])
        (auto dest!: valid intro: vote_index_order split: prod.splits)
  qed (fact dist)
qed

lemma pending_index_stream:
  assumes "queue_ok E Q s"
  obtains ix where
    "index_prefix (v_decode Q) Internal (index_pending_by_timestamp_all_prefix (qp Q)) s =
      map (\<lambda>(k, t). Inr (index_pending_by_timestamp_key (qp Q) t k, the (pending_view E Q s (k, t)))) ix"
    and "distinct ix" and "set ix = {i. pending_view E Q s i \<noteq> None}"
    and "sorted_wrt (\<lambda>(k, t) (k', t'). t \<le> t') ix"
proof -
  note q = queue_okD [OF assms]
  let ?key = "\<lambda>i. case i of (k, t) \<Rightarrow> index_pending_by_timestamp_key (qp Q) t k"
  have tab: "pending_index.table_ok (qp Q) E s" using q(2) by (simp add: tables_ok_def)
  obtain ix where scan: "nscan Internal (index_pending_by_timestamp_all_prefix (qp Q)) s =
      map (\<lambda>i. (?key i, the (pending_index_row E (qp Q) s i))) ix"
    and dist: "distinct ix" and set: "set ix = {i. pending_valid E i \<and>
      prefix (index_pending_by_timestamp_all_prefix (qp Q)) (?key i) \<and> pending_index_row E (qp Q) s i \<noteq> None}"
    and sorted: "sorted_wrt (\<lambda>i j. ?key i < ?key j) ix"
    unfolding pending_index_row_def
    by (rule pending_index.scan_rows [OF q(3) tab prefix_order.refl])
  note same = pending_okD(3) [OF q(5)]
  have dec: "v_decode Q (the (pending_index_row E (qp Q) s i)) = Inr (the (pending_view E Q s i))"
    if "i \<in> set ix" for i
  proof -
    from that obtain b where b: "pending_row E (qp Q) s i = Some b" unfolding set same by auto
    then show ?thesis unfolding same by (cases i) (auto elim: pending_row_decodes [OF assms])
  qed
  have valid: "pending_valid E i" if "i \<in> set ix" for i using that unfolding set by simp
  show thesis
  proof (rule that)
    show "index_prefix (v_decode Q) Internal (index_pending_by_timestamp_all_prefix (qp Q)) s =
      map (\<lambda>(k, t). Inr (index_pending_by_timestamp_key (qp Q) t k, the (pending_view E Q s (k, t)))) ix"
      unfolding index_prefix_eq scan using dec by (auto split: prod.splits)
    have "prefix (index_pending_by_timestamp_all_prefix (qp Q)) (?key i)" for i
      by (cases i) (simp add: index_pending_by_timestamp_all_prefix_def index_pending_by_timestamp_key_def)
    then show "set ix = {i. pending_view E Q s i \<noteq> None}"
      unfolding set row_valid_iff pending_view_Some [OF assms] by (simp add: same del: not_None_eq)
    show "sorted_wrt (\<lambda>(k, t) (k', t'). t \<le> t') ix"
      by (rule sorted_wrt_mono_rel [OF _ sorted])
        (auto dest!: valid intro: pending_index_order split: prod.splits)
  qed (fact dist)
qed

section \<open>The lists the code collects\<close>

lemma takeWhile_eq_filter: "sorted_wrt (\<lambda>x y. P y \<longrightarrow> P x) xs \<Longrightarrow> takeWhile P xs = filter P xs"
proof (induction xs)
  case (Cons x xs)
  then show ?case by (cases "P x") (auto simp: filter_empty_conv)
qed simp

lemma expired_antimono: "t \<le> t' \<Longrightarrow> expired now limit t' \<Longrightarrow> expired now limit t"
  using elapsed_antimono [of t t' now] by (simp add: expired_def)

lemma old_votes_eq:
  assumes "queue_ok E Q s"
  obtains old where "old_votes E Q now s = Inr old" "distinct old"
    "set old = {(t, k, q). vote_index_row E (qp Q) s (k, q, t) \<noteq> None \<and> expired now (timeout (q_config Q)) t}"
proof -
  obtain ix where ix: "index_prefix (unit_decode E) Internal (votes_by_timestamp_all_prefix (qp Q)) s =
      map (\<lambda>(k, q, t). Inr (index_votes_by_timestamp_key_party (qp Q) t k q, ())) ix" "distinct ix"
    "set ix = {i. vote_index_row E (qp Q) s i \<noteq> None}"
    "sorted_wrt (\<lambda>(k, q, t) (k', q', t'). t \<le> t') ix"
    by (rule vote_index_stream [OF assms])
  let ?P = "\<lambda>(t, _, _). expired now (timeout (q_config Q)) t" and ?f = "\<lambda>(k, q, t). (t, k, q)"
  have "parse_index_votes_by_timestamp_key_party E (qp Q) (index_votes_by_timestamp_key_party (qp Q) t k q)
      = Inr (t, k, q)" if "(k, q, t) \<in> set ix" for k q t
    using that row_valid(2) [of E "qp Q" s "(k, q, t)"] unfolding ix(3) by (auto intro: parse_valid_keys)
  then have "old_votes E Q now s = Inr (takeWhile ?P (map ?f ix))"
    unfolding old_votes_def ix(1) map_map by (intro try_take_while_cong_Inr) auto
  moreover have "sorted_wrt (\<lambda>x y. ?P y \<longrightarrow> ?P x) (map ?f ix)"
    unfolding sorted_wrt_map by (rule sorted_wrt_mono_rel [OF _ ix(4)]) (auto intro: expired_antimono)
  ultimately have old: "old_votes E Q now s = Inr (filter ?P (map ?f ix))"
    by (simp add: takeWhile_eq_filter)
  have "(t, k, q) \<in> ?f ` S \<longleftrightarrow> (k, q, t) \<in> S" for t k q and S :: "(string \<times> string \<times> time) set"
    by force
  then show thesis
    by (intro that [OF old]) (use ix(2,3) in \<open>auto simp: distinct_map inj_on_def simp del: not_None_eq\<close>)
qed

lemma ripe_pending_eq:
  assumes "queue_ok E Q s"
  obtains ripe where
    "ripe_pending E Q now s = Inr (map (\<lambda>(k, t). (t, k, the (pending_view E Q s (k, t)))) ripe)"
    "distinct ripe"
    "set ripe = {(k, t). pending_view E Q s (k, t) \<noteq> None \<and> expired now (delay (q_config Q)) t}"
    "sorted_wrt (\<lambda>(k, t) (k', t'). t \<le> t') ripe"
proof -
  obtain ix where ix: "index_prefix (v_decode Q) Internal (index_pending_by_timestamp_all_prefix (qp Q)) s =
      map (\<lambda>(k, t). Inr (index_pending_by_timestamp_key (qp Q) t k, the (pending_view E Q s (k, t)))) ix"
    "distinct ix" "set ix = {i. pending_view E Q s i \<noteq> None}" "sorted_wrt (\<lambda>(k, t) (k', t'). t \<le> t') ix"
    by (rule pending_index_stream [OF assms])
  let ?P = "\<lambda>(t, _, _). expired now (delay (q_config Q)) t"
  let ?f = "\<lambda>(k, t). (t, k, the (pending_view E Q s (k, t)))"
  have "parse_index_pending_by_timestamp_key E (qp Q) (index_pending_by_timestamp_key (qp Q) t k)
      = Inr (t, k)" if "(k, t) \<in> set ix" for k t
    using that row_valid(3) [of E "qp Q" s "(k, t)"] pending_view_Some [OF assms, of "(k, t)"]
    unfolding ix(3) by (auto intro: parse_valid_keys)
  then have "ripe_pending E Q now s = Inr (takeWhile ?P (map ?f ix))"
    unfolding ripe_pending_def ix(1) map_map by (intro try_take_while_cong_Inr) auto
  moreover have "sorted_wrt (\<lambda>x y. ?P y \<longrightarrow> ?P x) (map ?f ix)"
    unfolding sorted_wrt_map by (rule sorted_wrt_mono_rel [OF _ ix(4)]) (auto intro: expired_antimono)
  ultimately have ripe: "ripe_pending E Q now s = Inr (map ?f (filter (?P \<circ> ?f) ix))"
    by (simp add: takeWhile_eq_filter filter_map)
  show thesis
    by (rule that [OF ripe])
      (use ix(2,3,4) in \<open>auto simp: sorted_wrt_filter simp del: not_None_eq\<close>)
qed

text \<open>Everything stored under one key, or one key and party.\<close>

lemma votes_on_eq:
  assumes "queue_ok E Q s" "part_ok key"
  obtains qs where
    "votes_on E Q key s = Inr (map (\<lambda>(q, t). (q, t, the (votes_view E Q s (key, q, t)))) qs)"
    "distinct qs" "set qs = {(q, t). votes_view E Q s (key, q, t) \<noteq> None}"
proof -
  obtain ix where ix: "prefix_stream (v_decode Q) Internal (votes_by_key_prefix (qp Q) key True) s =
      map (\<lambda>(k, q, t). Inr (votes_by_key_party_timestamp E (qp Q) k q t, the (votes_view E Q s (k, q, t)))) ix"
    "distinct ix"
    "set ix = {(k, q, t). prefix (votes_by_key_prefix (qp Q) key True)
       (votes_by_key_party_timestamp E (qp Q) k q t) \<and> votes_view E Q s (k, q, t) \<noteq> None}"
    by (rule vote_stream [OF assms(1) table_of_prefix(1)])
  have valid: "vote_valid E i" if "votes_view E Q s i \<noteq> None" for i
    using that row_valid(1) votes_view_Some [OF assms(1)] by blast
  have "(prefix (votes_by_key_prefix (qp Q) key True) (votes_by_key_party_timestamp E (qp Q) k q t) \<and>
      votes_view E Q s (k, q, t) \<noteq> None) = (k = key \<and> votes_view E Q s (k, q, t) \<noteq> None)" for k q t
    using view_parts(1) [OF assms(1), of k q t] by (auto simp: votes_prefix_iff [OF assms(2)])
  then have set: "set ix = {(k, q, t). k = key \<and> votes_view E Q s (k, q, t) \<noteq> None}"
    unfolding ix(3) by simp
  have "parse_votes_by_key_party_timestamp E (qp Q) (votes_by_key_party_timestamp E (qp Q) k q t) = Inr (key, q, t)"
    if "(k, q, t) \<in> set ix" for k q t
    using that valid [of "(k, q, t)"] unfolding set by (auto intro: parse_valid_keys)
  moreover have "k = key" if "(k, q, t) \<in> set ix" for k q t using that unfolding set by simp
  ultimately have "votes_on E Q key s
      = Inr (map (\<lambda>(k, q, t). (q, t, the (votes_view E Q s (key, q, t)))) ix)"
    unfolding votes_on_def ix(1) map_map by (intro ecollect_map_cong_Inr) auto
  also have "\<dots> = Inr (map (\<lambda>(q, t). (q, t, the (votes_view E Q s (key, q, t)))) (map snd ix))"
    by (simp add: comp_def split_def)
  finally show thesis
  proof (rule that)
    show "distinct (map snd ix)" using ix(2) by (auto simp: distinct_map inj_on_def set)
    show "set (map snd ix) = {(q, t). votes_view E Q s (key, q, t) \<noteq> None}"
      unfolding set_map set by force
  qed
qed

lemma votes_of_party_eq:
  assumes "queue_ok E Q s" "part_ok key" "part_ok party"
  obtains ts where
    "votes_of_party Q key party s = Inr (map (votes_by_key_party_timestamp E (qp Q) key party) ts)"
    "set ts = {t. votes_view E Q s (key, party, t) \<noteq> None}"
proof -
  obtain ix where ix: "prefix_stream (v_decode Q) Internal (votes_by_key_party_prefix (qp Q) key party True) s =
      map (\<lambda>(k, q, t). Inr (votes_by_key_party_timestamp E (qp Q) k q t, the (votes_view E Q s (k, q, t)))) ix"
    "set ix = {(k, q, t). prefix (votes_by_key_party_prefix (qp Q) key party True)
       (votes_by_key_party_timestamp E (qp Q) k q t) \<and> votes_view E Q s (k, q, t) \<noteq> None}"
    by (rule vote_stream [OF assms(1) table_of_prefix(2)])
  have "(prefix (votes_by_key_party_prefix (qp Q) key party True)
        (votes_by_key_party_timestamp E (qp Q) k q t) \<and> votes_view E Q s (k, q, t) \<noteq> None)
      = (k = key \<and> q = party \<and> votes_view E Q s (k, q, t) \<noteq> None)" for k q t
    using view_parts(1) [OF assms(1), of k q t]
    by (auto simp: votes_party_prefix_iff [OF assms(2) _ assms(3)])
  then have set: "set ix = {(k, q, t). k = key \<and> q = party \<and> votes_view E Q s (k, q, t) \<noteq> None}"
    unfolding ix(2) by simp
  then have "votes_of_party Q key party s
      = Inr (map (\<lambda>(k, q, t). votes_by_key_party_timestamp E (qp Q) key party t) ix)"
    unfolding votes_of_party_def ix(1) map_map by (intro ecollect_map_cong_Inr) auto
  also have "\<dots> = Inr (map (votes_by_key_party_timestamp E (qp Q) key party) (map (\<lambda>(k, q, t). t) ix))"
    by (simp add: comp_def split_def)
  finally show thesis
    by (rule that) (unfold set_map set, force)
qed

text \<open>At most one change is pending for a key.\<close>

lemma pending_stream_key:
  assumes "queue_ok E Q s" "part_ok key"
  obtains (none) "prefix_stream (v_decode Q) Internal (pending_by_key_prefix (qp Q) key True) s = []"
      "\<forall>t. pending_view E Q s (key, t) = None"
    | (one) t v where "prefix_stream (v_decode Q) Internal (pending_by_key_prefix (qp Q) key True) s
        = [Inr (pending_by_key_timestamp E (qp Q) key t, v)]"
      "pending_view E Q s (key, t) = Some v" "\<forall>t'. t' \<noteq> t \<longrightarrow> pending_view E Q s (key, t') = None"
      "stamp_ok t"
proof -
  obtain ix where ix: "prefix_stream (v_decode Q) Internal (pending_by_key_prefix (qp Q) key True) s =
      map (\<lambda>(k, t). Inr (pending_by_key_timestamp E (qp Q) k t, the (pending_view E Q s (k, t)))) ix"
    "distinct ix"
    "set ix = {(k, t). prefix (pending_by_key_prefix (qp Q) key True) (pending_by_key_timestamp E (qp Q) k t) \<and>
       pending_view E Q s (k, t) \<noteq> None}"
    by (rule pending_stream [OF assms(1) table_of_prefix(3)])
  have valid: "pending_valid E i" if "pending_view E Q s i \<noteq> None" for i
    using that row_valid(3) pending_view_Some [OF assms(1)] by blast
  have "(prefix (pending_by_key_prefix (qp Q) key True) (pending_by_key_timestamp E (qp Q) k t) \<and>
      pending_view E Q s (k, t) \<noteq> None) = (k = key \<and> pending_view E Q s (k, t) \<noteq> None)" for k t
    using view_parts(2) [OF assms(1), of k t] by (auto simp: pending_prefix_iff [OF assms(2)])
  then have set: "set ix = {(k, t). k = key \<and> pending_view E Q s (k, t) \<noteq> None}"
    unfolding ix(3) by simp
  have uniq: "t = t'" if "pending_view E Q s (key, t) \<noteq> None" "pending_view E Q s (key, t') \<noteq> None" for t t'
    using that pending_okD(4) [OF queue_okD(5) [OF assms(1)]] pending_view_Some [OF assms(1)] by blast
  show thesis
  proof (cases "\<exists>t. pending_view E Q s (key, t) \<noteq> None")
    case False
    then have "set ix = {}" unfolding set by auto
    then have "ix = []" by simp
    with False show thesis by (intro none) (simp_all add: ix(1))
  next
    case True
    then obtain t v where t: "pending_view E Q s (key, t) = Some v" by auto
    then have single: "set ix = {(key, t)}" unfolding set using uniq by auto
    have "length ix = 1" using distinct_card [OF ix(2)] unfolding single by simp
    then obtain i where "ix = [i]" by (auto simp: length_Suc_conv)
    with single have "ix = [(key, t)]" by simp
    moreover have "pending_view E Q s (key, t') = None" if "t' \<noteq> t" for t'
      using that t uniq [of t t'] by (cases "pending_view E Q s (key, t')") auto
    ultimately show thesis
      using t valid [of "(key, t)"] by (intro one [of t v]) (auto simp: ix(1))
  qed
qed

lemma pending_on_eq:
  assumes "queue_ok E Q s" "part_ok key"
  shows "(\<forall>t. pending_view E Q s (key, t) = None) \<Longrightarrow> pending_on E Q key s = Inr []"
    and "pending_view E Q s (key, t) = Some v \<Longrightarrow> pending_on E Q key s = Inr [(t, v)]"
proof -
  have "pending_on E Q key s = Inr [(t, v)]" if "pending_view E Q s (key, t) = Some v" for t v
    using that
  proof (rule_tac pending_stream_key [OF assms])
    fix t' v' assume t': "prefix_stream (v_decode Q) Internal (pending_by_key_prefix (qp Q) key True) s
        = [Inr (pending_by_key_timestamp E (qp Q) key t', v')]" "pending_view E Q s (key, t') = Some v'"
      "\<forall>u. u \<noteq> t' \<longrightarrow> pending_view E Q s (key, u) = None" "stamp_ok t'"
    with that have t: "t = t'" by force
    with that t'(2) have "v = v'" by simp
    with t t'(1,4) assms show ?thesis
      by (simp add: pending_on_def parse_valid_keys queue_okD(1) [OF assms(1)])
  qed simp
  then show "pending_view E Q s (key, t) = Some v \<Longrightarrow> pending_on E Q key s = Inr [(t, v)]" .
  show "(\<forall>t. pending_view E Q s (key, t) = None) \<Longrightarrow> pending_on E Q key s = Inr []"
    by (rule pending_stream_key [OF assms]) (auto simp: pending_on_def)
qed

lemma pending_for_key_eq:
  assumes "queue_ok E Q s" "part_ok (key_to_string Q key)"
  shows "(\<forall>t. pending_view E Q s (key_to_string Q key, t) = None) \<Longrightarrow> pending_for_key Q key s = Inr None"
    and "pending_view E Q s (key_to_string Q key, t) = Some v \<Longrightarrow> pending_for_key Q key s = Inr (Some v)"
proof -
  show "pending_for_key Q key s = Inr (Some v)" if "pending_view E Q s (key_to_string Q key, t) = Some v"
    using that
  proof (rule_tac pending_stream_key [OF assms])
    fix t' v' assume t': "prefix_stream (v_decode Q) Internal
        (pending_by_key_prefix (qp Q) (key_to_string Q key) True) s
        = [Inr (pending_by_key_timestamp E (qp Q) (key_to_string Q key) t', v')]"
      "pending_view E Q s (key_to_string Q key, t') = Some v'"
      "\<forall>u. u \<noteq> t' \<longrightarrow> pending_view E Q s (key_to_string Q key, u) = None"
    with that have t: "t = t'" by force
    with that t'(2) have "v = v'" by simp
    with t t'(1) show ?thesis by (simp add: pending_for_key_def)
  qed simp
  show "(\<forall>t. pending_view E Q s (key_to_string Q key, t) = None) \<Longrightarrow> pending_for_key Q key s = Inr None"
    by (rule pending_stream_key [OF assms]) (auto simp: pending_for_key_def)
qed

lemma part_ok_delimited:
  "part_ok (delimited k d) = (part_ok k \<and> (\<forall>c. d = Some c \<longrightarrow> part_ok [c]))"
  by (auto simp: delimited_def part_ok_def ascii_def split: option.splits)

lemma pending_for_key_prefix_eq:
  assumes "queue_ok E Q s" "part_ok (delimited (key_to_string Q key) d)"
  obtains ix where
    "pending_for_key_prefix E Q key d s =
      Inr (map (\<lambda>(k, t). (t, projr (key_try_from Q k), the (pending_view E Q s (k, t)))) ix)"
    "distinct ix"
    "set ix = {(k, t). prefix (delimited (key_to_string Q key) d) k \<and> pending_view E Q s (k, t) \<noteq> None}"
proof -
  let ?p = "delimited (key_to_string Q key) d"
  obtain ix where ix: "prefix_stream (v_decode Q) Internal (pending_by_key_prefix (qp Q) ?p False) s =
      map (\<lambda>(k, t). Inr (pending_by_key_timestamp E (qp Q) k t, the (pending_view E Q s (k, t)))) ix"
    "distinct ix"
    "set ix = {(k, t). prefix (pending_by_key_prefix (qp Q) ?p False) (pending_by_key_timestamp E (qp Q) k t) \<and>
       pending_view E Q s (k, t) \<noteq> None}"
    by (rule pending_stream [OF assms(1) table_of_prefix(3)])
  have set: "set ix = {(k, t). prefix ?p k \<and> pending_view E Q s (k, t) \<noteq> None}"
    unfolding ix(3) by (simp add: inexact_prefix_iff [OF assms(2)])
  have "ebind (key_try_from Q k) f = f (projr (key_try_from Q k))"
    "parse_pending_by_key_timestamp E (qp Q) (pending_by_key_timestamp E (qp Q) k t) = Inr (k, t)"
    if kt: "(k, t) \<in> set ix" for k t and f :: "'a \<Rightarrow> error + time \<times> 'a \<times> 'b"
  proof -
    from kt obtain v where v: "pending_view E Q s (k, t) = Some v" unfolding set by auto
    then obtain b where "pending_row E (qp Q) s (k, t) = Some b"
      using pending_view_Some [OF assms(1), of "(k, t)"] by auto
    then have "key_good Q k" by (rule pending_row_decodes [OF assms(1)])
    then show "ebind (key_try_from Q k) f = f (projr (key_try_from Q k))" by (auto simp: key_good_def)
    show "parse_pending_by_key_timestamp E (qp Q) (pending_by_key_timestamp E (qp Q) k t) = Inr (k, t)"
      using view_parts(2) [OF assms(1) v] queue_okD(1) [OF assms(1)] by (intro parse_valid_keys) auto
  qed
  then have "pending_for_key_prefix E Q key d s =
      Inr (map (\<lambda>(k, t). (t, projr (key_try_from Q k), the (pending_view E Q s (k, t)))) ix)"
    unfolding pending_for_key_prefix_def ix(1) map_map
    by (intro ecollect_map_cong_Inr) (auto split: prod.splits)
  then show thesis using ix(2) set by (rule that)
qed

lemma votes_for_key_eq:
  assumes "queue_ok E Q s" "part_ok (key_to_string Q key)"
  obtains qs where
    "votes_for_key E Q key s = Inr (map (\<lambda>(q, t).
       \<lparr>vote_party = q, vote_time = t, vote_key = projr (key_try_from Q (key_to_string Q key)),
        vote_value = the (votes_view E Q s (key_to_string Q key, q, t))\<rparr>) qs)"
    "distinct qs" "set qs = {(q, t). votes_view E Q s (key_to_string Q key, q, t) \<noteq> None}"
proof -
  let ?k = "key_to_string Q key"
  obtain ix where ix: "prefix_stream (v_decode Q) Internal (votes_by_key_prefix (qp Q) ?k True) s =
      map (\<lambda>(k, q, t). Inr (votes_by_key_party_timestamp E (qp Q) k q t, the (votes_view E Q s (k, q, t)))) ix"
    "distinct ix"
    "set ix = {(k, q, t). prefix (votes_by_key_prefix (qp Q) ?k True)
       (votes_by_key_party_timestamp E (qp Q) k q t) \<and> votes_view E Q s (k, q, t) \<noteq> None}"
    by (rule vote_stream [OF assms(1) table_of_prefix(1)])
  have "(prefix (votes_by_key_prefix (qp Q) ?k True) (votes_by_key_party_timestamp E (qp Q) k q t) \<and>
      votes_view E Q s (k, q, t) \<noteq> None) = (k = ?k \<and> votes_view E Q s (k, q, t) \<noteq> None)" for k q t
    using view_parts(1) [OF assms(1), of k q t] by (auto simp: votes_prefix_iff [OF assms(2)])
  then have set: "set ix = {(k, q, t). k = ?k \<and> votes_view E Q s (k, q, t) \<noteq> None}"
    unfolding ix(3) by simp
  have "k = ?k" "ebind (key_try_from Q ?k) f = f (projr (key_try_from Q ?k))"
    "parse_votes_by_key_party_timestamp E (qp Q) (votes_by_key_party_timestamp E (qp Q) k q t) = Inr (k, q, t)"
    if kt: "(k, q, t) \<in> set ix" for k q t and f :: "'a \<Rightarrow> error + ('a, 'b) vote"
  proof -
    from kt obtain v where v: "votes_view E Q s (k, q, t) = Some v" and k: "k = ?k" unfolding set by auto
    then obtain b where "vote_row E (qp Q) s (k, q, t) = Some b"
      using votes_view_Some [OF assms(1), of "(k, q, t)"] by auto
    then have "key_good Q k" by (rule vote_row_decodes [OF assms(1)])
    with k show "ebind (key_try_from Q ?k) f = f (projr (key_try_from Q ?k))" by (auto simp: key_good_def)
    show "parse_votes_by_key_party_timestamp E (qp Q) (votes_by_key_party_timestamp E (qp Q) k q t) = Inr (k, q, t)"
      using view_parts(1) [OF assms(1) v] queue_okD(1) [OF assms(1)] by (intro parse_valid_keys) auto
  qed (use kt in \<open>simp add: set\<close>)
  then have "votes_for_key E Q key s = Inr (map (\<lambda>(k, q, t).
       \<lparr>vote_party = q, vote_time = t, vote_key = projr (key_try_from Q ?k),
        vote_value = the (votes_view E Q s (?k, q, t))\<rparr>) ix)"
    unfolding votes_for_key_def read_votes_def ix(1) map_map
    by (intro ecollect_map_cong_Inr) (auto split: prod.splits)
  also have "\<dots> = Inr (map (\<lambda>(q, t).
       \<lparr>vote_party = q, vote_time = t, vote_key = projr (key_try_from Q ?k),
        vote_value = the (votes_view E Q s (?k, q, t))\<rparr>) (map snd ix))"
    by (simp add: comp_def split_def)
  finally show thesis
  proof (rule that)
    show "distinct (map snd ix)" using ix(2) by (auto simp: distinct_map inj_on_def set)
    show "set (map snd ix) = {(q, t). votes_view E Q s (?k, q, t) \<noteq> None}"
      unfolding set_map set by force
  qed
qed

end
