(* ===== verification/Queue_Ops.thy ===== *)
theory Queue_Ops
  imports Queue_Reads
begin

text \<open>
  What the operations of a vote queue do to its abstract state (\<open>votes_view\<close> and \<open>pending_view\<close>), that
  they keep its invariant and touch nothing outside the queue, and that timing out and promoting
  never fail in a well-formed state.
\<close>

lemma votes_ok_unique:
  "\<lbrakk>votes_ok E Q s; vote_row E (qp Q) s (k, q, t) = Some b; vote_row E (qp Q) s (k, q, t') = Some b'\<rbrakk>
    \<Longrightarrow> t = t'"
  using votes_okD(5) by blast

lemma votes_okI:
  assumes "\<And>k q t b. vote_row E (qp Q) s (k, q, t) = Some b \<Longrightarrow> key_good Q k \<and> good_bytes Q b"
    and "\<And>k q t b. vote_row E (qp Q) s (k, q, t) = Some b \<Longrightarrow> vote_index_row E (qp Q) s (k, q, t) \<noteq> None"
    and "\<And>i b. vote_index_row E (qp Q) s i = Some b \<Longrightarrow> unit_decode E b = Inr ()"
    and "\<And>k q t t'. vote_row E (qp Q) s (k, q, t) \<noteq> None \<Longrightarrow> vote_row E (qp Q) s (k, q, t') \<noteq> None \<Longrightarrow> t = t'"
  shows "votes_ok E Q s"
  unfolding votes_ok_def using assms by blast

lemma pending_ok_unique:
  "\<lbrakk>pending_ok E Q s; pending_row E (qp Q) s (k, t) = Some b; pending_row E (qp Q) s (k, t') = Some b'\<rbrakk>
    \<Longrightarrow> t = t'"
  using pending_okD(4) by blast

section \<open>Deleting and putting rows\<close>

lemma delete_votes_effect:
  assumes "tables_ok E p s" "\<forall>(t, k, q) \<in> set ds. vote_valid E (k, q, t)"
  defines "s' \<equiv> fold (delete_vote E p) ds s"
  shows "tables_ok E p s'" "same_outside p s s'"
    "vote_row E p s' = (\<lambda>(k, q, t). if (t, k, q) \<in> set ds then None else vote_row E p s (k, q, t))"
    "vote_index_row E p s' = (\<lambda>(k, q, t). if (t, k, q) \<in> set ds then None else vote_index_row E p s (k, q, t))"
    "pending_row E p s' = pending_row E p s" "pending_index_row E p s' = pending_index_row E p s"
proof -
  have "tables_ok E p s' \<and> same_outside p s s' \<and>
    vote_row E p s' = (\<lambda>(k, q, t). if (t, k, q) \<in> set ds then None else vote_row E p s (k, q, t)) \<and>
    vote_index_row E p s' = (\<lambda>(k, q, t). if (t, k, q) \<in> set ds then None else vote_index_row E p s (k, q, t)) \<and>
    pending_row E p s' = pending_row E p s \<and> pending_index_row E p s' = pending_index_row E p s"
    using assms(1,2) unfolding s'_def
  proof (induction ds arbitrary: s)
    case (Cons d ds)
    obtain t k q where d: "d = (t, k, q)" by (cases d)
    let ?s1 = "delete_vote E p d s"
    have ok: "contents_ok s" using Cons.prems(1) by (simp add: tables_ok_def)
    have valid: "vote_valid E (k, q, t)" using Cons.prems(2) d by simp
    have "tables_ok E p ?s1" using Cons.prems(1) by (simp add: d delete_vote_def)
    moreover have out: "same_outside p s ?s1"
      by (simp add: d delete_vote_def same_outside_ops)
    moreover have "vote_row E p ?s1 = (vote_row E p s)((k, q, t) := None)"
      "vote_index_row E p ?s1 = (vote_index_row E p s)((k, q, t) := None)"
      "pending_row E p ?s1 = pending_row E p s" "pending_index_row E p ?s1 = pending_index_row E p s"
      using ok valid by (simp_all add: d delete_vote_def row_simps)
    moreover note Cons.IH [of ?s1]
    ultimately show ?case
      using Cons.prems(2) by (auto simp: d fun_eq_iff elim: same_outside_trans)
  qed auto
  then show "tables_ok E p s'" "same_outside p s s'"
    "vote_row E p s' = (\<lambda>(k, q, t). if (t, k, q) \<in> set ds then None else vote_row E p s (k, q, t))"
    "vote_index_row E p s' = (\<lambda>(k, q, t). if (t, k, q) \<in> set ds then None else vote_index_row E p s (k, q, t))"
    "pending_row E p s' = pending_row E p s" "pending_index_row E p s' = pending_index_row E p s"
    by blast+
qed

lemma delete_pending_effect:
  assumes "tables_ok E p s" "pending_valid E (k, t)"
  defines "s' \<equiv> delete_pending E p k t s"
  shows "tables_ok E p s'" "same_outside p s s'"
    "pending_row E p s' = (pending_row E p s)((k, t) := None)"
    "pending_index_row E p s' = (pending_index_row E p s)((k, t) := None)"
    "vote_row E p s' = vote_row E p s" "vote_index_row E p s' = vote_index_row E p s"
proof -
  have ok: "contents_ok s" using assms(1) by (simp add: tables_ok_def)
  with assms show "tables_ok E p s'" "same_outside p s s'"
    "pending_row E p s' = (pending_row E p s)((k, t) := None)"
    "pending_index_row E p s' = (pending_index_row E p s)((k, t) := None)"
    "vote_row E p s' = vote_row E p s" "vote_index_row E p s' = vote_index_row E p s"
    by (simp_all add: delete_pending_def row_simps same_outside_ops)
qed

lemma put_pending_effect:
  fixes v :: 'v
  assumes "tables_ok E (qp Q) s" "pending_valid E (k, trunc_secs t)"
  defines "s' \<equiv> put_pending E Q k t v s"
  shows "tables_ok E (qp Q) s'" "same_outside (qp Q) s s'"
    "pending_row E (qp Q) s' = (pending_row E (qp Q) s)((k, trunc_secs t) \<mapsto> v_encode Q v)"
    "pending_index_row E (qp Q) s' = (pending_index_row E (qp Q) s)((k, trunc_secs t) \<mapsto> v_encode Q v)"
    "vote_row E (qp Q) s' = vote_row E (qp Q) s" "vote_index_row E (qp Q) s' = vote_index_row E (qp Q) s"
proof -
  have ok: "contents_ok s" using assms(1) by (simp add: tables_ok_def)
  have s': "s' = put_pending E Q k (trunc_secs t) v s" by (simp add: s'_def put_pending_def)
  show "tables_ok E (qp Q) s'" "same_outside (qp Q) s s'"
    "pending_row E (qp Q) s' = (pending_row E (qp Q) s)((k, trunc_secs t) \<mapsto> v_encode Q v)"
    "pending_index_row E (qp Q) s' = (pending_index_row E (qp Q) s)((k, trunc_secs t) \<mapsto> v_encode Q v)"
    "vote_row E (qp Q) s' = vote_row E (qp Q) s" "vote_index_row E (qp Q) s' = vote_index_row E (qp Q) s"
    using assms(1,2) ok unfolding s' put_pending_def
    by (simp_all add: row_simps same_outside_ops del: votes_key_trunc index_key_trunc)
qed

lemma delete_votes_by_key_effect:
  assumes "tables_ok E p s" "\<forall>t \<in> set ts. vote_valid E (k, q, t)"
  defines "s' \<equiv> fold (delete Internal) (map (votes_by_key_party_timestamp E p k q) ts) s"
  shows "tables_ok E p s' \<and> same_outside p s s' \<and>
    vote_row E p s' = (\<lambda>(k', q', t). if k' = k \<and> q' = q \<and> t \<in> set ts then None else vote_row E p s (k', q', t)) \<and>
    vote_index_row E p s' = vote_index_row E p s \<and>
    pending_row E p s' = pending_row E p s \<and> pending_index_row E p s' = pending_index_row E p s"
  using assms(1,2) unfolding s'_def
proof (induction ts arbitrary: s)
  case (Cons t ts)
  let ?s1 = "delete Internal (votes_by_key_party_timestamp E p k q t) s"
  have ok: "contents_ok s" using Cons.prems(1) by (simp add: tables_ok_def)
  have valid: "vote_valid E (k, q, t)" using Cons.prems(2) by simp
  have "tables_ok E p ?s1" using Cons.prems(1) by simp
  moreover have "same_outside p s ?s1" by (simp add: same_outside_ops)
  moreover have "vote_row E p ?s1 = (vote_row E p s)((k, q, t) := None)"
    "vote_index_row E p ?s1 = vote_index_row E p s"
    "pending_row E p ?s1 = pending_row E p s" "pending_index_row E p ?s1 = pending_index_row E p s"
    using ok valid by (simp_all add: row_simps)
  moreover note Cons.IH [of ?s1]
  ultimately show ?case
    using Cons.prems(2) by (auto simp: fun_eq_iff elim: same_outside_trans)
qed auto

section \<open>The invariant under the writes\<close>

lemma queue_ok_restrict:
  assumes "queue_ok E Q s" "tables_ok E (qp Q) s'"
    and "vote_row E (qp Q) s' = (\<lambda>i. if K i then vote_row E (qp Q) s i else None)"
    and "vote_index_row E (qp Q) s' = (\<lambda>i. if K i then vote_index_row E (qp Q) s i else None)"
    and "pending_row E (qp Q) s' = (\<lambda>j. if L j then pending_row E (qp Q) s j else None)"
    and "pending_index_row E (qp Q) s' = (\<lambda>j. if L j then pending_index_row E (qp Q) s j else None)"
  shows "queue_ok E Q s'" "votes_view E Q s' = (\<lambda>i. if K i then votes_view E Q s i else None)"
    "pending_view E Q s' = (\<lambda>j. if L j then pending_view E Q s j else None)"
proof -
  note q = queue_okD [OF assms(1)]
  have "votes_ok E Q s'"
    unfolding votes_ok_def assms(3,4)
    using votes_okD(1-4) [OF q(4)]
    by (auto split: if_splits intro: votes_ok_unique [OF q(4)])
  moreover have "pending_ok E Q s'"
    unfolding pending_ok_def assms(5,6) pending_okD(3) [OF q(5)]
    using pending_okD(1,2) [OF q(5)] by (auto split: if_splits intro: pending_ok_unique [OF q(5)])
  ultimately show "queue_ok E Q s'" using assms(2) q(1) by (simp add: queue_ok_def)
  show "votes_view E Q s' = (\<lambda>i. if K i then votes_view E Q s i else None)"
    "pending_view E Q s' = (\<lambda>j. if L j then pending_view E Q s j else None)"
    by (auto simp: votes_view_def pending_view_def assms)
qed

section \<open>Timing out\<close>

text \<open>A queue after an operation: it is still well formed, nothing outside it changed, and its abstract
  state is as given.\<close>

definition queue_becomes ::
  "env \<Rightarrow> ('k, 'v) vote_queue \<Rightarrow> contents \<Rightarrow> contents \<Rightarrow> (string \<times> string \<times> time \<Rightarrow> 'v option)
    \<Rightarrow> (string \<times> time \<Rightarrow> 'v option) \<Rightarrow> bool" where
  "queue_becomes E Q s s' V P =
    (queue_ok E Q s' \<and> same_outside (qp Q) s s' \<and> votes_view E Q s' = V \<and> pending_view E Q s' = P)"

lemma timeout_expired_votes_effect:
  assumes "queue_ok E Q s" "block_time E s = Inr now"
  obtains s' where "timeout_expired_votes E Q s = (s', Inr ())"
    "queue_becomes E Q s s'
       (\<lambda>(k, q, t). if expired now (timeout (q_config Q)) t then None else votes_view E Q s (k, q, t))
       (pending_view E Q s)"
proof -
  note q = queue_okD [OF assms(1)]
  obtain old where old: "old_votes E Q now s = Inr old"
    "set old = {(t, k, p). vote_index_row E (qp Q) s (k, p, t) \<noteq> None \<and> expired now (timeout (q_config Q)) t}"
    by (rule old_votes_eq [OF assms(1)])
  let ?s' = "fold (delete_vote E (qp Q)) old s"
  let ?K = "\<lambda>(k, p, t). \<not> expired now (timeout (q_config Q)) t"
  have "\<forall>(t, k, p) \<in> set old. vote_valid E (k, p, t)"
    unfolding old(2) using row_valid(2) by blast
  note eff = delete_votes_effect [OF q(2) this]
  have "vote_row E (qp Q) s i = None" if "vote_index_row E (qp Q) s i = None" for i
    using that votes_okD(3) [OF q(4)] by (cases i) (metis not_None_eq)
  then have rows: "vote_row E (qp Q) ?s' = (\<lambda>i. if ?K i then vote_row E (qp Q) s i else None)"
    "vote_index_row E (qp Q) ?s' = (\<lambda>i. if ?K i then vote_index_row E (qp Q) s i else None)"
    unfolding eff(3,4) old(2) by (auto simp: fun_eq_iff)
  note restrict = queue_ok_restrict [OF assms(1) eff(1) rows, of "\<lambda>_. True", simplified, OF eff(5,6)]
  show thesis
  proof (rule that [of ?s'])
    show "timeout_expired_votes E Q s = (?s', Inr ())"
      by (simp add: timeout_expired_votes_def assms(2) old(1))
    show "queue_becomes E Q s ?s'
       (\<lambda>(k, q, t). if expired now (timeout (q_config Q)) t then None else votes_view E Q s (k, q, t))
       (pending_view E Q s)"
      using restrict eff(2) by (auto simp: queue_becomes_def fun_eq_iff)
  qed
qed

section \<open>Promoting\<close>

lemma promote_loop_effect:
  assumes "tables_ok E (qp Q) s" "\<forall>(t, k, v) \<in> set ripe. pending_valid E (k, t) \<and> is_ok (key_try_from Q k)"
  obtains s' where
    "promote_loop E Q ripe s = (s', Inr (map (\<lambda>(t, k, v). (projr (key_try_from Q k), v)) ripe))"
    "tables_ok E (qp Q) s'" "same_outside (qp Q) s s'"
    "pending_row E (qp Q) s' =
      (\<lambda>(k, t). if \<exists>v. (t, k, v) \<in> set ripe then None else pending_row E (qp Q) s (k, t))"
    "pending_index_row E (qp Q) s' =
      (\<lambda>(k, t). if \<exists>v. (t, k, v) \<in> set ripe then None else pending_index_row E (qp Q) s (k, t))"
    "vote_row E (qp Q) s' = vote_row E (qp Q) s" "vote_index_row E (qp Q) s' = vote_index_row E (qp Q) s"
  using assms
proof (induction ripe arbitrary: s thesis)
  case (Cons r ripe)
  obtain t k v where r: "r = (t, k, v)" by (cases r)
  let ?s1 = "delete_pending E (qp Q) k t s"
  have valid: "pending_valid E (k, t)" and key: "is_ok (key_try_from Q k)" using Cons.prems(3) r by auto
  note eff = delete_pending_effect [OF Cons.prems(2) valid]
  obtain s' where s': "promote_loop E Q ripe ?s1 = (s', Inr (map (\<lambda>(t, k, v). (projr (key_try_from Q k), v)) ripe))"
    "tables_ok E (qp Q) s'" "same_outside (qp Q) ?s1 s'"
    "pending_row E (qp Q) s' =
      (\<lambda>(k, t). if \<exists>v. (t, k, v) \<in> set ripe then None else pending_row E (qp Q) ?s1 (k, t))"
    "pending_index_row E (qp Q) s' =
      (\<lambda>(k, t). if \<exists>v. (t, k, v) \<in> set ripe then None else pending_index_row E (qp Q) ?s1 (k, t))"
    "vote_row E (qp Q) s' = vote_row E (qp Q) ?s1" "vote_index_row E (qp Q) s' = vote_index_row E (qp Q) ?s1"
    using Cons.IH [OF _ eff(1)] Cons.prems(3) by auto
  obtain x where "key_try_from Q k = Inr x" using key by (cases "key_try_from Q k") auto
  then have "promote_loop E Q (r # ripe) s
      = (s', Inr (map (\<lambda>(t, k, v). (projr (key_try_from Q k), v)) (r # ripe)))"
    by (simp add: r s'(1))
  then show thesis
    by (rule Cons.prems(1))
      (use s' eff in \<open>auto simp: r fun_eq_iff intro: same_outside_trans\<close>)
qed (auto simp: fun_eq_iff)

lemma promote_pending_changes_effect:
  assumes "queue_ok E Q s" "block_time E s = Inr now"
  obtains s' ripe where
    "promote_pending_changes E Q s =
      (s', Inr (map (\<lambda>(k, t). (projr (key_try_from Q k), the (pending_view E Q s (k, t)))) ripe))"
    "queue_becomes E Q s s' (votes_view E Q s)
       (\<lambda>(k, t). if expired now (delay (q_config Q)) t then None else pending_view E Q s (k, t))"
    "distinct ripe"
    "set ripe = {(k, t). pending_view E Q s (k, t) \<noteq> None \<and> expired now (delay (q_config Q)) t}"
    "sorted_wrt (\<lambda>(k, t) (k', t'). t \<le> t') ripe"
proof -
  note q = queue_okD [OF assms(1)]
  obtain ripe where ripe:
    "ripe_pending E Q now s = Inr (map (\<lambda>(k, t). (t, k, the (pending_view E Q s (k, t)))) ripe)"
    "distinct ripe"
    "set ripe = {(k, t). pending_view E Q s (k, t) \<noteq> None \<and> expired now (delay (q_config Q)) t}"
    "sorted_wrt (\<lambda>(k, t) (k', t'). t \<le> t') ripe"
    by (rule ripe_pending_eq [OF assms(1)])
  let ?f = "\<lambda>(k, t). (t, k, the (pending_view E Q s (k, t)))"
  let ?L = "\<lambda>(k, t). \<not> expired now (delay (q_config Q)) t"
  have "pending_valid E (k, t) \<and> is_ok (key_try_from Q k)" if "(k, t) \<in> set ripe" for k t
  proof -
    from that obtain b where b: "pending_row E (qp Q) s (k, t) = Some b"
      unfolding ripe(3) using pending_view_Some [OF assms(1), of "(k, t)"] by auto
    then have "pending_valid E (k, t)" using row_valid(3) [of E "qp Q" s "(k, t)"] by simp
    moreover have "key_good Q k" by (rule pending_row_decodes [OF assms(1) b])
    ultimately show ?thesis by (auto simp: key_good_def)
  qed
  then have ok: "\<forall>(t, k, v) \<in> set (map ?f ripe). pending_valid E (k, t) \<and> is_ok (key_try_from Q k)"
    by auto
  obtain s' where s':
    "promote_loop E Q (map ?f ripe) s = (s', Inr (map (\<lambda>(t, k, v). (projr (key_try_from Q k), v)) (map ?f ripe)))"
    "tables_ok E (qp Q) s'" "same_outside (qp Q) s s'"
    "pending_row E (qp Q) s' =
      (\<lambda>(k, t). if \<exists>v. (t, k, v) \<in> set (map ?f ripe) then None else pending_row E (qp Q) s (k, t))"
    "pending_index_row E (qp Q) s' =
      (\<lambda>(k, t). if \<exists>v. (t, k, v) \<in> set (map ?f ripe) then None else pending_index_row E (qp Q) s (k, t))"
    "vote_row E (qp Q) s' = vote_row E (qp Q) s" "vote_index_row E (qp Q) s' = vote_index_row E (qp Q) s"
    by (rule promote_loop_effect [OF q(2) ok])
  have mem: "(\<exists>v. (t, k, v) \<in> set (map ?f ripe)) = ((k, t) \<in> set ripe)" for k t by force
  have none: "pending_row E (qp Q) s i = None" if "pending_view E Q s i = None" for i
    using that pending_view_Some [OF assms(1), of i] by auto
  have rows: "pending_row E (qp Q) s' = (\<lambda>j. if ?L j then pending_row E (qp Q) s j else None)"
    unfolding s'(4) mem ripe(3) using none by (auto simp: fun_eq_iff)
  have rows': "pending_index_row E (qp Q) s' = (\<lambda>j. if ?L j then pending_index_row E (qp Q) s j else None)"
    unfolding s'(5) mem ripe(3) pending_okD(3) [OF q(5)] using none by (auto simp: fun_eq_iff)
  note restrict = queue_ok_restrict [OF assms(1) s'(2), of "\<lambda>_. True" ?L, simplified, OF s'(6,7) rows rows']
  show thesis
  proof (rule that)
    show "promote_pending_changes E Q s =
      (s', Inr (map (\<lambda>(k, t). (projr (key_try_from Q k), the (pending_view E Q s (k, t)))) ripe))"
      using s'(1) by (simp add: promote_pending_changes_def assms(2) ripe(1) comp_def split_def)
    show "queue_becomes E Q s s' (votes_view E Q s)
       (\<lambda>(k, t). if expired now (delay (q_config Q)) t then None else pending_view E Q s (k, t))"
      using restrict s'(3) by (auto simp: queue_becomes_def fun_eq_iff)
  qed (fact ripe)+
qed

section \<open>Recording a vote\<close>

text \<open>What the queue needs of its codec, and of a vote: its key, party and time fit in a key, and the
  value can be read back.\<close>

definition codec_ok :: "env \<Rightarrow> ('k, 'v) vote_queue \<Rightarrow> bool" where
  "codec_ok E Q =
    ((\<forall>v. unit_decode E (v_encode Q v) = Inr ()) \<and>
     (\<forall>v w. v_decode Q (v_encode Q v) = Inr w \<longrightarrow> exact Q w))"

definition castable :: "env \<Rightarrow> ('k, 'v) vote_queue \<Rightarrow> string \<Rightarrow> string \<Rightarrow> time \<Rightarrow> 'v \<Rightarrow> 'v \<Rightarrow> bool" where
  "castable E Q key party t v w =
    (codec_ok E Q \<and> key_good Q key \<and> part_ok party \<and> time_ok t \<and> 0 \<le> t \<and>
     v_decode Q (v_encode Q v) = Inr w)"

lemma record_vote_rows:
  assumes "queue_ok E Q s" "castable E Q key party t v w"
  obtains s' where "record_vote E Q key party t v s = (s', Inr ())"
    "tables_ok E (qp Q) s'" "same_outside (qp Q) s s'"
    "vote_row E (qp Q) s' = (\<lambda>(k, r, u). if k = key \<and> r = party
       then (if u = trunc_secs t then Some (v_encode Q v) else None) else vote_row E (qp Q) s (k, r, u))"
    "vote_index_row E (qp Q) s' = (vote_index_row E (qp Q) s)((key, party, trunc_secs t) \<mapsto> v_encode Q v)"
    "pending_row E (qp Q) s' = pending_row E (qp Q) s"
    "pending_index_row E (qp Q) s' = pending_index_row E (qp Q) s"
proof -
  note q = queue_okD [OF assms(1)]
  have key: "part_ok key" "part_ok party" "time_ok t" "0 \<le> t"
    using assms(2) by (auto simp: castable_def key_good_def)
  let ?t = "trunc_secs t"
  have valid: "vote_valid E (key, party, ?t)" using q(1) key by simp
  obtain ts where ts: "votes_of_party Q key party s = Inr (map (votes_by_key_party_timestamp E (qp Q) key party) ts)"
    "set ts = {u. votes_view E Q s (key, party, u) \<noteq> None}"
    by (rule votes_of_party_eq [OF assms(1) key(1,2)])
  let ?s0 = "fold (delete Internal) (map (votes_by_key_party_timestamp E (qp Q) key party) ts) s"
  have "\<forall>u \<in> set ts. vote_valid E (key, party, u)"
    unfolding ts(2) votes_view_Some [OF assms(1)] using row_valid(1) by blast
  note e0 = delete_votes_by_key_effect [OF q(2) this]
  then have r0: "vote_row E (qp Q) ?s0 = (\<lambda>(k, r, u). if k = key \<and> r = party then None else vote_row E (qp Q) s (k, r, u))"
    unfolding ts(2) votes_view_Some [OF assms(1)] by (auto simp: fun_eq_iff)
  have e0': "vote_index_row E (qp Q) ?s0 = vote_index_row E (qp Q) s"
    "pending_row E (qp Q) ?s0 = pending_row E (qp Q) s"
    "pending_index_row E (qp Q) ?s0 = pending_index_row E (qp Q) s" using e0 by blast+
  let ?s1 = "put (v_encode Q) Internal (votes_by_key_party_timestamp E (qp Q) key party ?t) v ?s0"
  let ?s2 = "index_put (v_encode Q) Internal (index_votes_by_timestamp_key_party (qp Q) ?t key party) v ?s1"
  have ok0: "contents_ok ?s0" "tables_ok E (qp Q) ?s0" using e0 by (auto simp: tables_ok_def)
  show thesis
  proof (rule that [of ?s2])
    show "record_vote E Q key party t v s = (?s2, Inr ())" by (simp add: record_vote_def ts(1))
    show "tables_ok E (qp Q) ?s2" using ok0(2) valid by (simp del: votes_key_trunc index_key_trunc)
    show "same_outside (qp Q) s ?s2" using e0 by (simp add: same_outside_ops)
    have "vote_row E (qp Q) ?s2 = (vote_row E (qp Q) ?s0)((key, party, ?t) \<mapsto> v_encode Q v)"
      using ok0(1) valid by (simp add: row_simps del: votes_key_trunc index_key_trunc)
    then show "vote_row E (qp Q) ?s2 = (\<lambda>(k, r, u). if k = key \<and> r = party
        then (if u = ?t then Some (v_encode Q v) else None) else vote_row E (qp Q) s (k, r, u))"
      unfolding r0 by (auto simp: fun_eq_iff)
    show "vote_index_row E (qp Q) ?s2 = (vote_index_row E (qp Q) s)((key, party, ?t) \<mapsto> v_encode Q v)"
      "pending_row E (qp Q) ?s2 = pending_row E (qp Q) s"
      "pending_index_row E (qp Q) ?s2 = pending_index_row E (qp Q) s"
      using ok0(1) valid by (simp_all add: row_simps e0' del: votes_key_trunc index_key_trunc)
  qed
qed

lemma record_vote_effect:
  assumes "queue_ok E Q s" "castable E Q key party t v w"
  obtains s' where "record_vote E Q key party t v s = (s', Inr ())"
    "queue_becomes E Q s s'
      (\<lambda>(k, q, u). if k = key \<and> q = party then (if u = trunc_secs t then Some w else None)
                   else votes_view E Q s (k, q, u))
      (pending_view E Q s)"
proof -
  note q = queue_okD [OF assms(1)]
  have codec: "key_good Q key" "v_decode Q (v_encode Q v) = Inr w" "exact Q w"
    "unit_decode E (v_encode Q v) = Inr ()"
    using assms(2) by (auto simp: castable_def codec_ok_def)
  obtain s' where s': "record_vote E Q key party t v s = (s', Inr ())"
    "tables_ok E (qp Q) s'" "same_outside (qp Q) s s'"
    and rows: "vote_row E (qp Q) s' = (\<lambda>(k, r, u). if k = key \<and> r = party
       then (if u = trunc_secs t then Some (v_encode Q v) else None) else vote_row E (qp Q) s (k, r, u))"
    "vote_index_row E (qp Q) s' = (vote_index_row E (qp Q) s)((key, party, trunc_secs t) \<mapsto> v_encode Q v)"
    "pending_row E (qp Q) s' = pending_row E (qp Q) s"
    "pending_index_row E (qp Q) s' = pending_index_row E (qp Q) s"
    by (rule record_vote_rows [OF assms])
  have "votes_ok E Q s'"
  proof (rule votes_okI)
    fix k r u u'
    assume "vote_row E (qp Q) s' (k, r, u) \<noteq> None" "vote_row E (qp Q) s' (k, r, u') \<noteq> None"
    then show "u = u'" using votes_okD(5) [OF q(4), of k r u u'] unfolding rows(1) by (auto split: if_splits)
  qed (use votes_okD(1-4) [OF q(4)] codec in \<open>auto simp: rows(1,2) good_bytes_def split: if_splits\<close>)
  moreover have "pending_ok E Q s'"
    using q(5) by (simp add: pending_ok_def rows)
  ultimately show thesis
    using codec(2) q(1) s'
    by (intro that [OF s'(1)])
      (auto simp: queue_becomes_def queue_ok_def votes_view_def pending_view_def rows fun_eq_iff)
qed

section \<open>Counting votes\<close>

lemma keys_tally_add: "fst ` set (tally_add v t) = insert v (fst ` set t)"
  by (induction v t rule: tally_add.induct) auto

lemma distinct_tally_add: "distinct (map fst t) \<Longrightarrow> distinct (map fst (tally_add v t))"
  by (induction v t rule: tally_add.induct) (simp_all add: keys_tally_add)

lemma find_SomeD: "List.find P xs = Some x \<Longrightarrow> x \<in> set xs \<and> P x"
  by (induction xs) (auto split: if_splits)

lemma set_tally: "set (tally vs) = {(v, count_list vs v) | v. v \<in> set vs}"
proof -
  have "distinct (map fst (tally vs)) \<and> map_of (tally vs) = (\<lambda>v. if v \<in> set vs then Some (count_list vs v) else None)"
  proof (induction vs rule: rev_induct)
    case Nil
    then show ?case by (simp add: tally_def)
  next
    case (snoc v vs)
    have step: "tally (vs @ [v]) = tally_add v (tally vs)" by (simp add: tally_def)
    have upd: "map_of (tally_add v t) = (map_of t)(v \<mapsto> (case map_of t v of None \<Rightarrow> 1 | Some n \<Rightarrow> n + 1))" for t
      by (induction v t rule: tally_add.induct) auto
    show ?case
      unfolding step upd using snoc distinct_tally_add by (auto simp: fun_eq_iff)
  qed
  then show ?thesis
    by (auto simp: map_of_eq_Some_iff [symmetric] split: if_splits)
qed

lemma winner_eq:
  assumes "\<forall>t. set (tally_order Q t) = set t"
  shows "winner Q vs = None \<longleftrightarrow> (\<forall>v \<in> set vs. count_list vs v < unat (quorum (q_config Q)))"
    and "winner Q vs = Some w \<Longrightarrow> w \<in> set vs \<and> unat (quorum (q_config Q)) \<le> count_list vs w"
proof -
  let ?P = "\<lambda>(v, n). unat (quorum (q_config Q)) \<le> n" and ?t = "tally_order Q (tally vs)"
  have set: "set ?t = {(v, count_list vs v) | v. v \<in> set vs}" using assms set_tally by metis
  show "winner Q vs = None \<longleftrightarrow> (\<forall>v \<in> set vs. count_list vs v < unat (quorum (q_config Q)))"
    by (auto simp: winner_def find_None_iff set not_le)
  assume "winner Q vs = Some w"
  then obtain n where "List.find ?P ?t = Some (w, n)" by (auto simp: winner_def)
  then have "(w, n) \<in> set ?t" "unat (quorum (q_config Q)) \<le> n"
    by (auto dest: find_SomeD)
  then show "w \<in> set vs \<and> unat (quorum (q_config Q)) \<le> count_list vs w" by (auto simp: set)
qed

text \<open>The number of parties that vote for a value.\<close>

definition support :: "(string \<times> string \<times> time \<Rightarrow> 'v option) \<Rightarrow> string \<Rightarrow> 'v \<Rightarrow> nat" where
  "support V key v = card {q. \<exists>t. V (key, q, t) = Some v}"

lemma votes_view_unique:
  assumes "queue_ok E Q s" "votes_view E Q s (k, q, t) = Some v" "votes_view E Q s (k, q, t') = Some v'"
  shows "t = t'"
proof -
  have "vote_row E (qp Q) s (k, q, t) \<noteq> None" "vote_row E (qp Q) s (k, q, t') \<noteq> None"
    using assms(2,3) votes_view_Some [OF assms(1)] by (metis option.distinct(1))+
  then show ?thesis using votes_okD(5) [OF queue_okD(4) [OF assms(1)]] by blast
qed

lemma count_votes:
  assumes "queue_ok E Q s" "part_ok key" "votes_on E Q key s = Inr vs"
  shows "count_list (map (\<lambda>(_, _, v). v) vs) w = support (votes_view E Q s) key w"
    and "w \<in> set (map (\<lambda>(_, _, v). v) vs) \<longleftrightarrow> (\<exists>q t. votes_view E Q s (key, q, t) = Some w)"
    and "set (map (\<lambda>(q, t, _). (t, key, q)) vs) = {(t, k, q). k = key \<and> votes_view E Q s (k, q, t) \<noteq> None}"
proof -
  obtain qs where qs: "votes_on E Q key s = Inr (map (\<lambda>(q, t). (q, t, the (votes_view E Q s (key, q, t)))) qs)"
    "distinct qs" "set qs = {(q, t). votes_view E Q s (key, q, t) \<noteq> None}"
    by (rule votes_on_eq [OF assms(1,2)])
  then have vs: "vs = map (\<lambda>(q, t). (q, t, the (votes_view E Q s (key, q, t)))) qs"
    using assms(3) by simp
  let ?P = "\<lambda>(q, t). votes_view E Q s (key, q, t) = Some w"
  have P: "the (votes_view E Q s (key, q, t)) = w \<longleftrightarrow> ?P (q, t)" if "(q, t) \<in> set qs" for q t
    using that unfolding qs(3) by auto
  have "count_list (map (\<lambda>(_, _, v). v) vs) w = length (filter ?P qs)"
    unfolding vs using P by (induction qs) (auto simp: count_list_eq_length_filter split: prod.splits)
  also have "\<dots> = card {x. ?P x}"
  proof -
    have "{x. ?P x} = set (filter ?P qs)" unfolding set_filter qs(3) by auto
    then show ?thesis using distinct_card [of "filter ?P qs"] qs(2) by simp
  qed
  also have "\<dots> = support (votes_view E Q s) key w"
  proof -
    have "inj_on fst {x. ?P x}"
      using votes_view_unique [OF assms(1)] by (auto simp: inj_on_def)
    then have "card (fst ` {x. ?P x}) = card {x. ?P x}" by (rule card_image)
    moreover have "fst ` {x. ?P x} = {q. \<exists>t. votes_view E Q s (key, q, t) = Some w}" by force
    ultimately show ?thesis by (simp add: support_def)
  qed
  finally show "count_list (map (\<lambda>(_, _, v). v) vs) w = support (votes_view E Q s) key w" .
  show "w \<in> set (map (\<lambda>(_, _, v). v) vs) \<longleftrightarrow> (\<exists>q t. votes_view E Q s (key, q, t) = Some w)"
  proof
    assume "w \<in> set (map (\<lambda>(_, _, v). v) vs)"
    then obtain q t where "(q, t) \<in> set qs" "w = the (votes_view E Q s (key, q, t))" unfolding vs by auto
    then show "\<exists>q t. votes_view E Q s (key, q, t) = Some w" unfolding qs(3) by auto
  next
    assume "\<exists>q t. votes_view E Q s (key, q, t) = Some w"
    then obtain q t where v: "votes_view E Q s (key, q, t) = Some w" by blast
    then have "(q, t) \<in> set qs" unfolding qs(3) by simp
    then have "(q, t, w) \<in> set vs" using v unfolding vs by force
    then show "w \<in> set (map (\<lambda>(_, _, v). v) vs)" by force
  qed
  show "set (map (\<lambda>(q, t, _). (t, key, q)) vs) = {(t, k, q). k = key \<and> votes_view E Q s (k, q, t) \<noteq> None}"
  proof -
    have "map (\<lambda>(q, t, _). (t, key, q)) vs = map (\<lambda>(q, t). (t, key, q)) qs" by (simp add: vs split_def)
    then show ?thesis unfolding set_map [symmetric] by (simp only: set_map qs(3)) force
  qed
qed

section \<open>Casting\<close>

text \<open>The abstract operations: a party's vote replaces its earlier one, the votes on a key are dropped,
  the pending change of a key is dropped or replaced.\<close>

definition recorded ::
  "(string \<times> string \<times> time \<Rightarrow> 'v option) \<Rightarrow> string \<Rightarrow> string \<Rightarrow> time \<Rightarrow> 'v
    \<Rightarrow> string \<times> string \<times> time \<Rightarrow> 'v option" where
  "recorded V key party t w = (\<lambda>(k, q, u).
     if k = key \<and> q = party then (if u = trunc_secs t then Some w else None) else V (k, q, u))"

definition votes_dropped ::
  "(string \<times> string \<times> time \<Rightarrow> 'v option) \<Rightarrow> string \<Rightarrow> string \<times> string \<times> time \<Rightarrow> 'v option" where
  "votes_dropped V key = (\<lambda>(k, q, u). if k = key then None else V (k, q, u))"

definition pending_dropped ::
  "(string \<times> time \<Rightarrow> 'v option) \<Rightarrow> string \<Rightarrow> string \<times> time \<Rightarrow> 'v option" where
  "pending_dropped P key = (\<lambda>(k, u). if k = key then None else P (k, u))"

definition pending_replaced ::
  "(string \<times> time \<Rightarrow> 'v option) \<Rightarrow> string \<Rightarrow> time \<Rightarrow> 'v \<Rightarrow> string \<times> time \<Rightarrow> 'v option" where
  "pending_replaced P key t w = (\<lambda>(k, u).
     if k = key then (if u = trunc_secs t then Some w else None) else P (k, u))"

lemma drop_votes_effect:
  assumes "queue_ok E Q s" "part_ok key" "votes_on E Q key s = Inr vs"
  shows "queue_becomes E Q s (fold (delete_vote E (qp Q)) (map (\<lambda>(party, t, _). (t, key, party)) vs) s)
    (votes_dropped (votes_view E Q s) key) (pending_view E Q s)"
proof -
  note q = queue_okD [OF assms(1)]
  let ?ds = "map (\<lambda>(party, t, _). (t, key, party)) vs"
  let ?s' = "fold (delete_vote E (qp Q)) ?ds s"
  note ds = count_votes(3) [OF assms]
  have "\<forall>(t, k, p) \<in> set ?ds. vote_valid E (k, p, t)"
    unfolding ds votes_view_Some [OF assms(1)] using row_valid(1) by blast
  note eff = delete_votes_effect [OF q(2) this]
  let ?K = "\<lambda>(k, p, t). \<not> (k = key \<and> votes_view E Q s (k, p, t) \<noteq> None)"
  have rows: "vote_row E (qp Q) ?s' = (\<lambda>i. if ?K i then vote_row E (qp Q) s i else None)"
    "vote_index_row E (qp Q) ?s' = (\<lambda>i. if ?K i then vote_index_row E (qp Q) s i else None)"
    unfolding eff(3,4) ds by (auto simp: fun_eq_iff)
  note restrict = queue_ok_restrict [OF assms(1) eff(1) rows, of "\<lambda>_. True", simplified, OF eff(5,6)]
  then show ?thesis
    using eff(2) by (auto simp: queue_becomes_def votes_dropped_def fun_eq_iff)
qed

lemma drop_pending_effect:
  assumes "queue_ok E Q s" "part_ok key" "pending_on E Q key s = Inr cs"
  shows "queue_becomes E Q s (fold (delete_pending E (qp Q) key) (map fst cs) s)
    (votes_view E Q s) (pending_dropped (pending_view E Q s) key)"
proof (cases "\<exists>t. pending_view E Q s (key, t) \<noteq> None")
  case False
  then have "cs = []" using pending_on_eq(1) [OF assms(1,2)] assms(3) by simp
  with False assms(1) show ?thesis
    by (auto simp: queue_becomes_def pending_dropped_def fun_eq_iff)
next
  case True
  then obtain t v where tv: "pending_view E Q s (key, t) = Some v" by auto
  then have cs: "cs = [(t, v)]" using pending_on_eq(2) [OF assms(1,2)] assms(3) by simp
  note q = queue_okD [OF assms(1)]
  have valid: "pending_valid E (key, t)" using view_parts(2) [OF assms(1) tv] q(1) by simp
  note eff = delete_pending_effect [OF q(2) valid]
  let ?s' = "delete_pending E (qp Q) key t s"
  have uniq: "pending_row E (qp Q) s (key, u) = None" if "u \<noteq> t" for u
    using that tv pending_okD(4) [OF q(5), of key u t] pending_view_Some [OF assms(1), of "(key, t)"]
    by (cases "pending_row E (qp Q) s (key, u)") auto
  have rows: "pending_row E (qp Q) ?s' = (\<lambda>j. if fst j \<noteq> key then pending_row E (qp Q) s j else None)"
    "pending_index_row E (qp Q) ?s' = (\<lambda>j. if fst j \<noteq> key then pending_index_row E (qp Q) s j else None)"
    unfolding eff(3,4) pending_okD(3) [OF q(5)] using uniq by (auto simp: fun_eq_iff)
  note restrict = queue_ok_restrict [OF assms(1) eff(1), of "\<lambda>_. True", simplified, OF eff(5,6) rows]
  then show ?thesis
    using eff(2) by (auto simp: cs queue_becomes_def pending_dropped_def fun_eq_iff)
qed

lemma add_pending_effect:
  assumes "queue_ok E Q s" "key_good Q key" "time_ok t" "0 \<le> t" "exact Q w"
    and "\<forall>u. pending_view E Q s (key, u) = None"
  shows "queue_becomes E Q s (put_pending E Q key t w s)
    (votes_view E Q s) (pending_replaced (pending_view E Q s) key t w)"
proof -
  note q = queue_okD [OF assms(1)]
  have valid: "pending_valid E (key, trunc_secs t)" using assms(2-4) q(1) by (simp add: key_good_def)
  obtain s' where s': "s' = put_pending E Q key t w s" by simp
  note eff = put_pending_effect [OF q(2) valid, of w, folded s']
  have dec: "v_decode Q (v_encode Q w) = Inr w" using assms(5) by (simp add: exact_def)
  have none: "pending_row E (qp Q) s (key, u) = None" for u
    using assms(6) pending_view_Some [OF assms(1), of "(key, u)"] by simp
  have "pending_ok E Q s'"
    unfolding pending_ok_def eff(3,4) pending_okD(3) [OF q(5)]
    using pending_okD(1,2) [OF q(5)] pending_ok_unique [OF q(5)] none dec assms(2,5)
    by (auto simp: good_bytes_def split: if_splits)
  moreover have "votes_ok E Q s'" using q(4) by (simp add: votes_ok_def eff)
  ultimately have "queue_ok E Q s'" using eff(1) q(1) by (simp add: queue_ok_def)
  then show ?thesis
    unfolding s' [symmetric] using eff none dec
    by (auto simp: queue_becomes_def votes_view_def pending_view_def pending_replaced_def fun_eq_iff)
qed

lemma queue_becomesD:
  assumes "queue_becomes E Q s s' V P"
  shows "queue_ok E Q s'" "same_outside (qp Q) s s'" "votes_view E Q s' = V" "pending_view E Q s' = P"
  using assms by (simp_all add: queue_becomes_def)

lemma queue_becomes_trans:
  assumes "queue_becomes E Q s s' V P" "queue_becomes E Q s' s'' V' P'"
  shows "queue_becomes E Q s s'' V' P'"
  using assms by (auto simp: queue_becomes_def elim: same_outside_trans)

text \<open>A value that wins while the same value is pending leaves the pending change, with its timer, as it
  is; any other pending change is dropped, and the limit decides whether the new one enters.\<close>

lemma enqueue_same:
  assumes "queue_ok E Q s" "part_ok key" "votes_on E Q key s = Inr vs"
    and "pending_view E Q s (key, t) = Some w"
  obtains s' where "enqueue E Q key now vs w s = (s', Inr ())"
    "queue_becomes E Q s s' (votes_dropped (votes_view E Q s) key) (pending_view E Q s)"
proof -
  let ?s1 = "fold (delete_vote E (qp Q)) (map (\<lambda>(party, t, _). (t, key, party)) vs) s"
  note s1 = drop_votes_effect [OF assms(1-3)]
  have "pending_on E Q key ?s1 = Inr [(t, w)]"
    using pending_on_eq(2) [OF queue_becomesD(1) [OF s1] assms(2)] queue_becomesD(4) [OF s1] assms(4) by simp
  then have "enqueue E Q key now vs w s = (?s1, Inr ())" by (simp add: enqueue_def)
  then show thesis using s1 by (rule that)
qed

lemma enqueue_other:
  assumes "queue_ok E Q s" "key_good Q key" "time_ok now" "0 \<le> now" "exact Q w"
    and "votes_on E Q key s = Inr vs" "\<forall>t. pending_view E Q s (key, t) \<noteq> Some w"
  obtains s2 where
    "queue_becomes E Q s s2 (votes_dropped (votes_view E Q s) key) (pending_dropped (pending_view E Q s) key)"
    "enqueue E Q key now vs w s =
      (case limit_allows E Q key w s2 of
         Inl e \<Rightarrow> (s2, Inl e)
       | Inr go \<Rightarrow> (if go then put_pending E Q key now w s2 else s2, Inr ()))"
    "queue_becomes E Q s (put_pending E Q key now w s2)
      (votes_dropped (votes_view E Q s) key) (pending_replaced (pending_view E Q s) key now w)"
proof -
  have key: "part_ok key" using assms(2) by (simp add: key_good_def)
  let ?s1 = "fold (delete_vote E (qp Q)) (map (\<lambda>(party, t, _). (t, key, party)) vs) s"
  note s1 = drop_votes_effect [OF assms(1) key assms(6)]
  note q1 = queue_becomesD [OF s1]
  obtain cs where cs: "pending_on E Q key ?s1 = Inr cs" "w \<notin> set (map snd cs)"
  proof (cases "\<exists>t. pending_view E Q ?s1 (key, t) \<noteq> None")
    case False
    with pending_on_eq(1) [OF q1(1) key] show thesis by (intro that [of "[]"]) auto
  next
    case True
    then obtain t v where "pending_view E Q ?s1 (key, t) = Some v" by auto
    with pending_on_eq(2) [OF q1(1) key] assms(7) q1(4) show thesis by (intro that [of "[(t, v)]"]) auto
  qed
  let ?s2 = "fold (delete_pending E (qp Q) key) (map fst cs) ?s1"
  note s2 = drop_pending_effect [OF q1(1) key cs(1)]
  have b2: "queue_becomes E Q s ?s2 (votes_dropped (votes_view E Q s) key) (pending_dropped (pending_view E Q s) key)"
    using queue_becomes_trans [OF s1 s2] q1(3,4) by simp
  note q2 = queue_becomesD [OF b2]
  have "\<forall>u. pending_view E Q ?s2 (key, u) = None" unfolding q2(4) by (simp add: pending_dropped_def)
  note s3 = add_pending_effect [OF q2(1) assms(2-5) this]
  have "pending_replaced (pending_dropped P key) key now w = pending_replaced P key now w" for P
    by (simp add: pending_replaced_def pending_dropped_def fun_eq_iff)
  with queue_becomes_trans [OF b2 s3] q2(3,4)
  have b3: "queue_becomes E Q s (put_pending E Q key now w ?s2)
      (votes_dropped (votes_view E Q s) key) (pending_replaced (pending_view E Q s) key now w)" by simp
  have "enqueue E Q key now vs w s =
      (case limit_allows E Q key w ?s2 of
         Inl e \<Rightarrow> (?s2, Inl e)
       | Inr go \<Rightarrow> (if go then put_pending E Q key now w ?s2 else ?s2, Inr ()))"
    using cs by (auto simp: enqueue_def lift_res_def split: sum.splits)
  with b2 show thesis using b3 by (rule that)
qed

text \<open>The two outcomes of \<open>cast\<close>: below the quorum only the vote is recorded; otherwise some value with a
  quorum is enqueued.\<close>

lemma cast_effect:
  assumes "queue_ok E Q s" "\<forall>t. set (tally_order Q t) = set t"
    and "castable E Q (key_to_string Q (vote_key vt)) (vote_party vt) (vote_time vt) (vote_value vt) w"
  defines "key \<equiv> key_to_string Q (vote_key vt)"
  defines "V \<equiv> recorded (votes_view E Q s) key (vote_party vt) (vote_time vt) w"
  obtains
    (below) s' where "cast E Q vt s = (s', Inr ())" "queue_becomes E Q s s' V (pending_view E Q s)"
      "\<forall>v. (\<exists>q t. V (key, q, t) = Some v) \<longrightarrow> support V key v < unat (quorum (q_config Q))"
  | (quorum) s' vs win where "cast E Q vt s = enqueue E Q key (vote_time vt) vs win s'"
      "queue_becomes E Q s s' V (pending_view E Q s)" "votes_on E Q key s' = Inr vs"
      "unat (quorum (q_config Q)) \<le> support V key win" "\<exists>q t. V (key, q, t) = Some win" "exact Q win"
proof -
  have key: "part_ok key" using assms(3) by (simp add: castable_def key_good_def key_def)
  obtain s' where s': "record_vote E Q key (vote_party vt) (vote_time vt) (vote_value vt) s = (s', Inr ())"
    "queue_becomes E Q s s' V (pending_view E Q s)"
    unfolding V_def recorded_def by (rule record_vote_effect [OF assms(1) assms(3) [folded key_def]])
  note q' = queue_becomesD [OF s'(2)]
  obtain vs where vs: "votes_on E Q key s' = Inr vs" by (rule votes_on_eq [OF q'(1) key])
  note count = count_votes(1,2) [OF q'(1) key vs, unfolded q'(3)]
  let ?vals = "map (\<lambda>(_, _, v). v) vs"
  have cast: "cast E Q vt s = (case winner Q ?vals of None \<Rightarrow> (s', Inr ())
      | Some win \<Rightarrow> enqueue E Q key (vote_time vt) vs win s')"
    by (simp add: cast_def Let_def s'(1) vs flip: key_def)
  show thesis
  proof (cases "winner Q ?vals")
    case None
    then have "\<forall>v \<in> set ?vals. count_list ?vals v < unat (quorum (q_config Q))"
      using winner_eq(1) [OF assms(2)] by metis
    then have "\<forall>v. (\<exists>q t. V (key, q, t) = Some v) \<longrightarrow> support V key v < unat (quorum (q_config Q))"
      using count(1) count(2) [symmetric] by metis
    with cast None s'(2) show thesis by (intro below [of s']) auto
  next
    case (Some win)
    then have win: "win \<in> set ?vals" "unat (quorum (q_config Q)) \<le> count_list ?vals win"
      using winner_eq(2) [OF assms(2)] by blast+
    then obtain q t where qt: "V (key, q, t) = Some win" using count(2) by blast
    then have "votes_view E Q s' (key, q, t) = Some win" by (simp add: q'(3))
    moreover from this obtain b where b: "vote_row E (qp Q) s' (key, q, t) = Some b"
      by (auto simp: votes_view_def split: option.splits)
    ultimately have "exact Q win" using vote_row_decodes [OF q'(1) b] by (metis option.inject)
    with cast Some s'(2) vs win(2) qt count(1) show thesis by (intro quorum [of vs win s']) auto
  qed
qed

end
