(* ===== verification/Queue_Instances.thy ===== *)
theory Queue_Instances
  imports Queue_Ops
begin

text \<open>
  The oracle and the admin queue meet what \<open>Queue_Ops\<close> asks of a queue: their values are stored
  exactly, their keys fit in a key, and neither touches the other. The voting configuration of a queue
  plays no part in its invariant.
\<close>

lemma oracle_queue_sel [simp]:
  "internal_state_prefix (oracle_queue E c) = ''oracle_voting/''" "q_config (oracle_queue E c) = c"
  "key_to_string (oracle_queue E c) = pod_display" "key_try_from (oracle_queue E c) = pod_try_from E"
  "v_encode (oracle_queue E c) = ovv_encode E" "v_decode (oracle_queue E c) = ovv_decode E"
  "tally_order (oracle_queue E c) = oracle_tally_order E"
  by (simp_all add: oracle_queue_def)

lemma admin_queue_sel [simp]:
  "internal_state_prefix (admin_queue E c) = ''admin_voting/''" "q_config (admin_queue E c) = c"
  "key_to_string (admin_queue E c) = empty_display" "key_try_from (admin_queue E c) = empty_from_str"
  "v_encode (admin_queue E c) = config_encode E" "v_decode (admin_queue E c) = config_decode E"
  "tally_order (admin_queue E c) = config_tally_order E"
  by (simp_all add: admin_queue_def)

lemma queue_ok_any_config:
  "queue_ok E (oracle_queue E c) s \<Longrightarrow> queue_ok E (oracle_queue E c') s"
  "queue_ok E (admin_queue E c) s \<Longrightarrow> queue_ok E (admin_queue E c') s"
  by (simp_all add: queue_ok_def votes_ok_def pending_ok_def key_good_def good_bytes_def exact_def)

lemma views_any_config:
  "votes_view E (oracle_queue E c) s = votes_view E (oracle_queue E c') s"
  "pending_view E (oracle_queue E c) s = pending_view E (oracle_queue E c') s"
  "votes_view E (admin_queue E c) s = votes_view E (admin_queue E c') s"
  "pending_view E (admin_queue E c) s = pending_view E (admin_queue E c') s"
  by (auto simp: fun_eq_iff votes_view_def pending_view_def split: option.splits)

section \<open>Values\<close>

lemma ovv_decode_ok:
  assumes "env_ok E" "ovv_decode E b = Inr w"
  shows "oracle_vote_value_ok E w"
  using assms
  by (auto simp: ovv_decode_def domain_decode_def oracle_vote_value_try_from_def oracle_vote_value_ok_def
      hash_observed_try_from_def res_simps intro: env_fqdn_from_str_valid split: if_splits)

lemma codec_ok_queues:
  assumes "env_ok E"
  shows "codec_ok E (oracle_queue E c)" "codec_ok E (admin_queue E c)"
  using assms
  by (auto simp: codec_ok_def exact_def unit_codec config_codec intro: ovv_codec ovv_decode_ok)

lemma tally_order_queues:
  assumes "env_ok E"
  shows "\<forall>t. set (tally_order (oracle_queue E c) t) = set t" "\<forall>t. set (tally_order (admin_queue E c) t) = set t"
  using assms by (auto simp: env_oracle_order env_config_order)

section \<open>Keys\<close>

lemma set_join: "set (join sep xs) \<subseteq> set sep \<union> \<Union> (set ` set xs)"
  by (induction sep xs rule: join.induct) auto

lemma pod_display_part:
  assumes "env_ok E" "fqdn_valid E (pod_name p)"
  shows "part_ok (pod_display p)"
proof -
  have "\<forall>l \<in> set (pod_name p). ascii l \<and> CHR ''/'' \<notin> set l"
    using assms env_label_ok by (auto simp: label_ok_def)
  moreover have "ascii ''.''" by (simp add: ascii_def)
  ultimately show ?thesis
    using set_join [of "''.''" "rev (pod_name p)"]
    by (auto simp: part_ok_def pod_display_def fqdn_labels_def ascii_def)
qed

lemma key_good_oracle:
  assumes "env_ok E" "fqdn_valid E (pod_name p)"
  shows "key_good (oracle_queue E c) (pod_display p)"
  using assms pod_display_part pod_conv.conv [of E p] by (auto simp: key_good_def)

lemma key_good_admin: "key_good (admin_queue E c) []"
  by (simp add: key_good_def part_ok_def ascii_def empty_from_str_def empty_display_def)

lemma part_ok_hex: "env_ok E \<Longrightarrow> part_ok (hex_encode E b)"
  by (simp add: part_ok_def env_hex_ascii env_hex_no_slash)

lemma empty_display_Nil [simp]: "empty_display u = []"
  by (simp add: empty_display_def)

section \<open>Apart from each other and from the parameters\<close>

lemma queue_prefixes [simp]:
  "queue_prefix ''oracle_voting/'' = ''oracle_voting''" "queue_prefix ''admin_voting/'' = ''admin_voting''"
  by (simp_all add: queue_prefix_def strip_suffix_def suffix_def)

lemma queues_disjoint: "disjoint_queues ''oracle_voting/'' ''admin_voting/''"
  "disjoint_queues ''admin_voting/'' ''oracle_voting/''"
  by (rule disjoint_queuesI; simp)+

lemma parameter_keys_outside:
  assumes "p = ''oracle_voting/'' \<or> p = ''admin_voting/''"
  shows "\<not> queue_key p (''parameters/'' @ k)" "\<not> queue_key p (''current/'' @ k)"
    "\<not> queue_key p (''blocktime/'' @ k)" "\<not> queue_key p (''apphash/'' @ k)"
  using assms by (auto simp: queue_key_def)

text \<open>\<open>cast\<close> keeps the invariant and the pending changes of the other keys whatever it returns.\<close>

lemma cast_frame:
  assumes "queue_ok E Q s" "\<forall>t. set (tally_order Q t) = set t"
    and "castable E Q (key_to_string Q (vote_key vt)) (vote_party vt) (vote_time vt) (vote_value vt) w"
  shows "queue_ok E Q (fst (cast E Q vt s)) \<and> same_outside (qp Q) s (fst (cast E Q vt s)) \<and>
    (\<forall>k t. k \<noteq> key_to_string Q (vote_key vt) \<longrightarrow>
      pending_view E Q (fst (cast E Q vt s)) (k, t) = pending_view E Q s (k, t))"
proof (rule cast_effect [OF assms])
  fix s' vs win
  let ?key = "key_to_string Q (vote_key vt)"
  assume cast: "cast E Q vt s = enqueue E Q ?key (vote_time vt) vs win s'"
    and s': "queue_becomes E Q s s' (recorded (votes_view E Q s) ?key (vote_party vt) (vote_time vt) w)
      (pending_view E Q s)"
    and vs: "votes_on E Q ?key s' = Inr vs" and win: "exact Q win"
  have key: "key_good Q ?key" "part_ok ?key" "time_ok (vote_time vt)" "0 \<le> vote_time vt"
    using assms(3) by (auto simp: castable_def key_good_def)
  note q' = queue_becomesD [OF s']
  show ?thesis
  proof (cases "\<exists>t. pending_view E Q s' (?key, t) = Some win")
    case True
    then obtain t where t: "pending_view E Q s' (?key, t) = Some win" ..
    show ?thesis
      by (rule enqueue_same [OF q'(1) key(2) vs t, of "vote_time vt"])
        (use cast s' in \<open>auto simp: queue_becomes_def elim: same_outside_trans\<close>)
  next
    case False
    then have f: "\<forall>t. pending_view E Q s' (?key, t) \<noteq> Some win" by blast
    show ?thesis
      by (rule enqueue_other [OF q'(1) key(1,3,4) win vs f])
        (use cast s' in \<open>auto simp: queue_becomes_def pending_dropped_def pending_replaced_def
          elim: same_outside_trans split: sum.splits\<close>)
  qed
qed (auto simp: queue_becomes_def)

lemma cast_invariant:
  assumes "queue_ok E Q s" "\<forall>t. set (tally_order Q t) = set t"
    and "castable E Q (key_to_string Q (vote_key vt)) (vote_party vt) (vote_time vt) (vote_value vt) w"
  shows "queue_ok E Q (fst (cast E Q vt s)) \<and> same_outside (qp Q) s (fst (cast E Q vt s))"
  using cast_frame [OF assms] by blast

end
