(* ===== verification/Sign.thy ===== *)
theory Sign
  imports Convert_Tx
begin

text \<open>
  Signing and verifying transactions: \<open>crates/felidae-proto/src/transaction/sign.rs\<close> and
  \<open>sign/signer.rs\<close>, over the traversal of \<open>crates/felidae-traverse\<close> and the authenticated
  transactions of \<open>felidae-types/src/transaction/authenticated.rs\<close>. The closures passed to the
  traversal only act on \<open>Signature\<close> nodes (the others fail the \<open>downcast\<close>), so the model calls its
  visitor on those, in the order the derived traversal reaches them.
\<close>

section \<open>Traversal\<close>

fun traverse_mut_option :: "('x \<Rightarrow> 's \<Rightarrow> 'x \<times> 's) \<Rightarrow> 'x option \<Rightarrow> 's \<Rightarrow> 'x option \<times> 's" where
  "traverse_mut_option f None s = (None, s)"
| "traverse_mut_option f (Some x) s = (let (x', s') = f x s in (Some x', s'))"

fun traverse_mut_vec :: "('x \<Rightarrow> 's \<Rightarrow> 'x \<times> 's) \<Rightarrow> 'x list \<Rightarrow> 's \<Rightarrow> 'x list \<times> 's" where
  "traverse_mut_vec f [] s = ([], s)"
| "traverse_mut_vec f (x # xs) s =
     (let (x', s') = f x s; (xs', s'') = traverse_mut_vec f xs s' in (x' # xs', s''))"

definition reconfigure_traverse_mut ::
  "(p_signature \<Rightarrow> 's \<Rightarrow> p_signature \<times> 's) \<Rightarrow> p_reconfigure \<Rightarrow> 's \<Rightarrow> p_reconfigure \<times> 's" where
  "reconfigure_traverse_mut f r s =
     (let (sg, s') = traverse_mut_option f (pr_signature r) s
      in (PReconfigure sg (pr_config r) (pr_not_before r) (pr_not_after r), s'))"

definition observe_traverse_mut ::
  "(p_signature \<Rightarrow> 's \<Rightarrow> p_signature \<times> 's) \<Rightarrow> p_observe \<Rightarrow> 's \<Rightarrow> p_observe \<times> 's" where
  "observe_traverse_mut f ob s =
     (let (sg, s') = traverse_mut_option f (pobs_signature ob) s
      in (PObserve sg (pobs_observation ob), s'))"

fun action_kind_traverse_mut ::
  "(p_signature \<Rightarrow> 's \<Rightarrow> p_signature \<times> 's) \<Rightarrow> p_action_kind \<Rightarrow> 's \<Rightarrow> p_action_kind \<times> 's" where
  "action_kind_traverse_mut f (PAReconfigure r) s =
     (let (r', s') = reconfigure_traverse_mut f r s in (PAReconfigure r', s'))"
| "action_kind_traverse_mut f (PAObserve ob) s =
     (let (ob', s') = observe_traverse_mut f ob s in (PAObserve ob', s'))"

definition action_traverse_mut ::
  "(p_signature \<Rightarrow> 's \<Rightarrow> p_signature \<times> 's) \<Rightarrow> p_action \<Rightarrow> 's \<Rightarrow> p_action \<times> 's" where
  "action_traverse_mut f a s =
     (let (k, s') = traverse_mut_option (action_kind_traverse_mut f) (pact_action a) s
      in (PAction k, s'))"

definition transaction_traverse_mut ::
  "(p_signature \<Rightarrow> 's \<Rightarrow> p_signature \<times> 's) \<Rightarrow> p_transaction \<Rightarrow> 's \<Rightarrow> p_transaction \<times> 's" where
  "transaction_traverse_mut f tx s =
     (let (acts, s') = traverse_mut_vec (action_traverse_mut f) (ptx_actions tx) s
      in (PTransaction (ptx_chain_id tx) acts, s'))"

text \<open>The traversal by reference is the one by mutable reference with a visitor that changes nothing.\<close>

definition transaction_traverse ::
  "(p_signature \<Rightarrow> 's \<Rightarrow> 's) \<Rightarrow> p_transaction \<Rightarrow> 's \<Rightarrow> 's" where
  "transaction_traverse f tx s = snd (transaction_traverse_mut (\<lambda>sg s. (sg, f sg s)) tx s)"

section \<open>Hashing, signing, verifying\<close>

definition clear_signature :: "p_signature \<Rightarrow> p_signature" where
  "clear_signature sg = PSignature (ps_public_key sg) []"

definition unsign_all :: "p_transaction \<Rightarrow> p_transaction" where
  "unsign_all tx = fst (transaction_traverse_mut (\<lambda>sg s. (clear_signature sg, s)) tx ())"

definition tx_hash :: "env \<Rightarrow> p_transaction \<Rightarrow> bytes" where
  "tx_hash E tx = sha256 E (encode (msg_transaction E) (unsign_all tx))"

type_synonym signer = "bytes \<Rightarrow> bytes \<Rightarrow> bytes option"

definition sign_visit ::
  "signer \<Rightarrow> bytes \<Rightarrow> p_signature \<Rightarrow> sign_error + unit \<Rightarrow> p_signature \<times> (sign_error + unit)" where
  "sign_visit sign_with digest sg result =
     (if ps_signature sg = [] then
        (case sign_with (ps_public_key sg) digest of
           Some b \<Rightarrow> (PSignature (ps_public_key sg) b, result)
         | None \<Rightarrow> (sg, Inl MissingKeypair))
      else (sg, Inl AlreadySigned))"

definition sign_all :: "env \<Rightarrow> signer \<Rightarrow> p_transaction \<Rightarrow> sign_error + p_transaction" where
  "sign_all E sign_with tx =
     (let digest = tx_hash E tx;
          (tx', result) = transaction_traverse_mut (sign_visit sign_with digest) tx (Inr ())
      in ebind result (\<lambda>_. Inr tx'))"

definition verify :: "env \<Rightarrow> bytes \<Rightarrow> bytes \<Rightarrow> bytes \<Rightarrow> bool" where
  "verify E public_key signature digest =
     (if length signature \<noteq> 64 then False
      else case p256_signature_from_bytes E signature of None \<Rightarrow> False
      | Some sg \<Rightarrow> (case p256_encoded_point E public_key of None \<Rightarrow> False
      | Some pt \<Rightarrow> (case p256_verifying_key E pt of None \<Rightarrow> False
      | Some vk \<Rightarrow> p256_verify E vk digest sg)))"

definition verify_all :: "env \<Rightarrow> p_transaction \<Rightarrow> verify_error + p_transaction" where
  "verify_all E tx =
     (let digest = tx_hash E tx;
          result = transaction_traverse
            (\<lambda>sg r. if \<not> verify E (ps_public_key sg) (ps_signature sg) digest then Inl VerifyError else r)
            tx (Inr ())
      in ebind result (\<lambda>_. Inr tx))"

definition authenticate_from_proto :: "env \<Rightarrow> bytes \<Rightarrow> verify_error + p_transaction" where
  "authenticate_from_proto E buf =
     ebind (ok_or VerifyError (decode (msg_transaction E) buf)) (\<lambda>tx.
     ebind (verify_all E tx) (\<lambda>tx. Inr (unsign_all tx)))"

definition authenticate_from_json :: "env \<Rightarrow> string \<Rightarrow> verify_error + p_transaction" where
  "authenticate_from_json E s =
     ebind (ok_or VerifyError (json_to_transaction E s)) (\<lambda>tx.
     ebind (verify_all E tx) (\<lambda>tx. Inr (unsign_all tx)))"

definition sign_to_proto :: "env \<Rightarrow> signer \<Rightarrow> p_transaction \<Rightarrow> sign_error + bytes" where
  "sign_to_proto E sign_with tx =
     ebind (sign_all E sign_with tx) (\<lambda>tx. Inr (encode (msg_transaction E) tx))"

definition sign_to_json :: "env \<Rightarrow> signer \<Rightarrow> p_transaction \<Rightarrow> sign_error + string" where
  "sign_to_json E sign_with tx =
     ebind (sign_all E sign_with tx) (\<lambda>tx. ok_or AlreadySigned (json_of_transaction E tx))"

section \<open>Key pairs\<close>

datatype keypair = KeyPair (kp_signing_key: bytes)

definition keypair_public_key :: "env \<Rightarrow> keypair \<Rightarrow> bytes" where
  "keypair_public_key E kp = p256_public_key E (kp_signing_key kp)"

definition keypair_sign_with :: "env \<Rightarrow> keypair \<Rightarrow> signer" where
  "keypair_sign_with E kp public_key digest =
     (if keypair_public_key E kp = public_key then Some (p256_sign E (kp_signing_key kp) digest) else None)"

type_synonym keypairs = "bytes \<rightharpoonup> keypair"

definition keypairs_new :: keypairs where "keypairs_new = Map.empty"

definition keypairs_insert :: "env \<Rightarrow> keypair \<Rightarrow> keypairs \<Rightarrow> keypairs" where
  "keypairs_insert E kp ks = ks(keypair_public_key E kp \<mapsto> kp)"

definition keypairs_remove :: "bytes \<Rightarrow> keypairs \<Rightarrow> bool \<times> keypairs" where
  "keypairs_remove public_key ks = (ks public_key \<noteq> None, ks(public_key := None))"

definition keypairs_from_iter :: "env \<Rightarrow> keypair list \<Rightarrow> keypairs" where
  "keypairs_from_iter E kps = fold (keypairs_insert E) kps keypairs_new"

definition keypairs_sign_with :: "env \<Rightarrow> keypairs \<Rightarrow> signer" where
  "keypairs_sign_with E ks public_key digest =
     (case ks public_key of None \<Rightarrow> None | Some kp \<Rightarrow> keypair_sign_with E kp public_key digest)"

section \<open>Authenticated transactions\<close>

text \<open>A \<open>VerifyError\<close> becomes a \<open>ParseError\<close> for the signature.\<close>

definition parse_error_of_verify :: "verify_error + 'a \<Rightarrow> error + 'a" where
  "parse_error_of_verify r = (case r of Inl _ \<Rightarrow> Inl (ParseError TSignature) | Inr x \<Rightarrow> Inr x)"

definition authenticated_from_proto :: "env \<Rightarrow> bytes \<Rightarrow> error + transaction" where
  "authenticated_from_proto E buf =
     ebind (parse_error_of_verify (authenticate_from_proto E buf)) (transaction_try_from E)"

definition authenticated_from_json :: "env \<Rightarrow> string \<Rightarrow> error + transaction" where
  "authenticated_from_json E s =
     ebind (parse_error_of_verify (authenticate_from_json E s)) (transaction_try_from E)"

definition transaction_sign_to_proto :: "env \<Rightarrow> signer \<Rightarrow> transaction \<Rightarrow> sign_error + bytes" where
  "transaction_sign_to_proto E sign_with tx = sign_to_proto E sign_with (transaction_to_proto E tx)"

definition transaction_sign_to_json :: "env \<Rightarrow> signer \<Rightarrow> transaction \<Rightarrow> sign_error + string" where
  "transaction_sign_to_json E sign_with tx = sign_to_json E sign_with (transaction_to_proto E tx)"

section \<open>The signatures of a transaction\<close>

text \<open>The abstract view of the traversal: the signatures in the order they are visited, and the
  transaction with every signature mapped.\<close>

fun kind_signature :: "p_action_kind \<Rightarrow> p_signature option" where
  "kind_signature (PAReconfigure r) = pr_signature r"
| "kind_signature (PAObserve ob) = pobs_signature ob"

fun kind_map :: "(p_signature \<Rightarrow> p_signature) \<Rightarrow> p_action_kind \<Rightarrow> p_action_kind" where
  "kind_map g (PAReconfigure r) =
     PAReconfigure (PReconfigure (map_option g (pr_signature r)) (pr_config r) (pr_not_before r)
       (pr_not_after r))"
| "kind_map g (PAObserve ob) = PAObserve (PObserve (map_option g (pobs_signature ob)) (pobs_observation ob))"

definition action_signatures :: "p_action \<Rightarrow> p_signature list" where
  "action_signatures a =
     (case pact_action a of None \<Rightarrow> [] | Some k \<Rightarrow> (case kind_signature k of None \<Rightarrow> [] | Some sg \<Rightarrow> [sg]))"

definition tx_signatures :: "p_transaction \<Rightarrow> p_signature list" where
  "tx_signatures tx = concat (map action_signatures (ptx_actions tx))"

definition action_map :: "(p_signature \<Rightarrow> p_signature) \<Rightarrow> p_action \<Rightarrow> p_action" where
  "action_map g a = PAction (map_option (kind_map g) (pact_action a))"

definition tx_map :: "(p_signature \<Rightarrow> p_signature) \<Rightarrow> p_transaction \<Rightarrow> p_transaction" where
  "tx_map g tx = PTransaction (ptx_chain_id tx) (map (action_map g) (ptx_actions tx))"

text \<open>A visitor whose change to a signature does not depend on its state maps every signature and
  folds its state over them.\<close>

lemma kind_traverse:
  assumes "\<And>sg s. f sg s = (g sg, h sg s)"
  shows "action_kind_traverse_mut f k s =
    (kind_map g k, fold h (case kind_signature k of None \<Rightarrow> [] | Some sg \<Rightarrow> [sg]) s)"
proof (cases k)
  case (PAReconfigure r)
  with assms show ?thesis by (cases "pr_signature r") (auto simp: reconfigure_traverse_mut_def)
next
  case (PAObserve ob)
  with assms show ?thesis by (cases "pobs_signature ob") (auto simp: observe_traverse_mut_def)
qed

lemma action_traverse:
  assumes "\<And>sg s. f sg s = (g sg, h sg s)"
  shows "action_traverse_mut f a s = (action_map g a, fold h (action_signatures a) s)"
  by (cases "pact_action a")
    (auto simp: action_traverse_mut_def action_map_def action_signatures_def kind_traverse [OF assms])

lemma transaction_traverse_mut_eq:
  assumes "\<And>sg s. f sg s = (g sg, h sg s)"
  shows "transaction_traverse_mut f tx s = (tx_map g tx, fold h (tx_signatures tx) s)"
proof -
  have "traverse_mut_vec (action_traverse_mut f) acts s
      = (map (action_map g) acts, fold h (concat (map action_signatures acts)) s)" for acts
    by (induction acts arbitrary: s) (auto simp: action_traverse [OF assms])
  then show ?thesis by (simp add: transaction_traverse_mut_def tx_map_def tx_signatures_def)
qed

lemma kind_signature_map: "kind_signature (kind_map g k) = map_option g (kind_signature k)"
  by (cases k) auto

lemma action_signatures_map: "action_signatures (action_map g a) = map g (action_signatures a)"
  by (auto simp: action_signatures_def action_map_def kind_signature_map split: option.splits)

lemma tx_signatures_map [simp]: "tx_signatures (tx_map g tx) = map g (tx_signatures tx)"
  by (simp add: tx_signatures_def tx_map_def map_concat comp_def action_signatures_map)

lemma kind_map_comp: "kind_map g (kind_map g' k) = kind_map (\<lambda>x. g (g' x)) k"
  by (cases k) (auto simp: option.map_comp comp_def)

lemma tx_map_comp [simp]: "tx_map g (tx_map g' tx) = tx_map (\<lambda>x. g (g' x)) tx"
  by (simp add: tx_map_def action_map_def comp_def option.map_comp kind_map_comp)

lemma kind_map_cong: "(\<And>sg. kind_signature k = Some sg \<Longrightarrow> g sg = g' sg) \<Longrightarrow> kind_map g k = kind_map g' k"
  by (cases k) (auto intro: option.map_cong)

lemma action_map_cong:
  assumes "\<And>sg. sg \<in> set (action_signatures a) \<Longrightarrow> g sg = g' sg"
  shows "action_map g a = action_map g' a"
proof -
  have "kind_map g k = kind_map g' k" if "pact_action a = Some k" for k
    using that assms by (intro kind_map_cong) (auto simp: action_signatures_def)
  then show ?thesis by (auto simp: action_map_def intro: option.map_cong)
qed

lemma tx_map_cong:
  assumes "\<And>sg. sg \<in> set (tx_signatures tx) \<Longrightarrow> g sg = g' sg"
  shows "tx_map g tx = tx_map g' tx"
proof -
  have "action_map g a = action_map g' a" if "a \<in> set (ptx_actions tx)" for a
    using that assms by (intro action_map_cong) (auto simp: tx_signatures_def)
  then show ?thesis by (simp add: tx_map_def)
qed

lemma kind_map_id [simp]: "kind_map (\<lambda>x. x) = (\<lambda>k. k)"
proof
  show "kind_map (\<lambda>x. x) k = k" for k by (cases k) (auto simp: option.map_ident)
qed

lemma action_map_id [simp]: "action_map (\<lambda>x. x) = (\<lambda>a. a)"
  by (rule ext) (simp add: action_map_def option.map_ident)

lemma tx_map_id: "tx_map (\<lambda>x. x) tx = tx"
  by (cases tx) (simp add: tx_map_def)

lemma clear_signature_idem [simp]: "clear_signature (clear_signature sg) = clear_signature sg"
  by (simp add: clear_signature_def)

lemma unsign_all_eq: "unsign_all tx = tx_map clear_signature tx"
  by (simp add: unsign_all_def transaction_traverse_mut_eq [where g = clear_signature and h = "\<lambda>_ s. s"])

lemma unsign_all_idem [simp]: "unsign_all (unsign_all tx) = unsign_all tx"
  by (simp add: unsign_all_eq)

lemma tx_hash_unsign [simp]: "tx_hash E (unsign_all tx) = tx_hash E tx"
  by (simp add: tx_hash_def)

lemma fold_error_sticky:
  "fold (\<lambda>x r. if P x then Inl e else r) xs r = (if \<exists>x \<in> set xs. P x then Inl e else r)"
  by (induction xs arbitrary: r) auto

lemma verify_all_eq:
  "verify_all E tx =
    (if \<forall>sg \<in> set (tx_signatures tx). verify E (ps_public_key sg) (ps_signature sg) (tx_hash E tx)
     then Inr tx else Inl VerifyError)"
proof -
  have "transaction_traverse (\<lambda>sg r. if P sg then Inl VerifyError else r) tx (Inr ())
      = (if \<exists>sg \<in> set (tx_signatures tx). P sg then Inl VerifyError else Inr ())" for P
  proof -
    have "transaction_traverse_mut (\<lambda>sg s. (sg, if P sg then Inl VerifyError else s)) tx (Inr ())
        = (tx_map (\<lambda>x. x) tx,
           fold (\<lambda>sg r. if P sg then Inl VerifyError else r) (tx_signatures tx) (Inr ()))"
      by (rule transaction_traverse_mut_eq) simp
    then show ?thesis by (simp add: transaction_traverse_def fold_error_sticky)
  qed
  then show ?thesis by (auto simp: verify_all_def Let_def)
qed

text \<open>What the signer does to one signature, and whether it can.\<close>

definition signed :: "signer \<Rightarrow> bytes \<Rightarrow> p_signature \<Rightarrow> p_signature" where
  "signed sign_with digest sg = fst (sign_visit sign_with digest sg (Inr ()))"

definition can_sign :: "signer \<Rightarrow> bytes \<Rightarrow> p_signature \<Rightarrow> bool" where
  "can_sign sign_with digest sg = (ps_signature sg = [] \<and> sign_with (ps_public_key sg) digest \<noteq> None)"

lemma sign_visit_eq:
  "sign_visit sw d sg r = (signed sw d sg, snd (sign_visit sw d sg r))"
  by (auto simp: sign_visit_def signed_def split: option.splits)

lemma fold_sign_ok:
  "is_ok (fold (\<lambda>sg r. snd (sign_visit sw d sg r)) sgs r) = (is_ok r \<and> (\<forall>sg \<in> set sgs. can_sign sw d sg))"
proof (induction sgs arbitrary: r)
  case (Cons sg sgs)
  have "is_ok (snd (sign_visit sw d sg r)) = (is_ok r \<and> can_sign sw d sg)"
    by (auto simp: sign_visit_def can_sign_def split: option.splits)
  with Cons show ?case by auto
qed simp

lemma is_ok_cases: "is_ok r = (\<exists>x. r = Inr x)"
  by (cases r) auto

lemma sign_all_Inr:
  "(sign_all E sw tx = Inr tx') =
    ((\<forall>sg \<in> set (tx_signatures tx). can_sign sw (tx_hash E tx) sg) \<and>
     tx' = tx_map (signed sw (tx_hash E tx)) tx)"
proof -
  let ?r = "fold (\<lambda>sg r. snd (sign_visit sw (tx_hash E tx) sg r)) (tx_signatures tx) (Inr ())"
  have "sign_all E sw tx = ebind ?r (\<lambda>_. Inr (tx_map (signed sw (tx_hash E tx)) tx))"
    by (simp add: sign_all_def Let_def transaction_traverse_mut_eq [OF sign_visit_eq])
  moreover have "(\<exists>u. ?r = Inr u) = (\<forall>sg \<in> set (tx_signatures tx). can_sign sw (tx_hash E tx) sg)"
    using fold_sign_ok [of sw "tx_hash E tx" "tx_signatures tx" "Inr ()"] by (simp add: is_ok_cases)
  ultimately show ?thesis by (auto simp: res_simps)
qed

lemma clear_signed: "clear_signature (signed sw d sg) = clear_signature sg"
  by (auto simp: signed_def sign_visit_def clear_signature_def split: option.splits)

lemma unsign_signed: "unsign_all (tx_map (signed sw d) tx) = unsign_all tx"
  by (simp add: unsign_all_eq clear_signed)

lemma tx_hash_signed: "tx_hash E (tx_map (signed sw d) tx) = tx_hash E tx"
  by (simp add: tx_hash_def unsign_signed)

text \<open>A signer is sound when what it signs verifies under the key it was asked for.\<close>

definition signer_sound :: "env \<Rightarrow> signer \<Rightarrow> bool" where
  "signer_sound E sw = (\<forall>pk d sg. sw pk d = Some sg \<longrightarrow> verify E pk sg d)"

text \<open>Documented behaviour of ECDSA: a signature verifies under the public key of its signing key.\<close>

definition ecdsa_correct :: "env \<Rightarrow> bool" where
  "ecdsa_correct E = (\<forall>sk d. verify E (p256_public_key E sk) (p256_sign E sk d) d)"

lemma keypair_signer_sound: "ecdsa_correct E \<Longrightarrow> signer_sound E (keypair_sign_with E kp)"
  by (auto simp: signer_sound_def keypair_sign_with_def keypair_public_key_def ecdsa_correct_def
      split: if_splits)

lemma keypairs_signer_sound: "ecdsa_correct E \<Longrightarrow> signer_sound E (keypairs_sign_with E ks)"
  using keypair_signer_sound
  by (fastforce simp: signer_sound_def keypairs_sign_with_def split: option.splits)

lemma signed_verifies:
  assumes "signer_sound E sw" "can_sign sw d sg"
  shows "verify E (ps_public_key (signed sw d sg)) (ps_signature (signed sw d sg)) d"
  using assms by (auto simp: signer_sound_def can_sign_def signed_def sign_visit_def)

lemma sign_all_verifies:
  assumes "signer_sound E sw" "sign_all E sw tx = Inr tx'"
  shows "verify_all E tx' = Inr tx'"
proof -
  from assms(2) have tx': "tx' = tx_map (signed sw (tx_hash E tx)) tx"
    and can: "\<forall>sg \<in> set (tx_signatures tx). can_sign sw (tx_hash E tx) sg"
    by (simp_all add: sign_all_Inr)
  then show ?thesis
    using signed_verifies [OF assms(1)] by (auto simp: verify_all_eq tx_hash_signed)
qed

lemma authenticate_from_proto_Inr:
  assumes "authenticate_from_proto E buf = Inr tx'"
  obtains tx where "decode (msg_transaction E) buf = Some tx" "tx' = unsign_all tx"
    "\<forall>sg \<in> set (tx_signatures tx). verify E (ps_public_key sg) (ps_signature sg) (tx_hash E tx)"
  using assms by (auto simp: authenticate_from_proto_def res_simps verify_all_eq split: if_splits)

end
