(* ===== verification/Actions.thy ===== *)
theory Actions
  imports Vote_Queue Sign
begin

text \<open>
  The actions of a transaction, \<open>crates/felidae-state/src/state/action/observe.rs\<close> and
  \<open>reconfigure.rs\<close>, and the delivery of a transaction, \<open>state/abci/deliver_tx.rs\<close>. The guards are
  functions of the contents that fail at the source's bail sites, in its order; what passes them is
  cast as a vote.
\<close>

section \<open>Observations\<close>

definition is_current_oracle :: "config \<Rightarrow> oracle_identity \<Rightarrow> bool" where
  "is_current_oracle c orc = list_ex (\<lambda>e. or_identity e = oid_identity orc) (o_authorized (oracles c))"

text \<open>The height of the block before, cut to 32 bits by \<open>as u32\<close>.\<close>

definition previous_block_height :: "height \<Rightarrow> height" where
  "previous_block_height h = ucast (ucast (if h = 0 then 0 else h - 1) :: u32)"

definition check_blockstamp :: "env \<Rightarrow> config \<Rightarrow> blockstamp \<Rightarrow> contents \<Rightarrow> error + time" where
  "check_blockstamp E current b s =
    ebind (block_height E s) (\<lambda>current_height.
    ebind (check (\<not> current_height < blockstamp.block_height b) BlockstampInFuture) (\<lambda>_.
    ebind (block_time E s) (\<lambda>current_time.
    ebind (time_of_block E (blockstamp.block_height b) s) (\<lambda>observed_at.
    ebind (ok_or TimeBeforeBlock (duration_since current_time observed_at)) (\<lambda>age.
    ebind (check (\<not> observation_timeout (oracles current) \<le> age) BlockstampTooOld) (\<lambda>_.
    ebind (previous_app_hash E (previous_block_height (blockstamp.block_height b)) s) (\<lambda>recorded.
    ebind (check (recorded = bs_app_hash b) AppHashMismatch) (\<lambda>_.
    Inr current_time))))))))"

definition check_domain :: "fqdn \<Rightarrow> fqdn \<Rightarrow> error + prefix_order_domain" where
  "check_domain d z =
    ebind (check (d \<noteq> z) DomainEqualsZone) (\<lambda>_.
    ebind (check (fqdn_is_subdomain_of d z) DomainNotUnderZone) (\<lambda>_.
    registered_domain d z))"

definition check_enrollment ::
  "env \<Rightarrow> prefix_order_domain \<Rightarrow> prefix_order_domain \<Rightarrow> hash_observed \<Rightarrow> contents \<Rightarrow> error + unit" where
  "check_enrollment E subdomain registered observed s =
    ebind (canonical_hash E (domain_of_pod subdomain) s) (\<lambda>h.
    if h \<noteq> None then Inr ()
    else
      ebind (oracle_voting E s) (\<lambda>Q.
      ebind (pending_for_key Q subdomain s) (\<lambda>pending_change.
      let pending_hash = map_option ovv_hash_observed pending_change in
      if pending_hash = None \<or> pending_hash = Some NotFound then
        (if observed = NotFound then Inl DeleteUnknown
         else case check_subdomain_limit_before_pending_exact E subdomain registered s of
                Inl e \<Rightarrow> Inl (CannotRegister e)
              | Inr _ \<Rightarrow> Inr ())
      else Inr ())))"

definition observe :: "env \<Rightarrow> observe_action \<Rightarrow> contents \<Rightarrow> contents \<times> (error + unit)" where
  "observe E a s =
    (let orc = obs_oracle a; ob = obs_observation a in
     lift_res s (config E s) (\<lambda>current.
     lift_res s (check (is_current_oracle current orc) NotCurrentOracle) (\<lambda>_.
     lift_res s (check_blockstamp E current (ob_blockstamp ob) s) (\<lambda>current_time.
     let subdomain = pod_of_domain (ob_domain ob) in
     lift_res s (check_domain (pod_name subdomain) (zone_name (ob_zone ob))) (\<lambda>registered.
     lift_res s (check_enrollment E subdomain registered (ob_hash_observed ob) s) (\<lambda>_.
     lift_res s (oracle_voting E s) (\<lambda>Q.
     cast E Q
       \<lparr>vote_party = hex_encode E (oid_identity orc), vote_time = current_time, vote_key = subdomain,
        vote_value = \<lparr>ovv_hash_observed = ob_hash_observed ob, ovv_zone = ob_zone ob\<rparr>\<rparr> s)))))))"

section \<open>Reconfigurations\<close>

definition is_current_admin :: "config \<Rightarrow> admin \<Rightarrow> bool" where
  "is_current_admin c adm = (a_authorized (admins c) = [] \<or> adm \<in> set (a_authorized (admins c)))"

definition reconfigure :: "env \<Rightarrow> reconfigure_action \<Rightarrow> contents \<Rightarrow> contents \<times> (error + unit)" where
  "reconfigure E a s =
    lift_res s (config E s) (\<lambda>current.
    lift_res s (check (is_current_admin current (re_admin a)) NotCurrentAdmin) (\<lambda>_.
    lift_res s (block_time E s) (\<lambda>current_time.
    lift_res s (check (\<not> current_time < re_not_before a) BeforeNotBefore) (\<lambda>_.
    lift_res s (check (\<not> re_not_after a < current_time) AfterNotAfter) (\<lambda>_.
    lift_res s (check_config E (re_config a) s) (\<lambda>_.
    lift_res s (admin_voting E s) (\<lambda>Q.
    lift_res s (pending_for_key Q () s) (\<lambda>pending_config.
    lift_res s (check (case pending_config of None \<Rightarrow> True
                       | Some p \<Rightarrow> \<not> version (re_config a) \<le> version p) PendingVersion) (\<lambda>_.
    lift_res s (admin_voting E s) (\<lambda>Q.
    cast E Q
      \<lparr>vote_party = hex_encode E (admin_identity (re_admin a)), vote_time = current_time, vote_key = (),
       vote_value = re_config a\<rparr> s))))))))))"

section \<open>Delivering a transaction\<close>

fun perform :: "env \<Rightarrow> action \<Rightarrow> contents \<Rightarrow> contents \<times> (error + unit)" where
  "perform E (Reconfigure a) s = reconfigure E a s"
| "perform E (Observe a) s = observe E a s"

definition deliver_authenticated_tx :: "env \<Rightarrow> transaction \<Rightarrow> contents \<Rightarrow> contents \<times> (error + unit)" where
  "deliver_authenticated_tx E tx s =
    lift_res s (chain_id E s) (\<lambda>current_chain_id.
    lift_res s (check (tx_chain_id tx = current_chain_id) ChainIdMismatch) (\<lambda>_.
    lift_res s (check (tx_actions tx \<noteq> []) EmptyTransaction) (\<lambda>_.
    for_each (perform E) (tx_actions tx) s)))"

definition deliver_tx :: "env \<Rightarrow> bytes \<Rightarrow> contents \<Rightarrow> contents \<times> (error + unit)" where
  "deliver_tx E tx_bytes s =
    lift_res s (authenticated_from_proto E tx_bytes) (\<lambda>tx. deliver_authenticated_tx E tx s)"

end
