(* ===== verification/Abci.thy ===== *)
theory Abci
  imports Actions
begin

text \<open>
  The application interface of the node: \<open>crates/felidae-state/src/abci.rs\<close> and
  \<open>state/abci/{init_chain,finalize_block}.rs\<close>. \<open>call\<close> is the request dispatch of the service: one
  request at a time takes the store to the store it leaves, with the response or the error.
\<close>

section \<open>Initialising the chain\<close>

definition default_config :: config where
  "default_config =
    \<lparr>version = 0,
     admins =
       \<lparr>a_voting = \<lparr>total = 0, quorum = 0, timeout = from_secs 0, delay = from_secs 0\<rparr>, a_authorized = []\<rparr>,
     oracles =
       \<lparr>o_enabled = False,
        o_voting = \<lparr>total = 0, quorum = 0, timeout = from_secs 0, delay = from_secs i64_max\<rparr>,
        max_enrolled_subdomains = 0, observation_timeout = from_secs i64_max, o_authorized = []\<rparr>,
     onion = OnionConfig False\<rparr>"

definition genesis_config :: "env \<Rightarrow> bytes \<Rightarrow> error + config" where
  "genesis_config E app_state_bytes =
    (if app_state_bytes = [] then Inr default_config
     else ebind (ok_or AppStateJson (json_from_slice E app_state_bytes)) (\<lambda>app_state.
          ebind (ok_or AppStateNoConfig (json_get ''config'' app_state)) (\<lambda>config_value.
          ok_or AppStateConfig (config_from_json E config_value))))"

record init_chain_response =
  icr_consensus_params :: "bytes option"
  icr_validators :: "validator_update list"
  icr_app_hash :: app_hash

definition init_chain ::
  "env \<Rightarrow> init_chain_request \<Rightarrow> contents \<Rightarrow> contents \<times> (error + init_chain_response)" where
  "init_chain E req s =
    lift_res s (ok_or (ParseError TAppHash) (app_hash_try_from E (sha256 E (init_chain_request_encode E req))))
      (\<lambda>app_hash.
    lift_res s (check (ic_initial_height req = 1) InitialHeight) (\<lambda>_.
    andthen (set_chain_id E (ChainId (ic_chain_id req)) s) (\<lambda>_ s.
    lift_res s (genesis_config E (ic_app_state_bytes req)) (\<lambda>cfg.
    andthen (set_config E cfg s) (\<lambda>_ s.
    andthen (for_each (declare_validator E) (ic_validators req) s) (\<lambda>_ s.
      (s, Inr \<lparr>icr_consensus_params = Some (ic_consensus_params req), icr_validators = ic_validators req,
               icr_app_hash = app_hash\<rparr>)))))))"

section \<open>Finalizing a block\<close>

datatype block_id_flag = Absent | Commit | Nil
datatype sig_info = Flag block_id_flag | LegacySigned

fun has_voted :: "sig_info \<Rightarrow> bool" where
  "has_voted (Flag Absent) = False"
| "has_voted (Flag Commit) = True"
| "has_voted (Flag Nil) = True"
| "has_voted LegacySigned = True"

record finalize_block_request =
  fb_txs :: "bytes list"
  fb_votes :: "(bytes \<times> sig_info) list"
  fb_misbehavior :: "bytes list"
  fb_height :: height
  fb_time :: time

record finalize_block_response =
  fbr_tx_results :: "(error + unit) list"
  fbr_validator_updates :: "validator_update list"
  fbr_app_hash :: app_hash

text \<open>A failed transaction only leaves its error in the results.\<close>

fun deliver_txs :: "env \<Rightarrow> bytes list \<Rightarrow> contents \<Rightarrow> contents \<times> (error + unit) list" where
  "deliver_txs E [] s = (s, [])"
| "deliver_txs E (tx # txs) s =
     (let (s', r) = deliver_tx E tx s; (s'', rs) = deliver_txs E txs s' in (s'', r # rs))"

definition apply_config :: "env \<Rightarrow> unit \<times> config \<Rightarrow> contents \<Rightarrow> contents \<times> (error + unit)" where
  "apply_config E kv s =
    lift_res s (config E s) (\<lambda>current.
    if version (snd kv) \<le> version current then (s, Inr ()) else set_config E (snd kv) s)"

definition apply_observation ::
  "env \<Rightarrow> prefix_order_domain \<times> oracle_vote_value \<Rightarrow> contents \<Rightarrow> contents \<times> (error + unit)" where
  "apply_observation E kv s = update_canonical E (domain_of_pod (fst kv)) (ovv_hash_observed (snd kv)) s"

definition begin_block :: "env \<Rightarrow> finalize_block_request \<Rightarrow> contents \<Rightarrow> contents \<times> (error + unit)" where
  "begin_block E req s =
    andthen (mark_validators_voted E (set (map fst (filter (\<lambda>v. has_voted (snd v)) (fb_votes req)))) s) (\<lambda>_ s.
    andthen (for_each (tombstone_validator E) (fb_misbehavior req) s) (\<lambda>_ s.
    andthen (set_block_height E (fb_height req) s) (\<lambda>_ s.
    andthen (set_block_time E (fb_time req) s) (\<lambda>_ s.
    lift_res s (admin_voting E s) (\<lambda>Q.
    andthen (timeout_expired_votes E Q s) (\<lambda>_ s.
    lift_res s (oracle_voting E s) (\<lambda>Q.
    timeout_expired_votes E Q s)))))))"

definition end_block :: "env \<Rightarrow> contents \<Rightarrow> contents \<times> (error + validator_update list)" where
  "end_block E s =
    lift_res s (admin_voting E s) (\<lambda>Q.
    andthen (promote_pending_changes E Q s) (\<lambda>configs s.
    andthen (for_each (apply_config E) configs s) (\<lambda>_ s.
    lift_res s (oracle_voting E s) (\<lambda>Q.
    andthen (promote_pending_changes E Q s) (\<lambda>observations s.
    andthen (for_each (apply_observation E) observations s) (\<lambda>_ s.
    lift_res s (active_validators E s) (\<lambda>vs. (s, Inr vs))))))))"

definition finalize_block ::
  "env \<Rightarrow> finalize_block_request \<Rightarrow> contents \<Rightarrow> contents \<times> (error + finalize_block_response)" where
  "finalize_block E req s =
    andthen (begin_block E req s) (\<lambda>_ s.
    let (s, results) = deliver_txs E (fb_txs req) s in
    andthen (end_block E s) (\<lambda>vs s.
      (s, Inr \<lparr>fbr_tx_results = results, fbr_validator_updates = vs, fbr_app_hash = []\<rparr>)))"

section \<open>The service\<close>

datatype request =
    REcho string | RFlush | RInfo | RInitChain init_chain_request
  | RFinalizeBlock finalize_block_request | RCheckTx bytes | RCommit | RQuery
  | RListSnapshots | ROfferSnapshot | RLoadSnapshotChunk | RApplySnapshotChunk
  | RPrepareProposal i64 "bytes list" | RProcessProposal | RExtendVote | RVerifyVoteExtension bytes

datatype response =
    EchoResponse string | FlushResponse | InfoResponse height app_hash
  | InitChainResponse init_chain_response | FinalizeBlockResponse finalize_block_response
  | CheckTxResponse "error + unit" | CommitResponse bytes | QueryNotImplemented
  | PrepareProposalResponse "bytes list" | ProcessProposalAccept | ExtendVoteResponse bytes
  | VerifyVoteExtensionResponse bool

text \<open>The running total is an \<open>i64\<close>; \<open>tx.len() as i64\<close> and the sum wrap in a release build.\<close>

fun prepare_proposal_loop :: "i64 \<Rightarrow> i64 \<Rightarrow> bytes list \<Rightarrow> bytes list" where
  "prepare_proposal_loop max_bytes total_bytes [] = []"
| "prepare_proposal_loop max_bytes total_bytes (tx # txs) =
     (let tx_len = word_of_nat (length tx) in
      if sint max_bytes < sint (total_bytes + tx_len) then []
      else tx # prepare_proposal_loop max_bytes (total_bytes + tx_len) txs)"

definition prepare_proposal :: "i64 \<Rightarrow> bytes list \<Rightarrow> bytes list" where
  "prepare_proposal max_bytes txs = prepare_proposal_loop max_bytes 0 txs"

text \<open>A method of the state run on the pending contents of the store.\<close>

definition on_pending :: "(contents \<Rightarrow> contents \<times> 'r) \<Rightarrow> store \<Rightarrow> store \<times> 'r" where
  "on_pending f st = (let (s', r) = f (pending st) in (st\<lparr>pending := s'\<rparr>, r))"

definition unwrap_or :: "'a \<Rightarrow> 'e + 'a \<Rightarrow> 'a" where
  "unwrap_or d r = (case r of Inl _ \<Rightarrow> d | Inr x \<Rightarrow> x)"

definition call_finalize_block ::
  "env \<Rightarrow> finalize_block_request \<Rightarrow> store \<Rightarrow> store \<times> (error + finalize_block_response)" where
  "call_finalize_block E req st =
    andthen
      (if unwrap_or 0 (block_height E (pending st)) \<noteq> 0 then
         lift_res st (root_hashes E st) (\<lambda>rh. on_pending (record_app_hash E (rh_app_hash rh)) st)
       else (st, Inr ()))
      (\<lambda>_ st.
    andthen (on_pending (finalize_block E req) st) (\<lambda>response st.
    andthen (prepare_commit E st) (\<lambda>app_hash st. (st, Inr (response\<lparr>fbr_app_hash := app_hash\<rparr>)))))"

definition call_check_tx :: "env \<Rightarrow> bytes \<Rightarrow> store \<Rightarrow> store \<times> (error + unit)" where
  "call_check_tx E tx st =
    (let (forked, original) = fork st;
         (forked', r) = on_pending (deliver_tx E tx) forked
     in (original, r))"

definition call_commit :: "env \<Rightarrow> store \<Rightarrow> store \<times> (error + bytes)" where
  "call_commit E st =
    andthen (commit st) (\<lambda>_ st.
    lift_res st (root_hashes E st) (\<lambda>rh. (st, Inr (rh_app_hash rh))))"

datatype service_error = NotImplemented | Failed error

fun respond :: "('a \<Rightarrow> response) \<Rightarrow> store \<times> (error + 'a) \<Rightarrow> store \<times> (service_error + response)" where
  "respond f (st, Inl e) = (st, Inl (Failed e))"
| "respond f (st, Inr x) = (st, Inr (f x))"

fun call :: "env \<Rightarrow> request \<Rightarrow> store \<Rightarrow> store \<times> (service_error + response)" where
  "call E (REcho m) st = (st, Inr (EchoResponse m))"
| "call E RFlush st = (st, Inr FlushResponse)"
| "call E RInfo st =
     (st, Inr (InfoResponse (unwrap_or 0 (block_height E (pending st)))
       (case root_hashes E st of Inl _ \<Rightarrow> [] | Inr rh \<Rightarrow> rh_app_hash rh)))"
| "call E (RInitChain req) st = respond InitChainResponse (on_pending (init_chain E req) st)"
| "call E (RFinalizeBlock req) st = respond FinalizeBlockResponse (call_finalize_block E req st)"
| "call E (RCheckTx tx) st =
     (let (st', r) = call_check_tx E tx st in (st', Inr (CheckTxResponse r)))"
| "call E RCommit st = respond CommitResponse (call_commit E st)"
| "call E RQuery st = (st, Inr QueryNotImplemented)"
| "call E RListSnapshots st = (st, Inl NotImplemented)"
| "call E ROfferSnapshot st = (st, Inl NotImplemented)"
| "call E RLoadSnapshotChunk st = (st, Inl NotImplemented)"
| "call E RApplySnapshotChunk st = (st, Inl NotImplemented)"
| "call E (RPrepareProposal max_bytes txs) st =
     (st, Inr (PrepareProposalResponse (prepare_proposal max_bytes txs)))"
| "call E RProcessProposal st = (st, Inr ProcessProposalAccept)"
| "call E RExtendVote st = (st, Inr (ExtendVoteResponse []))"
| "call E (RVerifyVoteExtension ext) st = (st, Inr (VerifyVoteExtensionResponse (ext = [])))"

end
