(* ===== verification/State_Facts.thy ===== *)
theory State_Facts
  imports Queue_Instances Abci
begin

text \<open>
  Reading back what the setters of \<open>Chain_State\<close> wrote, what they leave alone, and the table of
  validators. \<open>state_ok\<close> is the invariant of an initialised chain state.
\<close>

section \<open>Reading after writing\<close>

named_theorems get_simps \<open>typed reads after writes\<close>

lemma get_put [get_simps]:
  "get dec sub k (put enc sub' k' v s) =
    (if sub = sub' \<and> k = k' then ebind (dec (enc v)) (\<lambda>x. Inr (Some x)) else get dec sub k s)"
  by (simp add: get_eq store_simps)

lemma get_delete [get_simps]:
  "get dec sub k (delete sub' k' s) = (if sub = sub' \<and> k = k' then Inr None else get dec sub k s)"
  by (simp add: get_eq store_simps)

lemma get_index [get_simps]:
  "get dec sub k (index_put enc sub' bk v s) = get dec sub k s"
  "get dec sub k (index_delete sub' bk s) = get dec sub k s"
  by (simp_all add: get_eq store_simps)

lemma get_outside:
  assumes "same_outside p s s'" "sub \<noteq> Internal \<or> \<not> queue_key p k"
  shows "get dec sub k s' = get dec sub k s"
  using assms unfolding get_eq same_outside_def by metis

lemma decimal_inj: "\<lbrakk>m < 10 ^ k; n < 10 ^ k; decimal k m = decimal k n\<rbrakk> \<Longrightarrow> m = n"
proof (induction k arbitrary: m n)
  case (Suc k)
  have digit: "x div 10 ^ k < 10" if "x < 10 ^ Suc k" for x :: nat
    using that by (simp add: less_mult_imp_div_less)
  have "(char_of (48 + m div 10 ^ k) :: char) = char_of (48 + n div 10 ^ k)"
    and tl: "decimal k (m mod 10 ^ k) = decimal k (n mod 10 ^ k)"
    using Suc.prems(3) by simp_all
  then have "(48 + m div 10 ^ k) mod 256 = (48 + n div 10 ^ k) mod 256"
    by (metis of_char_of)
  then have "m div 10 ^ k = n div 10 ^ k"
    using digit [OF Suc.prems(1)] digit [OF Suc.prems(2)] by simp
  moreover have "m mod 10 ^ k = n mod 10 ^ k" using Suc.IH [OF _ _ tl] by simp
  ultimately show ?case by (metis div_mult_mod_eq)
qed simp

lemma pad_height_inj [simp]: "(pad_height h = pad_height h') = (h = h')"
proof
  have "unat w < 10 ^ 20" for w :: u64 using unat_lt_2_64 [of w] by simp
  then show "pad_height h = pad_height h' \<Longrightarrow> h = h'"
    unfolding pad_height_def using decimal_inj by (metis word_unat_eq_iff)
qed simp

lemma length_decimal [simp]: "length (decimal k n) = k"
  by (induction k arbitrary: n) auto

lemma length_pad_height [simp]: "length (pad_height h) = 20"
  by (simp add: pad_height_def)

text \<open>The keys of the parameters are different from each other.\<close>

lemmas reads = block_height_def block_time_def time_of_block_def chain_id_def previous_app_hash_def
  config_def

lemmas writes = set_block_height_def set_block_time_def record_block_time_def set_chain_id_def
  record_app_hash_def set_config_def

lemma reads_outside:
  assumes "same_outside p s s'" "p = ''oracle_voting/'' \<or> p = ''admin_voting/''"
  shows "block_height E s' = block_height E s" "block_time E s' = block_time E s"
    "time_of_block E h s' = time_of_block E h s" "chain_id E s' = chain_id E s"
    "previous_app_hash E h s' = previous_app_hash E h s" "config E s' = config E s"
proof -
  have out: "get dec Internal k s' = get dec Internal k s"
    if "\<not> prefix ''oracle_voting/'' k" "\<not> prefix ''admin_voting/'' k" for k and dec :: "bytes \<Rightarrow> error + 'v"
    using that assms(2) by (intro get_outside [OF assms(1)]) (auto simp: queue_key_def)
  show "block_height E s' = block_height E s" "block_time E s' = block_time E s"
    "time_of_block E h s' = time_of_block E h s" "chain_id E s' = chain_id E s"
    "previous_app_hash E h s' = previous_app_hash E h s" "config E s' = config E s"
    unfolding reads by (simp_all add: out)
qed

section \<open>The validator table\<close>

definition validator_table_ok :: "env \<Rightarrow> contents \<Rightarrow> bool" where
  "validator_table_ok E s =
    (\<forall>k b. prefix ''current/validators/'' k \<and> vget Internal s k = Some b \<longrightarrow>
      (\<exists>pk pw. k = validator_key E pk \<and> ed25519_from_raw E (pk_to_bytes pk) = Some pk \<and>
        power_decode E b = Inr pw))"

text \<open>The validators declared, with their power.\<close>

definition validators_view :: "env \<Rightarrow> contents \<Rightarrow> public_key \<Rightarrow> power option" where
  "validators_view E s pk =
    (case vget Internal s (validator_key E pk) of None \<Rightarrow> None | Some b \<Rightarrow> ok (power_decode E b))"

lemma validator_key_inj: "env_ok E \<Longrightarrow> validator_key E pk = validator_key E pk' \<Longrightarrow> pk = pk'"
  by (simp add: validator_key_def env_hex_inj public_key.expand)

lemma trim_validator_key:
  assumes "env_ok E"
  shows "trim_start_str ''current/validators/'' (validator_key E pk) = hex_encode E (pk_to_bytes pk)"
proof -
  have "\<not> prefix ''current/validators/'' (hex_encode E (pk_to_bytes pk))"
  proof
    assume "prefix ''current/validators/'' (hex_encode E (pk_to_bytes pk))"
    then have "CHR ''/'' \<in> set (hex_encode E (pk_to_bytes pk))" by (auto simp: prefix_def)
    with env_hex_no_slash [OF assms] show False by blast
  qed
  then show ?thesis
    by (simp add: validator_key_def trim_start_str.simps [of "''current/validators/''"])
qed

lemma active_validators_loop_eq:
  assumes "env_ok E" "\<forall>(k, pw) \<in> set kps. \<exists>pk. k = validator_key E pk \<and> ed25519_from_raw E (pk_to_bytes pk) = Some pk"
  shows "\<exists>us. active_validators_loop E kps = Inr us \<and>
    set us = {Update pk pw | pk pw. (validator_key E pk, pw) \<in> set kps \<and> 0 < pw}"
  using assms(2)
proof (induction kps)
  case (Cons kp kps)
  then obtain k pw pk where kp: "kp = (k, pw)" "k = validator_key E pk"
    "ed25519_from_raw E (pk_to_bytes pk) = Some pk" by (cases kp) auto
  from Cons obtain us where us: "active_validators_loop E kps = Inr us"
    "set us = {Update pk pw | pk pw. (validator_key E pk, pw) \<in> set kps \<and> 0 < pw}" by auto
  have "validator_key E pk' = validator_key E pk \<longleftrightarrow> pk' = pk" for pk'
    using validator_key_inj [OF assms(1)] by blast
  then have "{Update pk' pw' | pk' pw'. (validator_key E pk', pw') \<in> set (kp # kps) \<and> 0 < pw'}
      = (if 0 < pw then insert (Update pk pw) (set us) else set us)"
    unfolding us(2) by (auto simp: kp)
  then show ?case
    using us(1) kp(3) env_hex_decode [OF assms(1)] by (auto simp: kp(1,2) trim_validator_key [OF assms(1)])
qed simp

lemma active_validators_eq:
  assumes "env_ok E" "contents_ok s" "validator_table_ok E s"
  obtains us where "active_validators E s = Inr us"
    "set us = {Update pk pw | pk pw. validators_view E s pk = Some pw \<and> 0 < pw}"
proof -
  let ?p = "''current/validators/''"
  have scan: "set (vscan Internal ?p s) = {(k, b). prefix ?p k \<and> vget Internal s k = Some b}"
    by (rule vs.set_scan [OF assms(2)])
  have dec: "\<exists>x. power_decode E b = Inr x" if "(k, b) \<in> set (vscan Internal ?p s)" for k b
    using that assms(3) unfolding scan validator_table_ok_def by fastforce
  have "prefix_stream (power_decode E) Internal ?p s
      = map (\<lambda>kb. Inr (fst kb, projr (power_decode E (snd kb)))) (vscan Internal ?p s)"
    unfolding prefix_stream_eq
  proof (rule map_cong [OF refl])
    fix kb assume "kb \<in> set (vscan Internal ?p s)"
    then obtain k b x where kb: "kb = (k, b)" "power_decode E b = Inr x" using dec by (metis surj_pair)
    then show "(case kb of (k, b) \<Rightarrow> ebind (power_decode E b) (\<lambda>v. Inr (k, v)))
        = Inr (fst kb, projr (power_decode E (snd kb)))" by simp
  qed
  then have active: "active_validators E s
      = active_validators_loop E (map (\<lambda>kb. (fst kb, projr (power_decode E (snd kb)))) (vscan Internal ?p s))"
    by (simp add: active_validators_def)
  have "\<forall>(k, pw) \<in> set (map (\<lambda>kb. (fst kb, projr (power_decode E (snd kb)))) (vscan Internal ?p s)).
      \<exists>pk. k = validator_key E pk \<and> ed25519_from_raw E (pk_to_bytes pk) = Some pk"
    using assms(3) unfolding set_map scan validator_table_ok_def by fastforce
  from active_validators_loop_eq [OF assms(1) this] obtain us where
    us: "active_validators E s = Inr us"
    "set us = {Update pk pw | pk pw. (validator_key E pk, pw)
       \<in> set (map (\<lambda>kb. (fst kb, projr (power_decode E (snd kb)))) (vscan Internal ?p s)) \<and> 0 < pw}"
    unfolding active by blast
  have "(validator_key E pk, pw) \<in> set (map (\<lambda>kb. (fst kb, projr (power_decode E (snd kb)))) (vscan Internal ?p s))
      \<longleftrightarrow> validators_view E s pk = Some pw" for pk pw
  proof -
    have "prefix ?p (validator_key E pk)" by (simp add: validator_key_def)
    then have "(validator_key E pk, pw) \<in> set (map (\<lambda>kb. (fst kb, projr (power_decode E (snd kb)))) (vscan Internal ?p s))
        \<longleftrightarrow> (\<exists>b. vget Internal s (validator_key E pk) = Some b \<and> pw = projr (power_decode E b))"
      unfolding set_map scan by force
    also have "\<dots> \<longleftrightarrow> validators_view E s pk = Some pw"
    proof (cases "vget Internal s (validator_key E pk)")
      case (Some b)
      with \<open>prefix ?p (validator_key E pk)\<close> assms(3) obtain x where "power_decode E b = Inr x"
        unfolding validator_table_ok_def by blast
      with Some show ?thesis by (auto simp: validators_view_def)
    qed (simp add: validators_view_def)
    finally show ?thesis .
  qed
  with us show thesis by (intro that) auto
qed

end
