(* ===== verification/State_Invariant.thy ===== *)
theory State_Invariant
  imports State_Facts
begin

text \<open>
  The invariant of an initialised chain state, and that the actions, the delivery of transactions and
  the steps of \<open>finalize_block\<close> keep it. What a guard lets through is stated per action.
\<close>

definition state_ok :: "env \<Rightarrow> contents \<Rightarrow> bool" where
  "state_ok E s =
    ((\<forall>c. queue_ok E (oracle_queue E c) s) \<and> (\<forall>c. queue_ok E (admin_queue E c) s) \<and>
     is_ok (config E s) \<and> (\<forall>t. block_time E s = Inr t \<longrightarrow> 0 \<le> t) \<and> validator_table_ok E s)"

lemma state_okD:
  assumes "state_ok E s"
  shows "queue_ok E (oracle_queue E c) s" "queue_ok E (admin_queue E c) s" "\<exists>cfg. config E s = Inr cfg"
    "block_time E s = Inr t \<Longrightarrow> 0 \<le> t" "validator_table_ok E s" "env_ok E" "contents_ok s"
  using assms queue_okD(1,3) [of E "oracle_queue E c" s] by (auto simp: state_ok_def is_ok_cases)

lemma block_time_ok: "env_ok E \<Longrightarrow> block_time E s = Inr t \<Longrightarrow> time_ok t"
  by (auto simp: block_time_def get_def time_decode_def domain_decode_def res_simps
      intro: env_timestamp_ok split: option.splits)

section \<open>Writes to a queue\<close>

lemma validators_outside:
  assumes "same_outside p s s'" "p = ''oracle_voting/'' \<or> p = ''admin_voting/''"
  shows "validator_table_ok E s' = validator_table_ok E s" "validators_view E s' = validators_view E s"
proof -
  have "vget Internal s' k = vget Internal s k" if "prefix ''current/validators/'' k" for k
    using that assms by (auto simp: same_outside_def queue_key_def prefix_def)
  then show "validator_table_ok E s' = validator_table_ok E s" "validators_view E s' = validators_view E s"
    by (auto simp: validator_table_ok_def validators_view_def validator_key_def)
qed

lemma state_ok_queue_write:
  assumes "state_ok E s"
    and "queue_ok E (oracle_queue E c) s' \<and> same_outside ''oracle_voting/'' s s' \<or>
      queue_ok E (admin_queue E c) s' \<and> same_outside ''admin_voting/'' s s'"
  shows "state_ok E s'"
proof -
  have ok: "contents_ok s'" 
    using assms(2) queue_okD(3) [of E "oracle_queue E c"] queue_okD(3) [of E "admin_queue E c"] by blast
  consider (orc) "queue_ok E (oracle_queue E c) s'" "same_outside ''oracle_voting/'' s s'"
    | (adm) "queue_ok E (admin_queue E c) s'" "same_outside ''admin_voting/'' s s'" using assms(2) by blast
  then show ?thesis
  proof cases
    case orc
    have "queue_ok E (admin_queue E c') s'" for c'
      using queue_ok_cong(1) [of "admin_queue E c'"] same_outside_disjoint [OF orc(2) queues_disjoint(1)]
        ok state_okD(2) [OF assms(1)] by simp
    with orc assms(1) show ?thesis
      by (auto simp: state_ok_def reads_outside [OF orc(2)] validators_outside [OF orc(2)]
          intro: queue_ok_any_config)
  next
    case adm
    have "queue_ok E (oracle_queue E c') s'" for c'
      using queue_ok_cong(1) [of "oracle_queue E c'"] same_outside_disjoint [OF adm(2) queues_disjoint(2)]
        ok state_okD(1) [OF assms(1)] by simp
    with adm assms(1) show ?thesis
      by (auto simp: state_ok_def reads_outside [OF adm(2)] validators_outside [OF adm(2)]
          intro: queue_ok_any_config)
  qed
qed

section \<open>Writes to the parameters\<close>

definition parameter_key :: "string \<Rightarrow> bool" where
  "parameter_key k =
    (\<not> prefix ''oracle_voting/'' k \<and> \<not> prefix ''admin_voting/'' k \<and> \<not> prefix ''current/validators/'' k)"

lemma state_ok_parameter:
  assumes "state_ok E s" "sub = Internal \<longrightarrow> parameter_key k" "s' = put enc sub k v s \<or> s' = delete sub k s"
    and "is_ok (config E s')" "\<forall>t. block_time E s' = Inr t \<longrightarrow> 0 \<le> t"
  shows "state_ok E s'"
proof -
  have ok: "contents_ok s'" using assms(3) state_okD(7) [OF assms(1)] by auto
  have v: "vget Internal s' k' = vget Internal s k'" if "\<not> parameter_key k'" for k'
    using that assms(2,3) by (auto simp: store_simps)
  have n: "nget Internal s' = nget Internal s" using assms(3) by (auto simp: store_simps)
  have "same_queue p s s'" if "p = ''oracle_voting/'' \<or> p = ''admin_voting/''" for p
    using that v n by (auto simp: same_queue_def queue_key_def parameter_key_def)
  then have "queue_ok E (oracle_queue E c) s'" "queue_ok E (admin_queue E c) s'" for c
    using ok queue_ok_cong(1) [of "oracle_queue E c" s s'] queue_ok_cong(1) [of "admin_queue E c" s s']
      state_okD(1,2) [OF assms(1)] by simp_all
  moreover have "validator_table_ok E s'"
    using state_okD(5) [OF assms(1)] v by (auto simp: validator_table_ok_def parameter_key_def)
  ultimately show ?thesis using assms(4,5) by (simp add: state_ok_def)
qed

lemma parameter_keys [simp]:
  "parameter_key ''parameters/config''" "parameter_key ''parameters/chain_id''"
  "parameter_key ''current/block_height''" "parameter_key ''current/block_time''"
  "parameter_key (''blocktime/'' @ k)" "parameter_key (''apphash/'' @ k)"
  by (simp_all add: parameter_key_def)

lemma set_config_effect:
  assumes "state_ok E s"
  shows "state_ok E (fst (set_config E c s))" "snd (set_config E c s) = Inr ()"
    "config E (fst (set_config E c s)) = Inr (config_norm c)"
proof -
  have env: "env_ok E" using state_okD(6) [OF assms] .
  show cfg: "config E (fst (set_config E c s)) = Inr (config_norm c)"
    using env by (simp add: set_config_def config_def get_simps config_codec)
  show "state_ok E (fst (set_config E c s))"
    by (rule state_ok_parameter [OF assms, of Internal "''parameters/config''" _ "config_encode E" c])
      (use cfg state_okD(4) [OF assms] in \<open>auto simp: set_config_def block_time_def get_simps\<close>)
qed (simp add: set_config_def)

lemma set_block_height_effect:
  assumes "state_ok E s" "h \<le> i64_max"
  shows "state_ok E (fst (set_block_height E h s))" "snd (set_block_height E h s) = Inr ()"
    "block_height E (fst (set_block_height E h s)) = Inr h"
    "config E (fst (set_block_height E h s)) = config E s"
proof -
  have env: "env_ok E" using state_okD(6) [OF assms(1)] .
  show "block_height E (fst (set_block_height E h s)) = Inr h"
    using env assms(2) by (simp add: set_block_height_def block_height_def get_simps height_codec)
  show cfg: "config E (fst (set_block_height E h s)) = config E s"
    by (simp add: set_block_height_def config_def get_simps)
  show "state_ok E (fst (set_block_height E h s))"
    by (rule state_ok_parameter [OF assms(1), of Internal "''current/block_height''" _ "height_encode E" h])
      (use cfg state_okD(3,4) [OF assms(1)] in \<open>auto simp: set_block_height_def block_time_def get_simps\<close>)
qed (simp add: set_block_height_def)

lemma set_block_time_effect:
  assumes "state_ok E s" "time_ok t" "0 \<le> t" "block_height E s = Inr h"
  obtains s' where "set_block_time E t s = (s', Inr ())" "state_ok E s'" "block_time E s' = Inr t"
    "time_of_block E h s' = Inr t" "block_height E s' = Inr h" "config E s' = config E s"
proof -
  have env: "env_ok E" using state_okD(6) [OF assms(1)] .
  let ?s1 = "put (time_encode E) Internal ''current/block_time'' t s"
  let ?s2 = "put (time_encode E) Internal (''blocktime/'' @ pad_height h) t ?s1"
  have h: "block_height E ?s1 = Inr h" using assms(4) by (simp add: block_height_def get_simps)
  have t1: "block_time E ?s1 = Inr t" using env assms(2) by (simp add: block_time_def get_simps time_codec)
  have c1: "config E ?s1 = config E s" by (simp add: config_def get_simps)
  have ok1: "state_ok E ?s1"
    by (rule state_ok_parameter [OF assms(1), of Internal "''current/block_time''" _ "time_encode E" t])
      (use t1 c1 state_okD(3) [OF assms(1)] assms(3) in auto)
  have t2: "block_time E ?s2 = Inr t" using t1 by (simp add: block_time_def get_simps)
  have c2: "config E ?s2 = config E s" using c1 by (simp add: config_def get_simps)
  have ok2: "state_ok E ?s2"
    by (rule state_ok_parameter [OF ok1 impI [OF parameter_keys(5)] disjI1 [OF refl]])
      (unfold t2 c2, use state_okD(3) [OF assms(1)] assms(3) in auto)
  have "set_block_time E t s = (?s2, Inr ())"
    using h by (simp add: set_block_time_def record_block_time_def)
  then show thesis
    using ok2 t2 c2 h env assms(2)
    by (intro that [of ?s2]) (simp_all add: time_of_block_def block_height_def get_simps time_codec)
qed

section \<open>Casting from the chain state\<close>

text \<open>A transaction writes to the vote queues only: everything else reads as before.\<close>

definition only_queues :: "contents \<Rightarrow> contents \<Rightarrow> bool" where
  "only_queues s s' =
    (\<forall>sub k. sub \<noteq> Internal \<or> \<not> prefix ''oracle_voting/'' k \<and> \<not> prefix ''admin_voting/'' k \<longrightarrow>
      vget sub s' k = vget sub s k)"

lemma only_queues_refl [simp]: "only_queues s s"
  by (simp add: only_queues_def)

lemma only_queues_trans: "only_queues s s' \<Longrightarrow> only_queues s' s'' \<Longrightarrow> only_queues s s''"
  by (simp add: only_queues_def)

lemma only_queues_outside:
  "same_outside p s s' \<Longrightarrow> p = ''oracle_voting/'' \<or> p = ''admin_voting/'' \<Longrightarrow> only_queues s s'"
  by (auto simp: same_outside_def only_queues_def queue_key_def)

lemma only_queues_get:
  assumes "only_queues s s'" "sub \<noteq> Internal \<or> \<not> prefix ''oracle_voting/'' k \<and> \<not> prefix ''admin_voting/'' k"
  shows "get dec sub k s' = get dec sub k s"
  using assms unfolding get_eq only_queues_def by metis

lemma only_queues_reads:
  assumes "only_queues s s'"
  shows "block_height E s' = block_height E s" "block_time E s' = block_time E s"
    "time_of_block E h s' = time_of_block E h s" "chain_id E s' = chain_id E s"
    "previous_app_hash E h s' = previous_app_hash E h s" "config E s' = config E s"
    "canonical_hash E d s' = canonical_hash E d s" "validators_view E s' = validators_view E s"
proof -
  have v: "vget Internal s' (validator_key E pk) = vget Internal s (validator_key E pk)" for pk
    using assms by (simp add: only_queues_def validator_key_def)
  show "validators_view E s' = validators_view E s" by (simp add: validators_view_def v fun_eq_iff)
qed (simp_all add: reads canonical_hash_def only_queues_get [OF assms])

text \<open>What a method keeps that only writes to the queues.\<close>

definition kept :: "env \<Rightarrow> contents \<Rightarrow> contents \<Rightarrow> bool" where
  "kept E s s' = (state_ok E s' \<and> only_queues s s')"

lemma kept_refl [simp]: "state_ok E s \<Longrightarrow> kept E s s"
  by (simp add: kept_def)

lemma kept_trans: "kept E s s' \<Longrightarrow> kept E s' s'' \<Longrightarrow> kept E s s''"
  by (auto simp: kept_def elim: only_queues_trans)

lemma oracle_cast_castable:
  assumes "env_ok E" "fqdn_valid E (pod_name p)" "hash_observed_ok h" "fqdn_valid E (zone_name z)"
    and "block_time E s = Inr t" "0 \<le> t"
  shows "castable E (oracle_queue E c) (pod_display p) (hex_encode E b) t
    \<lparr>ovv_hash_observed = h, ovv_zone = z\<rparr> \<lparr>ovv_hash_observed = h, ovv_zone = z\<rparr>"
  using assms block_time_ok [OF assms(1,5)]
  by (simp add: castable_def codec_ok_queues key_good_oracle part_ok_hex ovv_codec oracle_vote_value_ok_def)

lemma admin_cast_castable:
  assumes "env_ok E" "block_time E s = Inr t" "0 \<le> t"
  shows "castable E (admin_queue E c) [] (hex_encode E b) t cfg (config_norm cfg)"
  using assms block_time_ok [OF assms(1,2)]
  by (simp add: castable_def codec_ok_queues key_good_admin part_ok_hex config_codec)

lemma oracle_cast_invariant:
  assumes "state_ok E s"
    and "castable E (oracle_queue E c) (pod_display (vote_key vt)) (vote_party vt) (vote_time vt) (vote_value vt) w"
  shows "kept E s (fst (cast E (oracle_queue E c) vt s))"
proof -
  have "castable E (oracle_queue E c) (key_to_string (oracle_queue E c) (vote_key vt)) (vote_party vt)
      (vote_time vt) (vote_value vt) w" using assms(2) by simp
  note inv = cast_invariant [OF state_okD(1) [OF assms(1)] tally_order_queues(1) [OF state_okD(6) [OF assms(1)]] this]
  have "state_ok E (fst (cast E (oracle_queue E c) vt s))"
    by (rule state_ok_queue_write [OF assms(1), where c = c, OF disjI1]) (use inv in simp)
  with inv show ?thesis by (auto simp: kept_def intro: only_queues_outside)
qed

lemma admin_cast_invariant:
  assumes "state_ok E s"
    and "castable E (admin_queue E c) [] (vote_party vt) (vote_time vt) (vote_value vt) w"
  shows "kept E s (fst (cast E (admin_queue E c) vt s))"
proof -
  have "castable E (admin_queue E c) (key_to_string (admin_queue E c) (vote_key vt)) (vote_party vt)
      (vote_time vt) (vote_value vt) w" using assms(2) by simp
  note inv = cast_invariant [OF state_okD(2) [OF assms(1)] tally_order_queues(2) [OF state_okD(6) [OF assms(1)]] this]
  have "state_ok E (fst (cast E (admin_queue E c) vt s))"
    by (rule state_ok_queue_write [OF assms(1), where c = c, OF disjI2]) (use inv in simp)
  with inv show ?thesis by (auto simp: kept_def intro: only_queues_outside)
qed

section \<open>Guards\<close>

lemma lift_res_Inr:
  "snd (lift_res s r k) = Inr y \<longleftrightarrow> (\<exists>x. r = Inr x \<and> snd (k x) = Inr y)"
  by (cases r) auto

lemma lift_res_cases: "lift_res s r k = (s, Inl e) \<or> (\<exists>x. r = Inr x \<and> lift_res s r k = k x)" if "r = Inl e \<or> is_ok r"
  using that by (cases r) auto

lemma lift_res_P:
  assumes "P s" "\<And>x. r = Inr x \<Longrightarrow> P (fst (k x))"
  shows "P (fst (lift_res s r k))"
  using assms by (cases r) auto

text \<open>An observation is decoded from a transaction, so its names are valid and its hash has 32 bytes.\<close>

lemma observe_invariant:
  assumes "state_ok E s" "observation_ok E (obs_observation a)"
  shows "kept E s (fst (observe E a s))"
  unfolding observe_def Let_def
proof (intro lift_res_P [where P = "kept E s"], use assms(1) in simp_all, goal_cases)
  case (1 current current_time registered Q)
  from 1 have t: "block_time E s = Inr current_time"
    by (auto simp: check_blockstamp_def res_simps)
  from 1 obtain c where Q: "Q = oracle_queue E c" by (auto simp: oracle_voting_def res_simps)
  note env = state_okD(6) [OF assms(1)]
  note castable = oracle_cast_castable [OF env _ _ _ t state_okD(4) [OF assms(1) t]]
  let ?ob = "obs_observation a"
  have "castable E (oracle_queue E c) (pod_display (pod_of_domain (ob_domain ?ob)))
      (hex_encode E (oid_identity (obs_oracle a))) current_time
      \<lparr>ovv_hash_observed = ob_hash_observed ?ob, ovv_zone = ob_zone ?ob\<rparr>
      \<lparr>ovv_hash_observed = ob_hash_observed ?ob, ovv_zone = ob_zone ?ob\<rparr>"
    using assms(2) by (intro castable) (simp_all add: observation_ok_def pod_of_domain_def)
  then show ?case
    unfolding Q
    by (intro oracle_cast_invariant [OF assms(1), where w =
        "\<lparr>ovv_hash_observed = ob_hash_observed ?ob, ovv_zone = ob_zone ?ob\<rparr>"]) simp
qed

lemma reconfigure_invariant:
  assumes "state_ok E s"
  shows "kept E s (fst (reconfigure E a s))"
  unfolding reconfigure_def
proof (intro lift_res_P [where P = "kept E s"], use assms(1) in simp_all, goal_cases)
  case (1 current current_time Q pending_config)
  from 1 have t: "block_time E s = Inr current_time" by simp
  from 1 obtain c where Q: "Q = admin_queue E c" by (auto simp: admin_voting_def res_simps)
  note env = state_okD(6) [OF assms(1)]
  have "castable E (admin_queue E c) [] (hex_encode E (admin_identity (re_admin a))) current_time
      (re_config a) (config_norm (re_config a))"
    by (rule admin_cast_castable [OF env t state_okD(4) [OF assms(1) t]])
  then show ?case
    unfolding Q by (intro admin_cast_invariant [OF assms(1), where w = "config_norm (re_config a)"]) simp
qed

section \<open>Delivering transactions\<close>

lemma observation_try_from_ok:
  assumes "env_ok E" "observation_try_from E p = Inr ob"
  shows "observation_ok E ob"
proof -
  have "hash_observed_ok h" if "hash_observed_try_from ph = Inr h" for ph h
    using that by (auto simp: hash_observed_try_from_def split: if_splits)
  moreover have "blockstamp.block_height b \<le> i64_max" if "blockstamp_try_from E pb = Inr b" for pb b
    using that env_height [OF assms(1)]
    by (auto simp: blockstamp_try_from_def res_simps split: if_splits)
  moreover have "ok r = Some x \<longleftrightarrow> r = Inr x" for r :: "error + blockstamp" and x
    by (cases r) auto
  ultimately show ?thesis
    using assms by (auto simp: observation_try_from_def observation_ok_def res_simps
        intro: env_fqdn_from_ascii_str_valid)
qed

definition action_safe :: "env \<Rightarrow> action \<Rightarrow> bool" where
  "action_safe E a = (case a of Reconfigure r \<Rightarrow> True | Observe ob \<Rightarrow> observation_ok E (obs_observation ob))"

lemma ecollect_map_mem: "ecollect (map f xs) = Inr ys \<Longrightarrow> y \<in> set ys \<Longrightarrow> \<exists>x \<in> set xs. f x = Inr y"
  by (induction xs arbitrary: ys) (auto simp: res_simps)

lemma transaction_try_from_safe:
  assumes "env_ok E" "transaction_try_from E p = Inr tx"
  shows "\<forall>a \<in> set (tx_actions tx). action_safe E a"
proof
  fix a assume "a \<in> set (tx_actions tx)"
  then obtain pa where "action_try_from E pa = Inr a"
    using assms(2) by (auto simp: transaction_try_from_def res_simps dest: ecollect_map_mem)
  then show "action_safe E a"
    using observation_try_from_ok [OF assms(1)]
    by (auto simp: action_try_from_def action_safe_def observe_try_from_def res_simps
        split: option.splits p_action_kind.splits)
qed

lemma perform_invariant:
  assumes "state_ok E s" "action_safe E a"
  shows "kept E s (fst (perform E a s))"
  using assms reconfigure_invariant observe_invariant by (cases a) (auto simp: action_safe_def)

lemma deliver_tx_invariant:
  assumes "state_ok E s"
  shows "kept E s (fst (deliver_tx E tx_bytes s))"
  unfolding deliver_tx_def deliver_authenticated_tx_def
proof (intro lift_res_P [where P = "kept E s"] kept_refl assms for_each_invariant [where P = "kept E s"])
  fix tx a s'
  assume kept: "kept E s s'"
  assume "authenticated_from_proto E tx_bytes = Inr tx" "a \<in> set (tx_actions tx)"
  moreover from this have "action_safe E a"
    using transaction_try_from_safe [OF state_okD(6) [OF assms]]
    by (auto simp: authenticated_from_proto_def res_simps)
  moreover from kept have "state_ok E s'" by (simp add: kept_def)
  ultimately show "kept E s (fst (perform E a s'))"
    using kept perform_invariant kept_trans by blast
qed

lemma deliver_txs_invariant:
  "state_ok E s \<Longrightarrow> kept E s (fst (deliver_txs E txs s))"
proof (induction txs arbitrary: s)
  case (Cons tx txs)
  then have k: "kept E s (fst (deliver_tx E tx s))" by (simp add: deliver_tx_invariant)
  then have "kept E (fst (deliver_tx E tx s)) (fst (deliver_txs E txs (fst (deliver_tx E tx s))))"
    using Cons.IH by (simp add: kept_def)
  with k show ?case by (auto simp: split_def Let_def intro: kept_trans)
qed simp

lemma length_deliver_txs: "length (snd (deliver_txs E txs s)) = length txs"
  by (induction txs arbitrary: s) (auto simp: split_def Let_def)

end
