(* ===== verification/Block_Facts.thy ===== *)
theory Block_Facts
  imports State_Invariant
begin

text \<open>
  Blocks: in an initialised state \<open>finalize_block\<close> never fails, keeps the invariant, and applies the
  ripe pending changes; \<open>init_chain\<close> on an empty store gives such a state.
\<close>

section \<open>Validators\<close>

lemma active_validators_ok:
  assumes "state_ok E s"
  obtains us where "active_validators E s = Inr us"
    "set us = {Update pk pw | pk pw. validators_view E s pk = Some pw \<and> 0 < pw}"
  by (rule active_validators_eq [OF state_okD(6,7,5) [OF assms]])

lemma mark_validators_voted_eq: "state_ok E s \<Longrightarrow> mark_validators_voted E addresses s = (s, Inr ())"
  by (rule active_validators_ok) (auto simp: mark_validators_voted_def Let_def)

lemma tombstone_validator_eq: "state_ok E s \<Longrightarrow> tombstone_validator E a s = (s, Inr ())"
  by (rule active_validators_ok) (auto simp: tombstone_validator_def split: option.splits)

lemma tombstone_all_eq: "state_ok E s \<Longrightarrow> for_each (tombstone_validator E) as s = (s, Inr ())"
  by (induction as) (simp_all add: tombstone_validator_eq)

section \<open>The steps of a block\<close>

definition request_ok :: "finalize_block_request \<Rightarrow> bool" where
  "request_ok req = (fb_height req \<le> i64_max \<and> time_ok (fb_time req) \<and> 0 \<le> fb_time req)"

text \<open>What a step keeps that leaves the pending changes of both queues alone and adds no observation vote.\<close>

definition votes_may_expire :: "env \<Rightarrow> contents \<Rightarrow> contents \<Rightarrow> bool" where
  "votes_may_expire E s s' =
    (\<forall>c. pending_view E (oracle_queue E c) s' = pending_view E (oracle_queue E c) s \<and>
         pending_view E (admin_queue E c) s' = pending_view E (admin_queue E c) s \<and>
         votes_view E (oracle_queue E c) s' \<subseteq>\<^sub>m votes_view E (oracle_queue E c) s)"

lemma votes_may_expire_refl [simp]: "votes_may_expire E s s"
  by (simp add: votes_may_expire_def)

lemma votes_may_expire_trans: "votes_may_expire E s s' \<Longrightarrow> votes_may_expire E s' s'' \<Longrightarrow> votes_may_expire E s s''"
  by (auto simp: votes_may_expire_def intro: map_le_trans)

lemma votes_may_expire_queues:
  assumes "state_ok E s" "state_ok E s'" "same_queue ''oracle_voting/'' s s'" "same_queue ''admin_voting/'' s s'"
  shows "votes_may_expire E s s'"
  unfolding votes_may_expire_def
  using queue_ok_cong(2,3) [OF _ state_okD(7) [OF assms(2)] state_okD(1) [OF assms(1)]]
    queue_ok_cong(3) [OF _ state_okD(7) [OF assms(2)] state_okD(2) [OF assms(1)]] assms(3,4) by simp

lemma same_queue_refl [simp]: "same_queue p s s"
  by (simp add: same_queue_def)

lemma same_queue_put:
  assumes "same_queue p s s'" "\<not> queue_key p k"
  shows "same_queue p s (put enc Internal k v s')"
  using assms by (auto simp: same_queue_def store_simps)

lemma other_queue_pending:
  assumes "state_ok E s" "state_ok E s'"
  shows "same_outside ''oracle_voting/'' s s' \<Longrightarrow> pending_view E (admin_queue E c) s' = pending_view E (admin_queue E c) s"
    and "same_outside ''admin_voting/'' s s' \<Longrightarrow> pending_view E (oracle_queue E c) s' = pending_view E (oracle_queue E c) s"
    and "same_outside ''admin_voting/'' s s' \<Longrightarrow> votes_view E (oracle_queue E c) s' = votes_view E (oracle_queue E c) s"
  using queue_ok_cong(2,3) [OF _ state_okD(7) [OF assms(2)] state_okD(1) [OF assms(1), of c]]
    queue_ok_cong(3) [OF _ state_okD(7) [OF assms(2)] state_okD(2) [OF assms(1), of c]]
    same_outside_disjoint queues_disjoint by auto

lemma timeout_step:
  assumes "state_ok E s" "block_time E s = Inr now"
  shows "\<exists>s'. timeout_expired_votes E (oracle_queue E c) s = (s', Inr ()) \<and> kept E s s' \<and> votes_may_expire E s s'"
    and "\<exists>s'. timeout_expired_votes E (admin_queue E c) s = (s', Inr ()) \<and> kept E s s' \<and> votes_may_expire E s s'"
proof -
  show "\<exists>s'. timeout_expired_votes E (oracle_queue E c) s = (s', Inr ()) \<and> kept E s s' \<and> votes_may_expire E s s'"
  proof (rule timeout_expired_votes_effect [OF state_okD(1) [OF assms(1), of c] assms(2)], goal_cases)
    case (1 s')
    note b = queue_becomesD [OF 1(2)]
    have ok: "state_ok E s'" by (rule state_ok_queue_write [OF assms(1), where c = c, OF disjI1]) (use b in simp)
    have "pending_view E (oracle_queue E v) s' = pending_view E (oracle_queue E v) s"
      "votes_view E (oracle_queue E v) s' \<subseteq>\<^sub>m votes_view E (oracle_queue E v) s" for v
      using views_any_config(1,2) [of E v _ c] by (auto simp: b(3,4) map_le_def split: if_splits)
    then have "votes_may_expire E s s'"
      unfolding votes_may_expire_def using other_queue_pending(1) [OF assms(1) ok] b(2) by simp
    with 1(1) b(2) ok show ?case by (auto simp: kept_def intro: only_queues_outside)
  qed
  show "\<exists>s'. timeout_expired_votes E (admin_queue E c) s = (s', Inr ()) \<and> kept E s s' \<and> votes_may_expire E s s'"
  proof (rule timeout_expired_votes_effect [OF state_okD(2) [OF assms(1), of c] assms(2)], goal_cases)
    case (1 s')
    note b = queue_becomesD [OF 1(2)]
    have ok: "state_ok E s'" by (rule state_ok_queue_write [OF assms(1), where c = c, OF disjI2]) (use b in simp)
    have "pending_view E (admin_queue E v) s' = pending_view E (admin_queue E v) s" for v
      using views_any_config(4) [of E v _ c] by (simp add: b(4))
    then have "votes_may_expire E s s'"
      unfolding votes_may_expire_def using other_queue_pending(2,3) [OF assms(1) ok] b(2) by simp
    with 1(1) b(2) ok show ?case by (auto simp: kept_def intro: only_queues_outside)
  qed
qed

lemma keptD:
  assumes "kept E s s'"
  shows "state_ok E s'" "only_queues s s'" "block_height E s' = block_height E s"
    "block_time E s' = block_time E s" "config E s' = config E s"
  using assms only_queues_reads by (auto simp: kept_def)

lemma canonical_frames:
  "vget Canonical (fst (set_block_height E h s)) = vget Canonical s"
  "vget Canonical (fst (set_block_time E t s)) = vget Canonical s"
  "only_queues s s' \<Longrightarrow> vget Canonical s' = vget Canonical s"
  by (auto simp: set_block_height_def set_block_time_def record_block_time_def lift_res_def fun_eq_iff
      store_simps only_queues_def split: sum.splits)

lemma begin_block_effect:
  assumes "state_ok E s" "request_ok req"
  obtains s' where "begin_block E req s = (s', Inr ())" "state_ok E s'"
    "block_height E s' = Inr (fb_height req)" "block_time E s' = Inr (fb_time req)"
    "config E s' = config E s" "vget Canonical s' = vget Canonical s"
    "time_of_block E (fb_height req) s' = Inr (fb_time req)"
    "\<forall>h. h \<noteq> fb_height req \<longrightarrow> time_of_block E h s' = time_of_block E h s"
    "\<forall>h. previous_app_hash E h s' = previous_app_hash E h s" "votes_may_expire E s s'" "chain_id E s' = chain_id E s"
proof -
  have req: "fb_height req \<le> i64_max" "time_ok (fb_time req)" "0 \<le> fb_time req"
    using assms(2) by (simp_all add: request_ok_def)
  obtain s1 where s1: "set_block_height E (fb_height req) s = (s1, Inr ())" "state_ok E s1"
    "block_height E s1 = Inr (fb_height req)" "config E s1 = config E s"
    using set_block_height_effect [OF assms(1) req(1)] by (metis prod.collapse)
  obtain s2 where s2: "set_block_time E (fb_time req) s1 = (s2, Inr ())" "state_ok E s2"
    "block_time E s2 = Inr (fb_time req)" "block_height E s2 = Inr (fb_height req)" "config E s2 = config E s1"
    by (rule set_block_time_effect [OF s1(2) req(2,3) s1(3)])
  obtain cfg where cfg: "config E s2 = Inr cfg" using state_okD(3) [OF s2(2)] by blast
  obtain s3 where s3: "timeout_expired_votes E (admin_queue E (a_voting (admins cfg))) s2 = (s3, Inr ())"
    "kept E s2 s3" "votes_may_expire E s2 s3" using timeout_step(2) [OF s2(2,3)] by blast
  have t3: "block_time E s3 = Inr (fb_time req)" "config E s3 = Inr cfg"
    using keptD(4,5) [OF s3(2)] s2(3) cfg by simp_all
  obtain s4 where s4: "timeout_expired_votes E (oracle_queue E (o_voting (oracles cfg))) s3 = (s4, Inr ())"
    "kept E s3 s4" "votes_may_expire E s3 s4" using timeout_step(1) [OF keptD(1) [OF s3(2)] t3(1)] by blast
  have "begin_block E req s = (s4, Inr ())"
    using assms(1) s1(1) s2(1) cfg s3(1) s4(1) t3(2)
    by (simp add: begin_block_def mark_validators_voted_eq tombstone_all_eq admin_voting_def oracle_voting_def)
  moreover have "vget Canonical s4 = vget Canonical s"
    using canonical_frames(1) [of E "fb_height req" s] canonical_frames(2) [of E "fb_time req" s1]
      canonical_frames(3) [OF keptD(2) [OF s3(2)]] canonical_frames(3) [OF keptD(2) [OF s4(2)]]
    by (simp add: s1(1) s2(1))
  moreover have "time_of_block E (fb_height req) s4 = Inr (fb_time req)"
    "\<forall>h. h \<noteq> fb_height req \<longrightarrow> time_of_block E h s4 = time_of_block E h s"
    "\<forall>h. previous_app_hash E h s4 = previous_app_hash E h s" "votes_may_expire E s s4" "chain_id E s4 = chain_id E s"
  proof -
    have s1': "s1 = put (height_encode E) Internal ''current/block_height'' (fb_height req) s"
      using s1(1) by (simp add: set_block_height_def)
    have "block_height E (put (time_encode E) Internal ''current/block_time'' (fb_time req) s1) = Inr (fb_height req)"
      using s1(3) by (simp add: block_height_def get_simps)
    then have s2': "s2 = put (time_encode E) Internal (''blocktime/'' @ pad_height (fb_height req)) (fb_time req)
        (put (time_encode E) Internal ''current/block_time'' (fb_time req) s1)"
      using s2(1) by (simp add: set_block_time_def record_block_time_def)
    note later = only_queues_reads [OF only_queues_trans [OF keptD(2) [OF s3(2)] keptD(2) [OF s4(2)]], of E]
    show "time_of_block E (fb_height req) s4 = Inr (fb_time req)"
      unfolding later s2' by (simp add: time_of_block_def get_simps time_codec [OF state_okD(6) [OF assms(1)]] req)
    show "\<forall>h. h \<noteq> fb_height req \<longrightarrow> time_of_block E h s4 = time_of_block E h s"
      "\<forall>h. previous_app_hash E h s4 = previous_app_hash E h s" "chain_id E s4 = chain_id E s"
      unfolding later s2' s1' by (simp_all add: time_of_block_def previous_app_hash_def chain_id_def get_simps)
    have "same_queue ''oracle_voting/'' s s2" "same_queue ''admin_voting/'' s s2"
      unfolding s2' s1' by (simp_all add: same_queue_put queue_key_def)
    then have "votes_may_expire E s s2" by (rule votes_may_expire_queues [OF assms(1) s2(2)])
    then show "votes_may_expire E s s4" using s3(3) s4(3) votes_may_expire_trans by blast
  qed
  ultimately show thesis
    using keptD(1,3-5) [OF s3(2)] keptD(1,3-5) [OF s4(2)] s1 s2 by (intro that [of s4]) simp_all
qed

lemma apply_configs_effect:
  assumes "state_ok E s" "config E s = Inr c"
  shows "\<exists>s' c'. for_each (apply_config E) cfgs s = (s', Inr ()) \<and> state_ok E s' \<and> config E s' = Inr c' \<and>
    (c' = c \<or> version c < version c' \<and> (\<exists>kv \<in> set cfgs. c' = config_norm (snd kv))) \<and>
    block_time E s' = block_time E s \<and> block_height E s' = block_height E s \<and>
    votes_may_expire E s s' \<and> vget Canonical s' = vget Canonical s"
  using assms
proof (induction cfgs arbitrary: s c)
  case (Cons kv cfgs)
  let ?new = "snd kv"
  show ?case
  proof (cases "version ?new \<le> version c")
    case True
    then have "apply_config E kv s = (s, Inr ())" by (simp add: apply_config_def Cons.prems)
    with Cons.IH [OF Cons.prems] show ?thesis by simp blast
  next
    case False
    obtain s1 where s1: "set_config E ?new s = (s1, Inr ())"
      using set_config_effect(2) [OF Cons.prems(1), of ?new] by (metis prod.collapse)
    note set = set_config_effect [OF Cons.prems(1), of ?new, unfolded s1 fst_conv]
    have put: "s1 = put (config_encode E) Internal ''parameters/config'' ?new s"
      using s1 by (simp add: set_config_def)
    have step: "apply_config E kv s = (s1, Inr ())"
      using False s1 by (simp add: apply_config_def Cons.prems)
    have same: "block_time E s1 = block_time E s" "block_height E s1 = block_height E s"
      "same_queue ''oracle_voting/'' s s1" "same_queue ''admin_voting/'' s s1" "vget Canonical s1 = vget Canonical s"
      unfolding put by (simp_all add: block_time_def block_height_def get_simps same_queue_def queue_key_def
          store_simps fun_eq_iff)
    have new: "version c < version (config_norm ?new)" using False by (simp add: config_norm_def not_le)
    obtain s' c' where ih: "for_each (apply_config E) cfgs s1 = (s', Inr ())" "state_ok E s'" "config E s' = Inr c'"
      "c' = config_norm ?new \<or> version (config_norm ?new) < version c' \<and> (\<exists>kv \<in> set cfgs. c' = config_norm (snd kv))"
      "block_time E s' = block_time E s1"
      "block_height E s' = block_height E s1" "votes_may_expire E s1 s'"
      "vget Canonical s' = vget Canonical s1"
      using Cons.IH [OF set(1,3)] by blast
    have "for_each (apply_config E) (kv # cfgs) s = (s', Inr ())" by (simp add: step ih(1))
    moreover have "version c < version c' \<and> (\<exists>kv \<in> set (kv # cfgs). c' = config_norm (snd kv))"
      using ih(4) new by (auto intro: order_less_trans)
    moreover have "votes_may_expire E s s'"
      using votes_may_expire_queues [OF Cons.prems(1) set(1) same(3,4)] ih(7) by (rule votes_may_expire_trans)
    ultimately show ?thesis using ih(2,3,5,6,8) same(1,2,5) by metis
  qed
qed simp

lemma apply_observation_effect:
  assumes "state_ok E s"
  shows "snd (apply_observation E kv s) = Inr ()" "state_ok E (fst (apply_observation E kv s))"
    "vget Internal (fst (apply_observation E kv s)) = vget Internal s"
    "nget Internal (fst (apply_observation E kv s)) = nget Internal s"
    "vget Canonical (fst (apply_observation E kv s)) = (vget Canonical s)(pod_display (fst kv) :=
       (case ovv_hash_observed (snd kv) of Hash h \<Rightarrow> Some (bytes_encode E h) | NotFound \<Rightarrow> None))"
proof -
  have pod: "pod_of_domain (domain_of_pod p) = p" for p by (simp add: pod_of_domain_def domain_of_pod_def)
  obtain s' where s': "apply_observation E kv s = (s', Inr ())"
    "s' = put (bytes_encode E) Canonical (pod_display (fst kv))
        (case ovv_hash_observed (snd kv) of Hash h \<Rightarrow> h | NotFound \<Rightarrow> []) s \<or>
     s' = delete Canonical (pod_display (fst kv)) s"
    by (cases "ovv_hash_observed (snd kv)") (auto simp: apply_observation_def pod)
  have same: "config E s' = config E s" "block_time E s' = block_time E s"
    using s'(2) by (auto simp: config_def block_time_def get_simps)
  show "snd (apply_observation E kv s) = Inr ()" by (simp add: s'(1))
  have "state_ok E s'"
    by (rule state_ok_parameter [OF assms, of Canonical _ s' "bytes_encode E"])
      (use s'(2) same state_okD(3,4) [OF assms] in auto)
  then show "state_ok E (fst (apply_observation E kv s))" by (simp add: s'(1))
  show "vget Internal (fst (apply_observation E kv s)) = vget Internal s"
    "nget Internal (fst (apply_observation E kv s)) = nget Internal s"
    unfolding s'(1) using s'(2) by (auto simp: fun_eq_iff store_simps)
  show "vget Canonical (fst (apply_observation E kv s)) = (vget Canonical s)(pod_display (fst kv) :=
       (case ovv_hash_observed (snd kv) of Hash h \<Rightarrow> Some (bytes_encode E h) | NotFound \<Rightarrow> None))"
    by (cases "ovv_hash_observed (snd kv)")
      (auto simp: apply_observation_def pod fun_eq_iff store_simps)
qed

lemma apply_observations_effect:
  assumes "state_ok E s" "distinct (map (\<lambda>kv. pod_display (fst kv)) kvs)"
  shows "\<exists>s'. for_each (apply_observation E) kvs s = (s', Inr ()) \<and> state_ok E s' \<and>
    vget Internal s' = vget Internal s \<and> nget Internal s' = nget Internal s \<and>
    (\<forall>k. vget Canonical s' k =
      (case map_of (map (\<lambda>kv. (pod_display (fst kv), ovv_hash_observed (snd kv))) kvs) k of
         None \<Rightarrow> vget Canonical s k
       | Some (Hash h) \<Rightarrow> Some (bytes_encode E h)
       | Some NotFound \<Rightarrow> None))"
  using assms
proof (induction kvs arbitrary: s)
  case (Cons kv kvs)
  obtain s1 where step: "apply_observation E kv s = (s1, Inr ())"
    using apply_observation_effect(1) [OF Cons.prems(1), of kv] by (metis prod.collapse)
  note eff = apply_observation_effect [OF Cons.prems(1), of kv, unfolded step fst_conv]
  let ?m = "\<lambda>kvs. map_of (map (\<lambda>kv. (pod_display (fst kv), ovv_hash_observed (snd kv))) kvs)"
  let ?put = "\<lambda>x old. case x of None \<Rightarrow> old | Some (Hash h) \<Rightarrow> Some (bytes_encode E h) | Some NotFound \<Rightarrow> None"
  have none: "?m kvs (pod_display (fst kv)) = None"
    using Cons.prems(2) by (simp add: map_of_eq_None_iff image_image)
  obtain s' where s': "for_each (apply_observation E) kvs s1 = (s', Inr ())" "state_ok E s'"
    "vget Internal s' = vget Internal s1" "nget Internal s' = nget Internal s1" "\<And>k. vget Canonical s' k = ?put (?m kvs k) (vget Canonical s1 k)"
    using Cons.IH [OF eff(2)] Cons.prems(2) by auto
  have "vget Canonical s' k = ?put (?m (kv # kvs) k) (vget Canonical s k)" for k
  proof (cases "k = pod_display (fst kv)")
    case True
    then show ?thesis using none by (simp add: s'(5) eff(5) split: hash_observed.splits)
  next
    case False
    then have same: "vget Canonical s1 k = vget Canonical s k" by (simp add: eff(5))
    from False show ?thesis unfolding s'(5) same by simp
  qed
  moreover have "for_each (apply_observation E) (kv # kvs) s = (s', Inr ())"
    by (simp add: step s'(1))
  moreover have "vget Internal s' = vget Internal s" "nget Internal s' = nget Internal s" by (simp_all only: s'(3,4) eff(3,4))
  ultimately show ?case using s'(2) by blast
qed simp

section \<open>Promotion\<close>

lemma promote_admin:
  assumes "state_ok E s" "block_time E s = Inr now"
  shows "\<exists>s' kvs. promote_pending_changes E (admin_queue E c) s = (s', Inr kvs) \<and> kept E s s' \<and>
    same_outside ''admin_voting/'' s s' \<and>
    pending_view E (admin_queue E c) s' =
      (\<lambda>(k, t). if expired now (delay c) t then None else pending_view E (admin_queue E c) s (k, t)) \<and>
    (\<forall>kv \<in> set kvs. config_norm (snd kv) = snd kv \<and>
      (\<exists>t. pending_view E (admin_queue E c) s ([], t) = Some (snd kv) \<and> expired now (delay c) t))"
proof (rule promote_pending_changes_effect [OF state_okD(2) [OF assms(1), of c] assms(2)], goal_cases)
  case (1 s' ripe)
  note b = queue_becomesD [OF 1(2)]
  have "state_ok E s'" by (rule state_ok_queue_write [OF assms(1), where c = c, OF disjI2]) (use b in simp)
  then have "kept E s s'" "same_outside ''admin_voting/'' s s'"
    using b(2) by (auto simp: kept_def intro: only_queues_outside)
  moreover have "config_norm v = v \<and> (\<exists>t. pending_view E (admin_queue E c) s ([], t) = Some v \<and> expired now (delay c) t)"
    if "(k, t) \<in> set ripe" "v = the (pending_view E (admin_queue E c) s (k, t))" for k t v
  proof -
    from that 1(4) have v: "pending_view E (admin_queue E c) s (k, t) = Some v" "expired now (delay c) t" by auto
    then obtain bs where bs: "pending_row E (qp (admin_queue E c)) s (k, t) = Some bs"
      using pending_view_Some [OF state_okD(2) [OF assms(1), of c], of "(k, t)"] by auto
    obtain v' where v': "exact (admin_queue E c) v'" "pending_view E (admin_queue E c) s (k, t) = Some v'"
      "key_good (admin_queue E c) k"
      by (rule pending_row_decodes [OF state_okD(2) [OF assms(1)] bs])
    have "v' = v" "k = []" using v(1) v'(2,3) by (auto simp: key_good_def empty_display_def)
    moreover have "config_norm v' = v'"
      using v'(1) state_okD(6) [OF assms(1)] by (simp add: exact_def config_codec)
    ultimately show ?thesis using v by blast
  qed
  moreover have "pending_view E (admin_queue E c) s' =
      (\<lambda>(k, t). if expired now (delay c) t then None else pending_view E (admin_queue E c) s (k, t))"
    using b(4) by simp
  ultimately show ?case using 1(1) by auto
qed

text \<open>The observations promoted: the ripe pending changes, each under its own key.\<close>

lemma promote_oracle:
  fixes c :: voting_config
  assumes "state_ok E s" "block_time E s = Inr now"
  defines "P \<equiv> pending_view E (oracle_queue E c) s"
  obtains s' kvs where "promote_pending_changes E (oracle_queue E c) s = (s', Inr kvs)" "kept E s s'"
    "same_outside ''oracle_voting/'' s s'"
    "pending_view E (oracle_queue E c) s' = (\<lambda>(k, t). if expired now (delay c) t then None else P (k, t))"
    "distinct (map (\<lambda>kv. pod_display (fst kv)) kvs)"
    "\<forall>k v. (\<exists>p. (p, v) \<in> set kvs \<and> pod_display p = k) \<longleftrightarrow> (\<exists>t. P (k, t) = Some v \<and> expired now (delay c) t)"
proof -
  note q = state_okD(1) [OF assms(1), of c]
  obtain s' ripe where r: "promote_pending_changes E (oracle_queue E c) s =
      (s', Inr (map (\<lambda>(k, t). (projr (pod_try_from E k), the (P (k, t)))) ripe))"
    "queue_becomes E (oracle_queue E c) s s' (votes_view E (oracle_queue E c) s)
       (\<lambda>(k, t). if expired now (delay c) t then None else P (k, t))"
    "distinct ripe" "set ripe = {(k, t). P (k, t) \<noteq> None \<and> expired now (delay c) t}"
    "sorted_wrt (\<lambda>(k, t) (k', t'). t \<le> t') ripe"
    by (rule promote_pending_changes_effect [OF q assms(2), unfolded oracle_queue_sel, folded P_def])
  note b = queue_becomesD [OF r(2)]
  have ok: "state_ok E s'" by (rule state_ok_queue_write [OF assms(1), where c = c, OF disjI1]) (use b in simp)
  have disp: "pod_display (projr (pod_try_from E k)) = k" if kt: "P (k, t) \<noteq> None" for k t
  proof -
    from kt obtain bs where "pending_row E (qp (oracle_queue E c)) s (k, t) = Some bs"
      using pending_view_Some [OF q, of "(k, t)"] by (auto simp: P_def)
    then have "key_good (oracle_queue E c) k" by (rule pending_row_decodes [OF q])
    then show ?thesis by (auto simp: key_good_def)
  qed
  have uniq: "t = t'" if "P (k, t) \<noteq> None" "P (k, t') \<noteq> None" for k t t'
    using that pending_okD(4) [OF queue_okD(5) [OF q]] pending_view_Some [OF q] unfolding P_def by blast
  let ?kvs = "map (\<lambda>(k, t). (projr (pod_try_from E k), the (P (k, t)))) ripe"
  show thesis
  proof (rule that [OF r(1)])
    show "kept E s s'" using ok b(2) by (auto simp: kept_def intro: only_queues_outside)
    show "same_outside ''oracle_voting/'' s s'" using b(2) by simp
    show "pending_view E (oracle_queue E c) s' = (\<lambda>(k, t). if expired now (delay c) t then None else P (k, t))"
      by (rule b(4))
    have "map (\<lambda>kv. pod_display (fst kv)) ?kvs = map fst ripe"
      using r(4) disp by (auto simp del: not_None_eq)
    moreover have "distinct (map fst ripe)"
    proof -
      have "inj_on fst (set ripe)" unfolding r(4) inj_on_def using uniq by auto
      with r(3) show ?thesis by (simp add: distinct_map)
    qed
    ultimately show "distinct (map (\<lambda>kv. pod_display (fst kv)) ?kvs)" by (simp only:)
    show "\<forall>k v. (\<exists>p. (p, v) \<in> set ?kvs \<and> pod_display p = k) \<longleftrightarrow> (\<exists>t. P (k, t) = Some v \<and> expired now (delay c) t)"
    proof (intro allI iffI)
      fix k v assume "\<exists>p. (p, v) \<in> set ?kvs \<and> pod_display p = k"
      then obtain k' t where kt: "(k', t) \<in> set ripe" "v = the (P (k', t))"
        "pod_display (projr (pod_try_from E k')) = k" by auto
      then have "P (k', t) \<noteq> None" "expired now (delay c) t" unfolding r(4) by blast+
      with kt disp show "\<exists>t. P (k, t) = Some v \<and> expired now (delay c) t" by auto
    next
      fix k v assume "\<exists>t. P (k, t) = Some v \<and> expired now (delay c) t"
      then obtain t where t: "P (k, t) = Some v" "expired now (delay c) t" by blast
      then have "(k, t) \<in> set ripe" unfolding r(4) by simp
      moreover have "pod_display (projr (pod_try_from E k)) = k" using disp t(1) by (metis option.distinct(1))
      ultimately show "\<exists>p. (p, v) \<in> set ?kvs \<and> pod_display p = k" using t(1) by force
    qed
  qed
qed

text \<open>Which hash a block leaves under a canonical key: that of the ripe pending change, if there is one.
  The delay is that of the configuration the block ends with.\<close>

definition promoted_hash ::
  "env \<Rightarrow> config \<Rightarrow> time \<Rightarrow> contents \<Rightarrow> string \<Rightarrow> hash_observed \<Rightarrow> bool" where
  "promoted_hash E c now s k h =
    (\<exists>t v. pending_view E (oracle_queue E (o_voting (oracles c))) s (k, t) = Some v \<and>
      expired now (delay (o_voting (oracles c))) t \<and> ovv_hash_observed v = h)"

definition canonical_after :: "env \<Rightarrow> config \<Rightarrow> time \<Rightarrow> contents \<Rightarrow> contents \<Rightarrow> bool" where
  "canonical_after E c now s s' =
    (\<forall>k. (\<forall>h. promoted_hash E c now s k (Hash h) \<longrightarrow> vget Canonical s' k = Some (bytes_encode E h)) \<and>
         (promoted_hash E c now s k NotFound \<longrightarrow> vget Canonical s' k = None) \<and>
         ((\<forall>h. \<not> promoted_hash E c now s k h) \<longrightarrow> vget Canonical s' k = vget Canonical s k))"

text \<open>The two halves of the end of a block: the configurations promoted, and the observations.\<close>

lemma promote_configs:
  assumes "state_ok E s" "block_time E s = Inr now" "config E s = Inr c"
  defines "Q \<equiv> admin_queue E (a_voting (admins c))" and "ripe \<equiv> expired now (delay (a_voting (admins c)))"
  obtains s1 cfgs s2 c' where "promote_pending_changes E Q s = (s1, Inr cfgs)" "for_each (apply_config E) cfgs s1 = (s2, Inr ())"
    "state_ok E s2" "config E s2 = Inr c'"
    "c' = c \<or> version c < version c' \<and> (\<exists>t. pending_view E Q s ([], t) = Some c' \<and> ripe t)"
    "block_time E s2 = Inr now" "block_height E s2 = block_height E s" "vget Canonical s2 = vget Canonical s"
    "\<And>v. pending_view E (oracle_queue E v) s2 = pending_view E (oracle_queue E v) s"
    "pending_view E Q s2 = (\<lambda>(k, t). if ripe t then None else pending_view E Q s (k, t))"
proof -
  obtain s1 cfgs where s1: "promote_pending_changes E Q s = (s1, Inr cfgs)" "kept E s s1" "same_outside ''admin_voting/'' s s1"
    "pending_view E Q s1 = (\<lambda>(k, t). if ripe t then None else pending_view E Q s (k, t))"
    "\<forall>kv \<in> set cfgs. config_norm (snd kv) = snd kv \<and> (\<exists>t. pending_view E Q s ([], t) = Some (snd kv) \<and> ripe t)"
    using promote_admin [OF assms(1,2)] unfolding Q_def ripe_def by blast
  note k1 = keptD [OF s1(2)]
  have "config E s1 = Inr c" using k1(5) assms(3) by simp
  from apply_configs_effect [OF k1(1) this] obtain s2 c2 where
    s2: "for_each (apply_config E) cfgs s1 = (s2, Inr ())" "state_ok E s2" "config E s2 = Inr c2"
    "c2 = c \<or> version c < version c2 \<and> (\<exists>kv \<in> set cfgs. c2 = config_norm (snd kv))" "block_time E s2 = block_time E s1"
    "block_height E s2 = block_height E s1" "votes_may_expire E s1 s2" "vget Canonical s2 = vget Canonical s1"
    by blast
  have "c2 = c \<or> version c < version c2 \<and> (\<exists>t. pending_view E Q s ([], t) = Some c2 \<and> ripe t)"
    using s2(4) s1(5) by metis
  moreover have "pending_view E (oracle_queue E v) s2 = pending_view E (oracle_queue E v) s" for v
    using s2(7) other_queue_pending(2) [OF assms(1) k1(1) s1(3)] by (simp add: votes_may_expire_def)
  moreover have "pending_view E Q s2 = pending_view E Q s1" using s2(7) by (simp add: votes_may_expire_def Q_def)
  ultimately show thesis
    using s1(1,4) s2(1-3,5,6,8) k1(3,4) canonical_frames(3) [OF k1(2)] assms(2) by (intro that [of s1 cfgs s2 c2]) simp_all
qed

lemma promote_observations:
  assumes "state_ok E s" "block_time E s = Inr now" "config E s = Inr c"
  defines "Q \<equiv> oracle_queue E (o_voting (oracles c))"
  obtains s1 kvs s2 where "promote_pending_changes E Q s = (s1, Inr kvs)" "for_each (apply_observation E) kvs s1 = (s2, Inr ())"
    "state_ok E s2" "config E s2 = Inr c" "block_time E s2 = Inr now" "block_height E s2 = block_height E s"
    "canonical_after E c now s s2"
    "pending_view E Q s2 = (\<lambda>(k, t). if expired now (delay (o_voting (oracles c))) t then None else pending_view E Q s (k, t))"
    "\<And>v. pending_view E (admin_queue E v) s2 = pending_view E (admin_queue E v) s"
proof -
  let ?P = "pending_view E Q"
  obtain s1 kvs where s1: "promote_pending_changes E Q s = (s1, Inr kvs)" "kept E s s1" "same_outside ''oracle_voting/'' s s1"
    "?P s1 = (\<lambda>(k, t). if expired now (delay (o_voting (oracles c))) t then None else ?P s (k, t))"
    "distinct (map (\<lambda>kv. pod_display (fst kv)) kvs)"
    "\<forall>k v. (\<exists>p. (p, v) \<in> set kvs \<and> pod_display p = k) \<longleftrightarrow>
      (\<exists>t. ?P s (k, t) = Some v \<and> expired now (delay (o_voting (oracles c))) t)"
    unfolding Q_def by (rule promote_oracle [OF assms(1,2), of "o_voting (oracles c)"])
  note k1 = keptD [OF s1(2)]
  let ?kvs = "map (\<lambda>kv. (pod_display (fst kv), ovv_hash_observed (snd kv))) kvs"
  obtain s2 where s2: "for_each (apply_observation E) kvs s1 = (s2, Inr ())" "state_ok E s2"
    "vget Internal s2 = vget Internal s1" "nget Internal s2 = nget Internal s1"
    "\<And>k. vget Canonical s2 k = (case map_of ?kvs k of None \<Rightarrow> vget Canonical s1 k
       | Some (Hash h) \<Rightarrow> Some (bytes_encode E h) | Some NotFound \<Rightarrow> None)"
    using apply_observations_effect [OF k1(1) s1(5)] by blast
  have get2: "get dec Internal k s2 = get dec Internal k s1" for k and dec :: "bytes \<Rightarrow> error + 'v"
    by (simp add: get_eq s2(3))
  have m: "map_of ?kvs k = Some h \<longleftrightarrow> promoted_hash E c now s k h" for k h
  proof -
    have "distinct (map fst ?kvs)" using s1(5) by (simp add: comp_def)
    then have "map_of ?kvs k = Some h \<longleftrightarrow> (k, h) \<in> set ?kvs" by (rule map_of_eq_Some_iff)
    also have "\<dots> \<longleftrightarrow> (\<exists>v. (\<exists>p. (p, v) \<in> set kvs \<and> pod_display p = k) \<and> ovv_hash_observed v = h)" by force
    also have "\<dots> \<longleftrightarrow> promoted_hash E c now s k h" using s1(6) unfolding promoted_hash_def Q_def by blast
    finally show ?thesis .
  qed
  have put: "vget Canonical s2 k = (case map_of ?kvs k of None \<Rightarrow> vget Canonical s k
       | Some (Hash h) \<Rightarrow> Some (bytes_encode E h) | Some NotFound \<Rightarrow> None)" for k
    using s2(5) [of k] unfolding canonical_frames(3) [OF k1(2)] .
  have after: "canonical_after E c now s s2"
    unfolding canonical_after_def put m [symmetric]
    by (intro allI conjI impI) (auto simp: not_Some_eq split: option.splits)
  have pend: "votes_may_expire E s1 s2"
    by (rule votes_may_expire_queues [OF k1(1) s2(2)]) (simp_all add: same_queue_def s2(3,4))
  then have "pending_view E (admin_queue E v) s2 = pending_view E (admin_queue E v) s" for v
    using other_queue_pending(1) [OF assms(1) k1(1) s1(3)] by (simp add: votes_may_expire_def)
  moreover have "?P s2 = ?P s1" using pend by (simp add: votes_may_expire_def Q_def)
  moreover have "config E s2 = Inr c" "block_time E s2 = Inr now" "block_height E s2 = block_height E s"
    using k1(3-5) assms(2,3) by (simp_all add: reads get2)
  ultimately show thesis
    using s1(1,4) s2(1,2) after by (intro that [of s1 kvs s2]) simp_all
qed

lemma end_block_effect:
  assumes "state_ok E s" "block_time E s = Inr now" "config E s = Inr c"
  obtains s' us c' where "end_block E s = (s', Inr us)" "state_ok E s'" "config E s' = Inr c'"
    "c' = c \<or> version c < version c' \<and> (\<exists>t. pending_view E (admin_queue E (a_voting (admins c))) s ([], t) = Some c' \<and>
      expired now (delay (a_voting (admins c))) t)"
    "block_height E s' = block_height E s" "block_time E s' = Inr now"
    "set us = {Update pk pw | pk pw. validators_view E s' pk = Some pw \<and> 0 < pw}"
    "canonical_after E c' now s s'"
    "\<And>v k t. pending_view E (oracle_queue E v) s' (k, t) =
      (if expired now (delay (o_voting (oracles c'))) t then None else pending_view E (oracle_queue E v) s (k, t))"
    "\<And>v k t. pending_view E (admin_queue E v) s' (k, t) =
      (if expired now (delay (a_voting (admins c))) t then None else pending_view E (admin_queue E v) s (k, t))"
proof -
  obtain s1 cfgs s2 c2 where
    p: "promote_pending_changes E (admin_queue E (a_voting (admins c))) s = (s1, Inr cfgs)"
      "for_each (apply_config E) cfgs s1 = (s2, Inr ())" and
    s2: "state_ok E s2" "config E s2 = Inr c2"
    "c2 = c \<or> version c < version c2 \<and> (\<exists>t. pending_view E (admin_queue E (a_voting (admins c))) s ([], t) = Some c2 \<and>
      expired now (delay (a_voting (admins c))) t)"
    "block_time E s2 = Inr now" "block_height E s2 = block_height E s" "vget Canonical s2 = vget Canonical s"
    "\<And>v. pending_view E (oracle_queue E v) s2 = pending_view E (oracle_queue E v) s"
    "pending_view E (admin_queue E (a_voting (admins c))) s2 = (\<lambda>(k, t). if expired now (delay (a_voting (admins c))) t
      then None else pending_view E (admin_queue E (a_voting (admins c))) s (k, t))"
    by (rule promote_configs [OF assms]) blast
  obtain s3 kvs s4 where
    q: "promote_pending_changes E (oracle_queue E (o_voting (oracles c2))) s2 = (s3, Inr kvs)"
      "for_each (apply_observation E) kvs s3 = (s4, Inr ())" and
    s4: "state_ok E s4" "config E s4 = Inr c2" "block_time E s4 = Inr now" "block_height E s4 = block_height E s2"
    "canonical_after E c2 now s2 s4"
    "pending_view E (oracle_queue E (o_voting (oracles c2))) s4 = (\<lambda>(k, t). if expired now (delay (o_voting (oracles c2))) t
      then None else pending_view E (oracle_queue E (o_voting (oracles c2))) s2 (k, t))"
    "\<And>v. pending_view E (admin_queue E v) s4 = pending_view E (admin_queue E v) s2"
    by (rule promote_observations [OF s2(1,4,2)]) blast
  obtain us where us: "active_validators E s4 = Inr us"
    "set us = {Update pk pw | pk pw. validators_view E s4 pk = Some pw \<and> 0 < pw}"
    by (rule active_validators_ok [OF s4(1)])
  show thesis
  proof (rule that [of s4 us c2])
    show "end_block E s = (s4, Inr us)"
      using assms(3) p q s2(2) us(1) by (simp add: end_block_def admin_voting_def oracle_voting_def)
    show "canonical_after E c2 now s s4"
      using s4(5) unfolding canonical_after_def promoted_hash_def s2(6,7) .
    show "pending_view E (oracle_queue E v) s4 (k, t) = (if expired now (delay (o_voting (oracles c2))) t then None
        else pending_view E (oracle_queue E v) s (k, t))" for v k t
      using fun_cong [OF s4(6), of "(k, t)"] views_any_config(2) [of E v _ "o_voting (oracles c2)"] s2(7) by simp
    show "pending_view E (admin_queue E v) s4 (k, t) = (if expired now (delay (a_voting (admins c))) t then None
        else pending_view E (admin_queue E v) s (k, t))" for v k t
      using fun_cong [OF s2(8), of "(k, t)"] views_any_config(4) [of E v _ "a_voting (admins c)"] s4(7) by simp
  qed (use s2 s4 us in simp_all)
qed

lemma finalize_block_effect:
  assumes "state_ok E s" "request_ok req" "config E s = Inr c"
  obtains s' c' results us where
    "finalize_block E req s = (s', Inr \<lparr>fbr_tx_results = results, fbr_validator_updates = us, fbr_app_hash = []\<rparr>)"
    "state_ok E s'" "length results = length (fb_txs req)"
    "block_height E s' = Inr (fb_height req)" "block_time E s' = Inr (fb_time req)"
    "config E s' = Inr c'" "c' = c \<or> version c < version c'"
    "set us = {Update pk pw | pk pw. validators_view E s' pk = Some pw \<and> 0 < pw}"
    "\<exists>m. state_ok E m \<and> vget Canonical m = vget Canonical s \<and> canonical_after E c' (fb_time req) m s'"
proof -
  obtain s1 where s1: "begin_block E req s = (s1, Inr ())" "state_ok E s1"
    "block_height E s1 = Inr (fb_height req)" "block_time E s1 = Inr (fb_time req)" "config E s1 = config E s"
    "vget Canonical s1 = vget Canonical s"
    by (rule begin_block_effect [OF assms(1,2)]) blast
  obtain s2 results where s2: "deliver_txs E (fb_txs req) s1 = (s2, results)" by fastforce
  have k2: "kept E s1 s2" using deliver_txs_invariant [OF s1(2), of "fb_txs req"] s2 by simp
  note d2 = keptD [OF k2]
  have t2: "block_time E s2 = Inr (fb_time req)" "config E s2 = Inr c"
    using d2(4,5) s1(4,5) assms(3) by simp_all
  obtain s3 us c' where s3: "end_block E s2 = (s3, Inr us)" "state_ok E s3" "config E s3 = Inr c'"
    "c' = c \<or> version c < version c'" "block_height E s3 = block_height E s2" "block_time E s3 = Inr (fb_time req)"
    "set us = {Update pk pw | pk pw. validators_view E s3 pk = Some pw \<and> 0 < pw}"
    "canonical_after E c' (fb_time req) s2 s3"
    by (rule end_block_effect [OF d2(1) t2]) blast
  have "finalize_block E req s =
      (s3, Inr \<lparr>fbr_tx_results = results, fbr_validator_updates = us, fbr_app_hash = []\<rparr>)"
    by (simp add: finalize_block_def s1(1) s2 s3(1))
  moreover have "length results = length (fb_txs req)"
    using length_deliver_txs [of E "fb_txs req" s1] s2 by simp
  moreover have "\<exists>m. state_ok E m \<and> vget Canonical m = vget Canonical s \<and>
      canonical_after E c' (fb_time req) m s3"
    using d2(1) canonical_frames(3) [OF d2(2)] s1(6) s3(8) by auto
  ultimately show thesis
    using s3(2-7) d2(3) s1(3) by (intro that [of s3 results us c']) simp_all
qed

end
