(* ===== verification/Genesis.thy ===== *)
theory Genesis
  imports Block_Facts
begin

text \<open>
  The start of the chain: \<open>init_chain\<close> on the empty store gives a state that satisfies the invariant,
  with the configuration, the chain id and the validators of the request.
\<close>

section \<open>The empty store\<close>

lemma get_empty [simp]:
  "vget sub empty_contents k = None" "nget sub empty_contents bk = None"
  by (simp_all add: empty_contents_def vget_def nget_def)

lemma contents_ok_empty [simp]: "contents_ok empty_contents"
  by (simp add: contents_ok_def empty_contents_def om_invar_def)

lemma rows_empty [simp]:
  "vote_row E p empty_contents i = None" "vote_index_row E p empty_contents i = None"
  "pending_row E p empty_contents j = None" "pending_index_row E p empty_contents j = None"
  by (simp_all add: vote_row_def vote_index_row_def pending_row_def pending_index_row_def
      votes.row_def vote_index.row_def pendings.row_def pending_index.row_def)

lemma queue_ok_empty: "env_ok E \<Longrightarrow> queue_ok E Q empty_contents"
  by (simp add: queue_ok_def tables_ok_def votes_ok_def pending_ok_def fun_eq_iff
      votes.table_ok_def vote_index.table_ok_def pendings.table_ok_def pending_index.table_ok_def)

lemma views_empty [simp]:
  "votes_view E Q empty_contents i = None" "pending_view E Q empty_contents j = None"
  by (simp_all add: votes_view_def pending_view_def)

section \<open>Declaring the validators\<close>

lemma declare_validator_effect:
  assumes "state_ok E s" "vget Internal s (validator_key E (vu_pub_key v)) = None"
    and "ed25519_from_raw E (pk_to_bytes (vu_pub_key v)) = Some (vu_pub_key v)" "vu_power v \<le> i64_max"
  obtains s' where "declare_validator E v s = (s', Inr ())" "state_ok E s'"
    "validators_view E s' = (validators_view E s)(vu_pub_key v \<mapsto> vu_power v)"
    "config E s' = config E s" "chain_id E s' = chain_id E s"
    "vget Internal s' = (vget Internal s)(validator_key E (vu_pub_key v) \<mapsto> power_encode E (vu_power v))"
    "vget Canonical s' = vget Canonical s" "nget Internal s' = nget Internal s"
proof -
  let ?k = "validator_key E (vu_pub_key v)"
  let ?s = "put (power_encode E) Internal ?k (vu_power v) s"
  note env = state_okD(6) [OF assms(1)]
  have dec: "power_decode E (power_encode E (vu_power v)) = Inr (vu_power v)"
    using env assms(4) by (simp add: power_codec)
  have key: "\<not> prefix ''oracle_voting/'' ?k" "\<not> prefix ''admin_voting/'' ?k" "?k \<noteq> ''parameters/config''"
    "?k \<noteq> ''current/block_time''" "?k \<noteq> ''parameters/chain_id''"
    by (simp_all add: validator_key_def)
  have same: "config E ?s = config E s" "block_time E ?s = block_time E s" "chain_id E ?s = chain_id E s"
    using key by (simp_all add: reads get_simps)
  have "same_queue p s ?s" if "p = ''oracle_voting/'' \<or> p = ''admin_voting/''" for p
    using that key by (auto simp: same_queue_def queue_key_def store_simps)
  then have "queue_ok E (oracle_queue E c) ?s" "queue_ok E (admin_queue E c) ?s" for c
    using state_okD(7) [OF assms(1)] queue_ok_cong(1) [of "oracle_queue E c" s ?s]
      queue_ok_cong(1) [of "admin_queue E c" s ?s] state_okD(1,2) [OF assms(1)] by simp_all
  moreover have "validator_table_ok E ?s"
    using state_okD(5) [OF assms(1)] assms(3) dec by (auto simp: validator_table_ok_def store_simps)
  ultimately have ok: "state_ok E ?s"
    using state_okD(3,4) [OF assms(1)] by (auto simp: state_ok_def same)
  have "validators_view E ?s = (validators_view E s)(vu_pub_key v \<mapsto> vu_power v)"
  proof (rule ext)
    fix pk
    have "?k = validator_key E pk \<longleftrightarrow> pk = vu_pub_key v" using validator_key_inj [OF env] by blast
    then show "validators_view E ?s pk = ((validators_view E s)(vu_pub_key v \<mapsto> vu_power v)) pk"
      by (simp add: validators_view_def store_simps dec)
  qed
  moreover have "declare_validator E v s = (?s, Inr ())"
    using assms(2) by (simp add: declare_validator_def get_eq)
  ultimately show thesis using ok same by (intro that [of ?s]) (simp_all add: fun_eq_iff store_simps)
qed

definition validators_ok :: "env \<Rightarrow> validator_update list \<Rightarrow> bool" where
  "validators_ok E vs =
    (distinct (map vu_pub_key vs) \<and>
     (\<forall>v \<in> set vs. ed25519_from_raw E (pk_to_bytes (vu_pub_key v)) = Some (vu_pub_key v) \<and>
        vu_power v \<le> i64_max))"

lemma declare_validators_effect:
  assumes "state_ok E s" "validators_ok E vs"
    "\<forall>v \<in> set vs. vget Internal s (validator_key E (vu_pub_key v)) = None"
  shows "\<exists>s'. for_each (declare_validator E) vs s = (s', Inr ()) \<and> state_ok E s' \<and>
    validators_view E s' = validators_view E s ++ map_of (map (\<lambda>v. (vu_pub_key v, vu_power v)) vs) \<and>
    config E s' = config E s \<and> chain_id E s' = chain_id E s \<and> vget Canonical s' = vget Canonical s \<and>
    nget Internal s' = nget Internal s \<and>
    (\<forall>k. \<not> prefix ''current/validators/'' k \<longrightarrow> vget Internal s' k = vget Internal s k)"
  using assms
proof (induction vs arbitrary: s)
  case (Cons v vs)
  note env = state_okD(6) [OF Cons.prems(1)]
  obtain s1 where s1: "declare_validator E v s = (s1, Inr ())" "state_ok E s1"
    "validators_view E s1 = (validators_view E s)(vu_pub_key v \<mapsto> vu_power v)"
    "config E s1 = config E s" "chain_id E s1 = chain_id E s"
    "vget Internal s1 = (vget Internal s)(validator_key E (vu_pub_key v) \<mapsto> power_encode E (vu_power v))"
    "vget Canonical s1 = vget Canonical s" "nget Internal s1 = nget Internal s"
    by (rule declare_validator_effect [OF Cons.prems(1), of v]) (use Cons.prems(2,3) in \<open>auto simp: validators_ok_def\<close>)
  have vs: "validators_ok E vs" and new: "vu_pub_key v \<notin> vu_pub_key ` set vs"
    using Cons.prems(2) by (auto simp: validators_ok_def)
  have none: "\<forall>w \<in> set vs. vget Internal s1 (validator_key E (vu_pub_key w)) = None"
  proof
    fix w assume w: "w \<in> set vs"
    then have "vu_pub_key w \<noteq> vu_pub_key v" using new by (metis image_eqI)
    then have "validator_key E (vu_pub_key w) \<noteq> validator_key E (vu_pub_key v)"
      using validator_key_inj [OF env] by blast
    with w Cons.prems(3) show "vget Internal s1 (validator_key E (vu_pub_key w)) = None"
      by (simp add: s1(6))
  qed
  obtain s2 where s2: "for_each (declare_validator E) vs s1 = (s2, Inr ())" "state_ok E s2"
    "validators_view E s2 = validators_view E s1 ++ map_of (map (\<lambda>v. (vu_pub_key v, vu_power v)) vs)"
    "config E s2 = config E s1" "chain_id E s2 = chain_id E s1" "vget Canonical s2 = vget Canonical s1"
    "nget Internal s2 = nget Internal s1"
    "\<And>k. \<not> prefix ''current/validators/'' k \<Longrightarrow> vget Internal s2 k = vget Internal s1 k"
    using Cons.IH [OF s1(2) vs none] by auto
  have m: "map_of (map (\<lambda>v. (vu_pub_key v, vu_power v)) vs) (vu_pub_key v) = None"
    using new by (simp add: map_of_eq_None_iff image_image)
  have "validators_view E s2 = validators_view E s ++ map_of (map (\<lambda>v. (vu_pub_key v, vu_power v)) (v # vs))"
    by (rule ext) (simp add: s2(3) s1(3) map_add_def m split: option.splits)
  moreover have "\<forall>k. \<not> prefix ''current/validators/'' k \<longrightarrow> vget Internal s2 k = vget Internal s k"
    using s2(8) by (auto simp: s1(6) validator_key_def)
  moreover have "for_each (declare_validator E) (v # vs) s = (s2, Inr ())" by (simp add: s1(1) s2(1))
  moreover have "config E s2 = config E s" "chain_id E s2 = chain_id E s" "vget Canonical s2 = vget Canonical s"
    "nget Internal s2 = nget Internal s" using s1(4,5,7,8) s2(4-7) by simp_all
  ultimately show ?case using s2(2) by blast
qed simp

section \<open>The initial state\<close>

text \<open>A state that differs from the empty one outside the queues only.\<close>

lemma fresh_queues:
  assumes "contents_ok s" "env_ok E"
    and same: "\<And>p. p = ''oracle_voting/'' \<or> p = ''admin_voting/'' \<Longrightarrow> same_queue p empty_contents s"
  shows "queue_ok E (oracle_queue E c) s" "queue_ok E (admin_queue E c) s"
    "votes_view E (oracle_queue E c) s = Map.empty" "pending_view E (oracle_queue E c) s = Map.empty"
    "votes_view E (admin_queue E c) s = Map.empty" "pending_view E (admin_queue E c) s = Map.empty"
proof -
  have o: "same_queue (qp (oracle_queue E c)) empty_contents s"
    and a: "same_queue (qp (admin_queue E c)) empty_contents s" using same by simp_all
  note oc = queue_ok_cong [OF o assms(1) queue_ok_empty [OF assms(2)]]
  note ac = queue_ok_cong [OF a assms(1) queue_ok_empty [OF assms(2)]]
  show "queue_ok E (oracle_queue E c) s" "queue_ok E (admin_queue E c) s"
    "votes_view E (oracle_queue E c) s = Map.empty" "pending_view E (oracle_queue E c) s = Map.empty"
    "votes_view E (admin_queue E c) s = Map.empty" "pending_view E (admin_queue E c) s = Map.empty"
    using oc ac by (simp_all add: fun_eq_iff)
qed

lemma init_chain_effect:
  assumes "env_ok E" "ic_initial_height req = 1" "validators_ok E (ic_validators req)" "ic_chain_id req \<noteq> []"
    "genesis_config E (ic_app_state_bytes req) = Inr cfg"
  obtains s' where "init_chain E req empty_contents =
      (s', Inr \<lparr>icr_consensus_params = Some (ic_consensus_params req), icr_validators = ic_validators req,
                icr_app_hash = sha256 E (init_chain_request_encode E req)\<rparr>)"
    "state_ok E s'" "config E s' = Inr (config_norm cfg)" "chain_id E s' = Inr (ChainId (ic_chain_id req))"
    "validators_view E s' = map_of (map (\<lambda>v. (vu_pub_key v, vu_power v)) (ic_validators req))"
    "vget Canonical s' = Map.empty" "votes_view E (oracle_queue E c) s' = Map.empty"
    "pending_view E (oracle_queue E c) s' = Map.empty" "votes_view E (admin_queue E c) s' = Map.empty"
    "pending_view E (admin_queue E c) s' = Map.empty"
proof -
  let ?id = "ChainId (ic_chain_id req)"
  let ?s1 = "put (chain_id_encode E) Internal ''parameters/chain_id'' ?id empty_contents"
  let ?s2 = "put (config_encode E) Internal ''parameters/config'' cfg ?s1"
  have idok: "chain_id_decode E (chain_id_encode E ?id) = Inr ?id"
    using assms(1,4) by (simp add: chain_id_codec)
  have reads2: "config E ?s2 = Inr (config_norm cfg)" "chain_id E ?s2 = Inr ?id"
    "block_time E ?s2 = Inl (NotInState ''block time'')"
    using assms(1) idok by (simp_all add: reads get_simps config_codec) (simp add: get_eq)
  have same2: "same_queue p empty_contents ?s2" if "p = ''oracle_voting/'' \<or> p = ''admin_voting/''" for p
    using that by (auto simp: same_queue_def queue_key_def store_simps)
  have ok2: "state_ok E ?s2"
    using fresh_queues(1,2) [OF _ assms(1) same2] reads2
    by (auto simp: state_ok_def validator_table_ok_def store_simps)
  have view2: "validators_view E ?s2 = Map.empty"
    by (simp add: fun_eq_iff validators_view_def store_simps validator_key_def)
  have none: "\<forall>v \<in> set (ic_validators req). vget Internal ?s2 (validator_key E (vu_pub_key v)) = None"
    by (simp add: store_simps validator_key_def)
  obtain s3 where s3: "for_each (declare_validator E) (ic_validators req) ?s2 = (s3, Inr ())" "state_ok E s3"
    "validators_view E s3 = map_of (map (\<lambda>v. (vu_pub_key v, vu_power v)) (ic_validators req))"
    "config E s3 = config E ?s2" "chain_id E s3 = chain_id E ?s2" "vget Canonical s3 = vget Canonical ?s2"
    "nget Internal s3 = nget Internal ?s2"
    "\<And>k. \<not> prefix ''current/validators/'' k \<Longrightarrow> vget Internal s3 k = vget Internal ?s2 k"
    using declare_validators_effect [OF ok2 assms(3) none] unfolding view2 by auto
  have "same_queue p empty_contents s3" if p: "p = ''oracle_voting/'' \<or> p = ''admin_voting/''" for p
  proof -
    have "\<not> prefix ''current/validators/'' k" if "queue_key p k" for k
      using p that by (auto simp: queue_key_def prefix_def)
    then show ?thesis using same2 [OF p] s3(7,8) by (simp add: same_queue_def)
  qed
  then have q: "votes_view E (oracle_queue E c) s3 = Map.empty" "pending_view E (oracle_queue E c) s3 = Map.empty"
    "votes_view E (admin_queue E c) s3 = Map.empty" "pending_view E (admin_queue E c) s3 = Map.empty"
    by (rule fresh_queues(3-6) [OF state_okD(7) [OF s3(2)] assms(1)]; simp)+
  have "chain_id E empty_contents = Inl (NotInState ''chain ID'')" by (simp add: chain_id_def get_eq)
  then have "init_chain E req empty_contents =
      (s3, Inr \<lparr>icr_consensus_params = Some (ic_consensus_params req), icr_validators = ic_validators req,
                icr_app_hash = sha256 E (init_chain_request_encode E req)\<rparr>)"
    using assms(2,5) s3(1)
    by (simp add: init_chain_def set_chain_id_def set_config_def env_app_hash [OF assms(1)])
  moreover have "vget Canonical s3 = Map.empty" by (rule ext) (simp add: s3(6) store_simps)
  ultimately show thesis using s3(2-5) reads2 q by (intro that [of s3]) simp_all
qed

end
