(* ===== verification/Enrollment.thy ===== *)
theory Enrollment
  imports Genesis
begin

text \<open>
  Which names are enrolled under a registered domain: the canonical names and the pending ones at or
  below it. The prefixes the code scans for pick out exactly the subdomains, the scans do not fail on a
  well-formed canonical table, and the limit check counts the enrolled names once each.
\<close>

section \<open>Names below a name\<close>

lemma split_on_join_append:
  assumes "R \<noteq> []" "\<forall>l \<in> set R. c \<notin> set l"
  shows "split_on c (join [c] R @ c # z) = R @ split_on c z"
  using assms by (induction "[c]" R rule: join.induct) (simp_all add: str_simps)

lemma join_append:
  "R \<noteq> [] \<Longrightarrow> Q \<noteq> [] \<Longrightarrow> join sep (R @ Q) = join sep R @ sep @ join sep Q"
proof (induction sep R rule: join.induct)
  case (2 sep x)
  then show ?case by (cases Q) auto
qed auto

lemma join_prefix_iff:
  assumes "R \<noteq> []" "\<forall>l \<in> set R. c \<notin> set l" "\<forall>l \<in> set P. c \<notin> set l"
  shows "prefix (join [c] R @ [c]) (join [c] P) \<longleftrightarrow> strict_prefix R P"
proof
  assume "prefix (join [c] R @ [c]) (join [c] P)"
  then obtain z where z: "join [c] P = join [c] R @ c # z" by (auto simp: prefix_def)
  then have "P \<noteq> []" by auto
  with assms(3) have "split_on c (join [c] P) = P" by (intro split_on_join) auto
  with z split_on_join_append [OF assms(1,2)] have "P = R @ split_on c z" by simp
  then show "strict_prefix R P" by (simp add: strict_prefix_def)
next
  assume "strict_prefix R P"
  then obtain Q where "P = R @ Q" "Q \<noteq> []" by (auto simp: strict_prefix_def prefix_def)
  with join_append [OF assms(1), of Q "[c]"] show "prefix (join [c] R @ [c]) (join [c] P)" by simp
qed

lemma pod_prefix_iff:
  assumes "env_ok E" "fqdn_valid E (pod_name r)" "fqdn_valid E (pod_name p)" "pod_name r \<noteq> fqdn_root"
  shows "prefix (pod_display r @ ''.'') (pod_display p) \<longleftrightarrow>
    fqdn_is_subdomain_of (pod_name p) (pod_name r) \<and> p \<noteq> r"
proof -
  have "\<forall>l \<in> set (rev (pod_name r)). CHR ''.'' \<notin> set l" "\<forall>l \<in> set (rev (pod_name p)). CHR ''.'' \<notin> set l"
    using env_label_ok [OF assms(1,2)] env_label_ok [OF assms(1,3)] by (auto simp: label_ok_def)
  moreover have "rev (pod_name r) \<noteq> []" using assms(4) by (simp add: fqdn_root_def)
  ultimately have iff: "prefix (join ''.'' (rev (pod_name r)) @ ''.'') (join ''.'' (rev (pod_name p)))
      = strict_prefix (rev (pod_name r)) (rev (pod_name p))" by (intro join_prefix_iff)
  have rev: "strict_prefix (rev a) (rev b) \<longleftrightarrow> suffix a b \<and> b \<noteq> a" for a b :: fqdn
    by (auto simp: strict_prefix_def suffix_to_prefix)
  have eq: "p = r \<longleftrightarrow> pod_name p = pod_name r" by (cases p; cases r) simp
  have "prefix (pod_display r @ ''.'') (pod_display p)
      = prefix (join ''.'' (rev (pod_name r)) @ ''.'') (join ''.'' (rev (pod_name p)))"
    by (simp only: pod_display_def fqdn_labels_def append.simps append_assoc prefix_code simp_thms)
  then show ?thesis unfolding iff rev eq fqdn_is_subdomain_of_def .
qed

lemma pod_display_inj:
  assumes "env_ok E" "fqdn_valid E (pod_name p)" "fqdn_valid E (pod_name p')" "pod_display p = pod_display p'"
  shows "p = p'"
  using pod_from_display [OF assms(1,2)] pod_from_display [OF assms(1,3)] unfolding assms(4) by simp

text \<open>The registered domain is one label below the zone.\<close>

lemma registered_below_zone:
  assumes "fqdn_is_subdomain_of d z" "d \<noteq> z"
  shows "\<exists>l. registered_domain d z = Inr (PrefixOrderDomain (l # z)) \<and> fqdn_is_subdomain_of d (l # z)"
proof -
  from assms obtain p where d: "d = p @ z" "p \<noteq> []" by (auto simp: fqdn_is_subdomain_of_def suffix_def)
  then obtain q l where p: "p = q @ [l]" by (cases p rule: rev_cases) auto
  have "fqdn_hierarchy d ! length q = l # z" using d p by (simp add: nth_fqdn_hierarchy)
  then have "registered_domain d z = Inr (PrefixOrderDomain (l # z))"
    by (simp add: registered_domain_def fqdn_depth_def d(1) p pod_of_domain_def Let_def)
  moreover have "fqdn_is_subdomain_of d (l # z)" by (simp add: d(1) p fqdn_is_subdomain_of_def suffix_def)
  ultimately show ?thesis by blast
qed

section \<open>The canonical table\<close>

definition canonical_ok :: "env \<Rightarrow> contents \<Rightarrow> bool" where
  "canonical_ok E s =
    (\<forall>k b. vget Canonical s k = Some b \<longrightarrow>
      (\<exists>p h. k = pod_display p \<and> fqdn_valid E (pod_name p) \<and> b = bytes_encode E h \<and> length h = 32))"

text \<open>The hash of every name.\<close>

definition canonical_view :: "env \<Rightarrow> contents \<Rightarrow> domain \<Rightarrow> bytes option" where
  "canonical_view E s d =
    (case vget Canonical s (pod_display (pod_of_domain d)) of
       None \<Rightarrow> None | Some b \<Rightarrow> ok (bytes_decode E b))"

lemma canonical_hash_eq:
  assumes "env_ok E" "canonical_ok E s"
  shows "canonical_hash E d s = Inr (canonical_view E s d)"
proof (cases "vget Canonical s (pod_display (pod_of_domain d))")
  case (Some b)
  then obtain h where "b = bytes_encode E h" "length h = 32" using assms(2) by (auto simp: canonical_ok_def)
  with Some assms(1) show ?thesis
    by (simp add: canonical_hash_def canonical_view_def get_eq bytes_codec hash_of_bytes_def)
qed (simp add: canonical_hash_def canonical_view_def get_eq)

lemma canonical_view_Some:
  assumes "env_ok E" "canonical_ok E s"
  shows "canonical_view E s d \<noteq> None \<longleftrightarrow> vget Canonical s (pod_display (pod_of_domain d)) \<noteq> None"
proof (cases "vget Canonical s (pod_display (pod_of_domain d))")
  case (Some b)
  then obtain h where "b = bytes_encode E h" using assms(2) by (auto simp: canonical_ok_def)
  with Some assms(1) show ?thesis by (simp add: canonical_view_def bytes_codec)
qed (simp add: canonical_view_def)

lemma domain_pod [simp]: "pod_of_domain (domain_of_pod p) = p" "domain_of_pod (pod_of_domain d) = d"
  "domain_of_pod p = domain_of_pod q \<longleftrightarrow> p = q" "pod_of_domain d = pod_of_domain d' \<longleftrightarrow> d = d'"
  "pod_name (pod_of_domain d) = domain_name d" "domain_name (domain_of_pod p) = pod_name p"
  by (auto simp: pod_of_domain_def domain_of_pod_def prefix_order_domain.expand domain.expand)

lemma while_ok_keys: "while_ok (map (\<lambda>(k, b). Inr k) kbs) = map fst kbs"
  by (induction kbs) auto

lemma canonical_strict_subdomains_eq:
  assumes "env_ok E" "canonical_ok E s" "contents_ok s" "fqdn_valid E (domain_name r)" "domain_name r \<noteq> fqdn_root"
  obtains ds where "canonical_strict_subdomains E r s = Inr ds" "distinct ds"
    "set ds = {d. fqdn_valid E (domain_name d) \<and> canonical_view E s d \<noteq> None \<and>
       fqdn_is_subdomain_of (domain_name d) (domain_name r) \<and> d \<noteq> r}"
proof -
  let ?p = "pod_display (pod_of_domain r) @ ''.''"
  let ?ks = "map fst (vscan Canonical ?p s)"
  let ?dom = "\<lambda>k. domain_of_pod (projr (pod_try_from E k))"
  have scan: "set (vscan Canonical ?p s) = {(k, b). prefix ?p k \<and> vget Canonical s k = Some b}"
    by (rule vs.set_scan [OF assms(3)])
  have dist: "distinct ?ks" using vs.sorted_scan [OF assms(3)] by (simp add: strict_sorted_iff)
  have name: "\<exists>d. k = pod_display (pod_of_domain d) \<and> fqdn_valid E (domain_name d) \<and> pod_try_from E k = Inr (pod_of_domain d)"
    if "k \<in> set ?ks" for k
  proof -
    from that obtain b where "vget Canonical s k = Some b" unfolding set_map scan by auto
    then obtain p where "k = pod_display p" "fqdn_valid E (pod_name p)" using assms(2) by (auto simp: canonical_ok_def)
    with pod_conv.conv [of E p] assms(1) show ?thesis by (intro exI [of _ "domain_of_pod p"]) simp
  qed
  have "canonical_strict_subdomains E r s
      = ecollect (map (\<lambda>k. ebind (pod_try_from E k) (\<lambda>pod. Inr (domain_of_pod pod))) ?ks)"
    by (simp add: canonical_strict_subdomains_def Let_def prefix_keys_eq comp_def while_ok_keys)
  also have "map (\<lambda>k. ebind (pod_try_from E k) (\<lambda>pod. Inr (domain_of_pod pod))) ?ks = map (\<lambda>k. Inr (?dom k)) ?ks"
  proof (rule map_cong [OF refl])
    fix k assume "k \<in> set ?ks"
    then obtain d where "pod_try_from E k = Inr (pod_of_domain d)" using name by blast
    then show "ebind (pod_try_from E k) (\<lambda>pod. Inr (domain_of_pod pod)) = Inr (?dom k)" by simp
  qed
  also have "ecollect (map (\<lambda>k. Inr (?dom k)) ?ks) = Inr (map ?dom ?ks)" by (rule ecollect_map_Inr)
  finally have eq: "canonical_strict_subdomains E r s = Inr (map ?dom ?ks)" .
  have dom: "k = pod_display (pod_of_domain (?dom k)) \<and> fqdn_valid E (domain_name (?dom k))" if "k \<in> set ?ks" for k
    using name [OF that] by auto
  have "inj_on ?dom (set ?ks)" by (rule inj_onI) (use dom in metis)
  then have "distinct (map ?dom ?ks)" using dist by (simp only: distinct_map)
  moreover have "set (map ?dom ?ks) = {d. fqdn_valid E (domain_name d) \<and> canonical_view E s d \<noteq> None \<and>
       fqdn_is_subdomain_of (domain_name d) (domain_name r) \<and> d \<noteq> r}" (is "_ = ?S")
  proof (rule set_eqI)
    fix d
    have key: "prefix ?p (pod_display (pod_of_domain d)) \<longleftrightarrow>
        fqdn_is_subdomain_of (domain_name d) (domain_name r) \<and> d \<noteq> r" if "fqdn_valid E (domain_name d)"
      using pod_prefix_iff [OF assms(1), of "pod_of_domain r" "pod_of_domain d"] assms(4,5) that by simp
    have mem: "k \<in> set ?ks \<longleftrightarrow> prefix ?p k \<and> vget Canonical s k \<noteq> None" for k
      unfolding set_map scan by force
    show "d \<in> set (map ?dom ?ks) \<longleftrightarrow> d \<in> ?S"
    proof
      assume "d \<in> set (map ?dom ?ks)"
      then obtain k where k: "k \<in> set ?ks" "d = ?dom k" by auto
      from dom [OF k(1)] k(2) have d: "k = pod_display (pod_of_domain d)" "fqdn_valid E (domain_name d)" by simp_all
      then show "d \<in> ?S" using k(1) key canonical_view_Some [OF assms(1,2)] unfolding mem by simp
    next
      assume d: "d \<in> ?S"
      let ?k = "pod_display (pod_of_domain d)"
      from d have k: "?k \<in> set ?ks" using key canonical_view_Some [OF assms(1,2)] unfolding mem by simp
      have "pod_try_from E ?k = Inr (pod_of_domain d)"
        using pod_conv.conv [of E "pod_of_domain d"] d assms(1) by simp
      then have "?dom ?k = d" by simp
      with k show "d \<in> set (map ?dom ?ks)" by force
    qed
  qed
  ultimately show thesis by (rule that [OF eq])
qed

lemma canonical_subdomains_eq:
  assumes "env_ok E" "canonical_ok E s" "contents_ok s" "fqdn_valid E (domain_name r)" "domain_name r \<noteq> fqdn_root"
  obtains ds where "canonical_subdomains E r s = Inr ds" "distinct ds"
    "set ds = {d. fqdn_valid E (domain_name d) \<and> canonical_view E s d \<noteq> None \<and>
       fqdn_is_subdomain_of (domain_name d) (domain_name r)}"
proof -
  obtain ds where ds: "canonical_strict_subdomains E r s = Inr ds" "distinct ds"
    "set ds = {d. fqdn_valid E (domain_name d) \<and> canonical_view E s d \<noteq> None \<and>
       fqdn_is_subdomain_of (domain_name d) (domain_name r) \<and> d \<noteq> r}"
    by (rule canonical_strict_subdomains_eq [OF assms])
  let ?ds = "ds @ (if canonical_view E s r \<noteq> None then [r] else [])"
  have "canonical_subdomains E r s = Inr ?ds"
    by (simp add: canonical_subdomains_def ds(1) canonical_hash_eq [OF assms(1,2)])
  moreover have "distinct ?ds" using ds(2) by (simp add: ds(3))
  moreover have "set ?ds = {d. fqdn_valid E (domain_name d) \<and> canonical_view E s d \<noteq> None \<and>
       fqdn_is_subdomain_of (domain_name d) (domain_name r)}"
    using assms(4) by (auto simp: ds(3) fqdn_is_subdomain_of_def)
  ultimately show thesis by (rule that)
qed

section \<open>The enrolled names\<close>

definition pending_name :: "env \<Rightarrow> contents \<Rightarrow> prefix_order_domain \<Rightarrow> bool" where
  "pending_name E s p = (\<exists>c t v. pending_view E (oracle_queue E c) s (pod_display p, t) = Some v)"

definition enrolled :: "env \<Rightarrow> contents \<Rightarrow> prefix_order_domain \<Rightarrow> prefix_order_domain set" where
  "enrolled E s r =
    {p. fqdn_valid E (pod_name p) \<and> fqdn_is_subdomain_of (pod_name p) (pod_name r) \<and>
        (canonical_view E s (domain_of_pod p) \<noteq> None \<or> pending_name E s p)}"

lemma pending_name_eq:
  "pending_name E s p = (\<exists>t v. pending_view E (oracle_queue E c) s (pod_display p, t) = Some v)"
  unfolding pending_name_def using views_any_config(2) [of E c s] by metis

lemma key_good_pod:
  assumes "env_ok E" "key_good (oracle_queue E c) k"
  obtains p where "k = pod_display p" "fqdn_valid E (pod_name p)" "pod_try_from E k = Inr p"
proof -
  from assms(2) obtain p where p: "pod_try_from E k = Inr p" "pod_display p = k" by (auto simp: key_good_def)
  from p(1) have "fqdn_valid E (pod_name p)"
    using env_fqdn_from_str_valid [OF assms(1)]
    by (auto simp: pod_try_from_def pod_from_str_def res_simps Let_def)
  with p show thesis by (intro that) auto
qed

lemma pending_strict_eq:
  fixes c :: voting_config
  assumes "queue_ok E (oracle_queue E c) s" "fqdn_valid E (pod_name r)" "pod_name r \<noteq> fqdn_root"
  obtains ps where "pending_for_key_prefix E (oracle_queue E c) r (Some CHR ''.'') s = Inr ps"
    "set (map (\<lambda>(_, k, _). k) ps) =
      {p. fqdn_valid E (pod_name p) \<and> fqdn_is_subdomain_of (pod_name p) (pod_name r) \<and> p \<noteq> r \<and> pending_name E s p}"
proof -
  note env = queue_okD(1) [OF assms(1)]
  let ?Q = "oracle_queue E c"
  let ?P = "pending_view E ?Q s"
  have part: "part_ok (delimited (key_to_string ?Q r) (Some CHR ''.''))"
    using pod_display_part [OF env assms(2)] by (simp add: part_ok_delimited) (simp add: part_ok_def ascii_def)
  obtain ix where ix: "pending_for_key_prefix E ?Q r (Some CHR ''.'') s =
      Inr (map (\<lambda>(k, t). (t, projr (pod_try_from E k), the (?P (k, t)))) ix)" "distinct ix"
    "set ix = {(k, t). prefix (delimited (pod_display r) (Some CHR ''.'')) k \<and> ?P (k, t) \<noteq> None}"
    by (rule pending_for_key_prefix_eq [OF assms(1) part, unfolded oracle_queue_sel])
  have good: "\<exists>p. k = pod_display p \<and> fqdn_valid E (pod_name p) \<and> pod_try_from E k = Inr p"
    if P: "?P (k, t) \<noteq> None" for k t
  proof -
    from P obtain b where b: "pending_row E (qp ?Q) s (k, t) = Some b"
      using pending_view_Some [OF assms(1), of "(k, t)"] by auto
    have "key_good ?Q k" using pending_okD(1) [OF queue_okD(5) [OF assms(1)] b] .
    then show ?thesis by (rule key_good_pod [OF env]) blast
  qed
  have "set (map (\<lambda>(_, k, _). k) (map (\<lambda>(k, t). (t, projr (pod_try_from E k), the (?P (k, t)))) ix))
      = (\<lambda>(k, t). projr (pod_try_from E k)) ` set ix" by force
  also have "\<dots> = {p. fqdn_valid E (pod_name p) \<and> fqdn_is_subdomain_of (pod_name p) (pod_name r) \<and> p \<noteq> r \<and>
      pending_name E s p}" (is "_ = ?S")
  proof (intro set_eqI iffI)
    fix p assume "p \<in> (\<lambda>(k, t). projr (pod_try_from E k)) ` set ix"
    then obtain k t where kt: "prefix (pod_display r @ ''.'') k" "?P (k, t) \<noteq> None" "p = projr (pod_try_from E k)"
      by (auto simp: ix(3) delimited_def)
    then obtain p' where p': "k = pod_display p'" "fqdn_valid E (pod_name p')" "pod_try_from E k = Inr p'"
      using good by blast
    with kt have "p = p'" by simp
    moreover have "pending_name E s p'" using kt(2) p'(1) unfolding pending_name_eq [of E s p' c] by auto
    ultimately show "p \<in> ?S" using kt(1) p'(1,2) pod_prefix_iff [OF env assms(2) p'(2) assms(3)] by simp
  next
    fix p assume p: "p \<in> ?S"
    then have "pending_name E s p" by simp
    then obtain t v where t: "?P (pod_display p, t) = Some v" unfolding pending_name_eq [of E s p c] by blast
    have "pod_try_from E (pod_display p) = Inr p" using pod_conv.conv [of E p] p env by simp
    moreover have "(pod_display p, t) \<in> set ix"
      using p t pod_prefix_iff [OF env assms(2) _ assms(3), of p] by (simp add: ix(3) delimited_def)
    ultimately show "p \<in> (\<lambda>(k, t). projr (pod_try_from E k)) ` set ix" by force
  qed
  finally show thesis by (intro that [OF ix(1)])
qed

lemma pending_own_eq:
  assumes "queue_ok E (oracle_queue E c) s" "fqdn_valid E (pod_name r)"
  obtains own where "pending_for_key (oracle_queue E c) r s = Inr own" "own \<noteq> None \<longleftrightarrow> pending_name E s r"
proof (cases "pending_name E s r")
  case True
  then obtain t v where t: "pending_view E (oracle_queue E c) s (pod_display r, t) = Some v"
    unfolding pending_name_eq [of E s r c] by blast
  have "pending_for_key (oracle_queue E c) r s = Inr (Some v)"
    using pending_for_key_eq(2) [OF assms(1), of r] pod_display_part [OF queue_okD(1) [OF assms(1)] assms(2)] t
    by simp
  then show thesis by (rule that) (simp add: True)
next
  case False
  then have "\<forall>t. pending_view E (oracle_queue E c) s (pod_display r, t) = None"
    unfolding pending_name_eq [of E s r c] by (metis not_Some_eq)
  then have "pending_for_key (oracle_queue E c) r s = Inr None"
    using pending_for_key_eq(1) [OF assms(1), of r] pod_display_part [OF queue_okD(1) [OF assms(1)] assms(2)]
    by simp
  then show thesis by (rule that) (simp add: False)
qed

text \<open>The limit check lets through a name that is enrolled, and another while there is room.\<close>

lemma limit_check_eq:
  assumes "state_ok E s" "canonical_ok E s" "config E s = Inr c"
    and "fqdn_valid E (pod_name r)" "pod_name r \<noteq> fqdn_root"
  shows "check_subdomain_limit_before_pending_exact E p r s =
    (if p \<in> enrolled E s r \<or> card (enrolled E s r) < unat (max_enrolled_subdomains (oracles c))
     then Inr () else Inl SubdomainLimit)"
proof -
  let ?Q = "oracle_queue E (o_voting (oracles c))"
  note env = state_okD(6) [OF assms(1)]
  note q = state_okD(1) [OF assms(1), of "o_voting (oracles c)"]
  have voting: "oracle_voting E s = Inr ?Q" by (simp add: oracle_voting_def assms(3))
  obtain own where own: "pending_for_key ?Q r s = Inr own" "own \<noteq> None \<longleftrightarrow> pending_name E s r"
    by (rule pending_own_eq [OF q assms(4)])
  obtain ps where ps: "pending_for_key_prefix E ?Q r (Some CHR ''.'') s = Inr ps"
    "set (map (\<lambda>(_, k, _). k) ps) =
      {p. fqdn_valid E (pod_name p) \<and> fqdn_is_subdomain_of (pod_name p) (pod_name r) \<and> p \<noteq> r \<and> pending_name E s p}"
    by (rule pending_strict_eq [OF q assms(4,5)])
  obtain cs where cs: "canonical_subdomains E (domain_of_pod r) s = Inr cs" "distinct cs"
    "set cs = {d. fqdn_valid E (domain_name d) \<and> canonical_view E s d \<noteq> None \<and>
       fqdn_is_subdomain_of (domain_name d) (domain_name (domain_of_pod r))}"
    by (rule canonical_subdomains_eq [OF env assms(2) state_okD(7) [OF assms(1)], of "domain_of_pod r"])
      (use assms(4,5) in simp_all)
  let ?own = "case own of None \<Rightarrow> [] | Some _ \<Rightarrow> [r]"
  let ?names = "?own @ map (\<lambda>(_, k, _). k) ps"
  let ?all = "?own @ map (\<lambda>(_, k, _). k) ps @ map pod_of_domain cs"
  have o: "set ?own = (if pending_name E s r then {r} else {})" using own(2) by (cases own) auto
  have "set (map pod_of_domain cs) = {p. fqdn_valid E (pod_name p) \<and> canonical_view E s (domain_of_pod p) \<noteq> None \<and>
       fqdn_is_subdomain_of (pod_name p) (pod_name r)}"
  proof -
    have "p \<in> pod_of_domain ` set cs \<longleftrightarrow> domain_of_pod p \<in> set cs" for p
      by (metis domain_pod(1,2) image_iff)
    then show ?thesis unfolding set_map by (auto simp: cs(3))
  qed
  then have all: "set ?all = enrolled E s r"
    using assms(4) unfolding set_append o ps(2) enrolled_def
    by (auto simp: fqdn_is_subdomain_of_def split: if_splits)
  have "domain_of_pod p \<in> set (map domain_of_pod ?names @ cs) \<longleftrightarrow> p \<in> set ?all"
  proof -
    have "domain_of_pod p \<in> domain_of_pod ` A \<longleftrightarrow> p \<in> A" for A by (auto simp: image_iff)
    moreover have "domain_of_pod p \<in> set cs \<longleftrightarrow> p \<in> pod_of_domain ` set cs"
      by (metis domain_pod(1,2) image_iff)
    ultimately show ?thesis unfolding set_append set_map by blast
  qed
  then have counted: "domain_of_pod p \<in> set (map domain_of_pod ?names @ cs) \<longleftrightarrow> p \<in> enrolled E s r"
    unfolding all .
  show ?thesis
    unfolding check_subdomain_limit_before_pending_exact_def assms(3) voting own(1) ps(1) cs(1) ebind.simps Let_def
      counted all
    by (auto simp: check_def)
qed

section \<open>The canonical table is kept\<close>

lemma canonical_ok_cong: "vget Canonical s' = vget Canonical s \<Longrightarrow> canonical_ok E s' = canonical_ok E s"
  by (simp add: canonical_ok_def)

lemma pending_value_ok:
  assumes "queue_ok E (oracle_queue E c) s" "pending_view E (oracle_queue E c) s (k, t) = Some v"
  shows "hash_observed_ok (ovv_hash_observed v)" "\<exists>p. k = pod_display p \<and> fqdn_valid E (pod_name p)"
proof -
  note env = queue_okD(1) [OF assms(1)]
  obtain b where b: "pending_row E (qp (oracle_queue E c)) s (k, t) = Some b"
    using pending_view_Some [OF assms(1), of "(k, t)"] assms(2) by auto
  obtain v' where v': "v_decode (oracle_queue E c) b = Inr v'"
    "exact (oracle_queue E c) v'" "pending_view E (oracle_queue E c) s (k, t) = Some v'"
    "key_good (oracle_queue E c) k"
    by (rule pending_row_decodes [OF assms(1) b])
  then have "ovv_decode E b = Inr v" using assms(2) by simp
  then show "hash_observed_ok (ovv_hash_observed v)"
    using ovv_decode_ok [OF env] by (simp add: oracle_vote_value_ok_def)
  show "\<exists>p. k = pod_display p \<and> fqdn_valid E (pod_name p)"
    by (rule key_good_pod [OF env v'(4)]) blast
qed

lemma canonical_ok_after:
  assumes "state_ok E s" "canonical_ok E s" "canonical_after E c now s s'"
  shows "canonical_ok E s'"
  unfolding canonical_ok_def
proof (intro allI impI)
  fix k b assume b: "vget Canonical s' k = Some b"
  show "\<exists>p h. k = pod_display p \<and> fqdn_valid E (pod_name p) \<and> b = bytes_encode E h \<and> length h = 32"
  proof (cases "\<exists>h. promoted_hash E c now s k h")
    case True
    then obtain h where h: "promoted_hash E c now s k h" ..
    then obtain t v where v: "pending_view E (oracle_queue E (o_voting (oracles c))) s (k, t) = Some v"
      "ovv_hash_observed v = h" by (auto simp: promoted_hash_def)
    note ok = pending_value_ok [OF state_okD(1) [OF assms(1)] v(1)]
    have "h \<noteq> NotFound" using h b assms(3) by (auto simp: canonical_after_def)
    then obtain bs where bs: "h = Hash bs" by (cases h) auto
    then have "b = bytes_encode E bs" using h b assms(3) by (auto simp: canonical_after_def)
    moreover have "length bs = 32" using ok(1) v(2) bs by simp
    ultimately show ?thesis using ok(2) by blast
  next
    case False
    then have "vget Canonical s' k = vget Canonical s k" using assms(3) by (simp add: canonical_after_def)
    with b assms(2) show ?thesis by (simp add: canonical_ok_def)
  qed
qed

end
