(* ===== verification/Node.thy ===== *)
theory Node
  imports Enrollment
begin

text \<open>
  The life of a node: the ABCI requests in the order the consensus engine sends them. \<open>node_step\<close> is
  the protocol around \<open>call\<close>: the chain is initialised once, then blocks are finalized and committed in
  turn, with \<open>CheckTx\<close> and the read-only requests at any time.
\<close>

section \<open>Recording the app hash\<close>

lemma block_height_ok: "env_ok E \<Longrightarrow> block_height E s = Inr h \<Longrightarrow> h \<le> i64_max"
  by (auto simp: block_height_def get_def height_decode_def domain_decode_def res_simps env_height
      split: option.splits if_splits)

lemma record_app_hash_effect:
  assumes "state_ok E s" "block_height E s = Inr h" "h \<noteq> 0"
  obtains s' where "record_app_hash E a s = (s', Inr ())" "state_ok E s'" "config E s' = config E s"
    "block_height E s' = Inr h" "block_time E s' = block_time E s" "previous_app_hash E (h - 1) s' = Inr a"
    "same_queue ''oracle_voting/'' s s'" "same_queue ''admin_voting/'' s s'"
    "vget Canonical s' = vget Canonical s" "chain_id E s' = chain_id E s"
proof -
  note env = state_okD(6) [OF assms(1)]
  let ?k = "''apphash/'' @ pad_height (h - 1)"
  let ?s = "put (app_hash_encode E) Internal ?k a s"
  have "h \<le> i64_max" by (rule block_height_ok [OF env assms(2)])
  moreover have "h - 1 < h" using measure_unat [OF assms(3)] by (simp add: word_less_nat_alt)
  ultimately have "h - 1 \<le> i64_max" by simp
  then have step: "record_app_hash E a s = (?s, Inr ())"
    using env assms(2) by (simp add: record_app_hash_def env_height)
  have same: "config E ?s = config E s" "block_height E ?s = Inr h" "block_time E ?s = block_time E s"
    "previous_app_hash E (h - 1) ?s = Inr a" "chain_id E ?s = chain_id E s"
    using assms(2) env by (simp_all add: reads get_simps app_hash_codec)
  have "state_ok E ?s"
    by (rule state_ok_parameter [OF assms(1) impI [OF parameter_keys(6)] disjI1 [OF refl]])
      (unfold same, use state_okD(3,4) [OF assms(1)] in auto)
  with step same show thesis
    by (intro that [of ?s]) (simp_all add: fun_eq_iff store_simps same_queue_def queue_key_def)
qed

section \<open>Finalizing and committing\<close>

text \<open>The contents the transactions of a block start from: those pending, with the app hash of the last commit
  recorded unless no block was finalized yet.\<close>

definition block_start :: "env \<Rightarrow> store \<Rightarrow> contents" where
  "block_start E st =
    (if unwrap_or 0 (block_height E (pending st)) \<noteq> 0 then fst (record_app_hash E (root_hash E None st) (pending st))
     else pending st)"

lemma block_start_effect:
  assumes "state_ok E (pending st)"
  shows "state_ok E (block_start E st)" "config E (block_start E st) = config E (pending st)"
    "vget Canonical (block_start E st) = vget Canonical (pending st)" "votes_may_expire E (pending st) (block_start E st)"
    "chain_id E (block_start E st) = chain_id E (pending st)"
    "(if unwrap_or 0 (block_height E (pending st)) \<noteq> 0 then
        lift_res st (root_hashes E st) (\<lambda>rh. on_pending (record_app_hash E (rh_app_hash rh)) st)
      else (st, Inr ())) = (st\<lparr>pending := block_start E st\<rparr>, Inr ())"
proof -
  note env = state_okD(6) [OF assms]
  let ?first = "if unwrap_or 0 (block_height E (pending st)) \<noteq> 0 then
      lift_res st (root_hashes E st) (\<lambda>rh. on_pending (record_app_hash E (rh_app_hash rh)) st)
    else (st, Inr ())" and ?s = "block_start E st"
  have "state_ok E ?s \<and> config E ?s = config E (pending st) \<and> vget Canonical ?s = vget Canonical (pending st) \<and>
      votes_may_expire E (pending st) ?s \<and> chain_id E ?s = chain_id E (pending st) \<and> ?first = (st\<lparr>pending := ?s\<rparr>, Inr ())"
  proof (cases "unwrap_or 0 (block_height E (pending st)) \<noteq> 0")
    case True
    then obtain h where h: "block_height E (pending st) = Inr h" "h \<noteq> 0"
      by (auto simp: unwrap_or_def split: sum.splits)
    let ?a = "root_hash E None st"
    obtain s1 where s1: "record_app_hash E ?a (pending st) = (s1, Inr ())" "state_ok E s1"
      "config E s1 = config E (pending st)"
      "block_height E s1 = Inr h" "block_time E s1 = block_time E (pending st)"
      "previous_app_hash E (h - 1) s1 = Inr ?a"
      "same_queue ''oracle_voting/'' (pending st) s1" "same_queue ''admin_voting/'' (pending st) s1"
      "vget Canonical s1 = vget Canonical (pending st)" "chain_id E s1 = chain_id E (pending st)"
      by (rule record_app_hash_effect [OF assms h])
    moreover have "?s = s1" using True s1(1) by (simp add: block_start_def)
    ultimately show ?thesis
      using True votes_may_expire_queues [OF assms s1(2,7,8)]
      by (auto simp: root_hashes_def env_app_hash [OF env] on_pending_def)
  next
    case False
    then show ?thesis using assms by (simp add: block_start_def)
  qed
  then show "state_ok E ?s" "config E ?s = config E (pending st)" "vget Canonical ?s = vget Canonical (pending st)"
    "votes_may_expire E (pending st) ?s" "chain_id E ?s = chain_id E (pending st)" "?first = (st\<lparr>pending := ?s\<rparr>, Inr ())" by blast+
qed

lemma finalize_pending_effect:
  assumes "state_ok E (pending st)" "request_ok req"
  obtains s' results us where
    "call_finalize_block E req st =
      (st\<lparr>pending := committed st, staged := Some s'\<rparr>,
       Inr \<lparr>fbr_tx_results = results, fbr_validator_updates = us, fbr_app_hash = root_hash_of E None s'\<rparr>)"
    "state_ok E s'" "block_height E s' = Inr (fb_height req)" "block_time E s' = Inr (fb_time req)"
    "length results = length (fb_txs req)"
    "\<And>c. config E (pending st) = Inr c \<Longrightarrow> \<exists>c'. config E s' = Inr c' \<and> (c' = c \<or> version c < version c')"
    "canonical_ok E (pending st) \<Longrightarrow> canonical_ok E s'" "s' = fst (finalize_block E req (block_start E st))"
proof -
  note env = state_okD(6) [OF assms(1)]
  note s1 = block_start_effect [OF assms(1)]
  obtain c where c: "config E (block_start E st) = Inr c" using state_okD(3) [OF s1(1)] by blast
  obtain s2 c' results us where
    s2: "finalize_block E req (block_start E st) =
      (s2, Inr \<lparr>fbr_tx_results = results, fbr_validator_updates = us, fbr_app_hash = []\<rparr>)"
    "state_ok E s2" "length results = length (fb_txs req)"
    "block_height E s2 = Inr (fb_height req)" "block_time E s2 = Inr (fb_time req)"
    "config E s2 = Inr c'" "c' = c \<or> version c < version c'"
    "set us = {Update pk pw | pk pw. validators_view E s2 pk = Some pw \<and> 0 < pw}"
    "\<exists>m. state_ok E m \<and> vget Canonical m = vget Canonical (block_start E st) \<and> canonical_after E c' (fb_time req) m s2"
    by (rule finalize_block_effect [OF s1(1) assms(2) c])
  have "call_finalize_block E req st =
      (st\<lparr>pending := committed st, staged := Some s2\<rparr>,
       Inr \<lparr>fbr_tx_results = results, fbr_validator_updates = us, fbr_app_hash = root_hash_of E None s2\<rparr>)"
    unfolding call_finalize_block_def s1(6)
    by (simp add: on_pending_def s2(1) prepare_commit_def env_app_hash [OF env] Let_def)
  moreover have "canonical_ok E (pending st) \<Longrightarrow> canonical_ok E s2"
    using s2(9) s1(3) canonical_ok_cong canonical_ok_after by metis
  ultimately show thesis
    using s2(1-7) c s1(2) by (intro that [of s2 results us]) auto
qed

lemma commit_staged_effect:
  assumes "env_ok E" "staged st = Some s"
  shows "call_commit E st =
    (\<lparr>committed = s, pending = s, staged = None\<rparr>, Inr (root_hash_of E None s))"
  using assms
  by (simp add: call_commit_def commit_def commit_staged_def root_hashes_def root_hash_def env_app_hash)

lemma check_tx_unchanged: "fst (call_check_tx E tx st) = st"
  by (simp add: call_check_tx_def fork_def split_def)

section \<open>The protocol\<close>

datatype phase = Started | Ready | Staged

fun read_only :: "request \<Rightarrow> bool" where
  "read_only (RInitChain req) = False"
| "read_only (RFinalizeBlock req) = False"
| "read_only RCommit = False"
| "read_only r = True"

inductive node_step :: "env \<Rightarrow> phase \<times> store \<Rightarrow> phase \<times> store \<Rightarrow> bool" for E where
  init: "\<lbrakk>call E (RInitChain req) st = (st', Inr resp); validators_ok E (ic_validators req);
          ic_chain_id req \<noteq> []\<rbrakk> \<Longrightarrow> node_step E (Started, st) (Ready, st')"
| block: "\<lbrakk>call E (RFinalizeBlock req) st = (st', r); request_ok req\<rbrakk>
    \<Longrightarrow> node_step E (Ready, st) (Staged, st')"
| commit: "call E RCommit st = (st', r) \<Longrightarrow> node_step E (Staged, st) (Ready, st')"
| look: "\<lbrakk>read_only q; call E q st = (st', r)\<rbrakk> \<Longrightarrow> node_step E (ph, st) (ph, st')"

inductive node_reachable :: "env \<Rightarrow> phase \<times> store \<Rightarrow> bool" for E where
  start: "node_reachable E (Started, store_new empty_contents)"
| step: "\<lbrakk>node_reachable E n; node_step E n n'\<rbrakk> \<Longrightarrow> node_reachable E n'"

text \<open>What holds in every phase. Until the first commit the committed contents are empty.\<close>

definition chain_ok :: "env \<Rightarrow> contents \<Rightarrow> bool" where
  "chain_ok E s = (state_ok E s \<and> canonical_ok E s)"

fun node_ok :: "env \<Rightarrow> phase \<times> store \<Rightarrow> bool" where
  "node_ok E (Started, st) = (st = store_new empty_contents)"
| "node_ok E (Ready, st) =
     (chain_ok E (pending st) \<and> staged st = None \<and>
      (committed st = empty_contents \<or> committed st = pending st))"
| "node_ok E (Staged, st) =
     (pending st = committed st \<and> (committed st = empty_contents \<or> chain_ok E (committed st)) \<and>
      (\<exists>s. staged st = Some s \<and> chain_ok E s))"

lemma read_only_unchanged: "read_only q \<Longrightarrow> fst (call E q st) = st"
  using check_tx_unchanged [of E _ st] by (cases q) (auto simp: split_def Let_def)

lemma respond_Inr: "respond f r = (st', Inr x) \<longleftrightarrow> (\<exists>y. r = (st', Inr y) \<and> x = f y)"
  by (cases r; cases "snd r") auto

lemma init_chain_needs:
  assumes "init_chain E req s = (s', Inr resp)"
  shows "ic_initial_height req = 1" "\<exists>cfg. genesis_config E (ic_app_state_bytes req) = Inr cfg"
  using assms
  by (auto simp: init_chain_def lift_res_def check_def set_chain_id_def set_config_def
      split: sum.splits if_splits)

lemma node_step_ok:
  assumes "env_ok E" "node_ok E n" "node_step E n n'"
  shows "node_ok E n'"
  using assms(3)
proof (cases rule: node_step.cases)
  case (init req st st' resp)
  then have st: "st = store_new empty_contents" using assms(2) by simp
  from init(3) obtain s' r where s': "init_chain E req empty_contents = (s', Inr r)"
    "st' = (store_new empty_contents)\<lparr>pending := s'\<rparr>"
    by (auto simp: st respond_Inr on_pending_def store_new_def split: prod.splits)
  obtain cfg where cfg: "genesis_config E (ic_app_state_bytes req) = Inr cfg"
    using init_chain_needs(2) [OF s'(1)] by blast
  have "chain_ok E (fst (init_chain E req empty_contents))"
    by (rule init_chain_effect [OF assms(1) init_chain_needs(1) [OF s'(1)] init(4,5) cfg])
      (simp add: chain_ok_def canonical_ok_def)
  then show ?thesis using init(2) s' by (simp add: store_new_def)
next
  case (block req st st' r)
  then have ok: "chain_ok E (pending st)"
    and com: "committed st = empty_contents \<or> committed st = pending st" using assms(2) by auto
  then have st: "state_ok E (pending st)" "canonical_ok E (pending st)" by (simp_all add: chain_ok_def)
  have "\<exists>s. st' = st\<lparr>pending := committed st, staged := Some s\<rparr> \<and> chain_ok E s"
    by (rule finalize_pending_effect [OF st(1) block(4)]) (use block(3) st(2) in \<open>auto simp: chain_ok_def\<close>)
  then show ?thesis using block(2) ok com by auto
next
  case (commit st st' r)
  then obtain s where s: "staged st = Some s" "chain_ok E s" using assms(2) by auto
  have "st' = \<lparr>committed = s, pending = s, staged = None\<rparr>"
    using commit(3) commit_staged_effect [OF assms(1) s(1)] by simp
  then show ?thesis using commit(2) s(2) by simp
next
  case (look q st st' r ph)
  then have "st' = st" using read_only_unchanged [OF look(3), of E st] by simp
  then show ?thesis using look(1,2) assms(2) by simp
qed

lemma node_reachable_ok: "env_ok E \<Longrightarrow> node_reachable E n \<Longrightarrow> node_ok E n"
proof -
  assume env: "env_ok E"
  show "node_reachable E n \<Longrightarrow> node_ok E n"
    by (induction rule: node_reachable.induct) (auto intro: node_step_ok [OF env])
qed

end
