(* ===== verification/Sample_Codec.thy ===== *)
theory Sample_Codec
  imports Environment
begin

text \<open>
  A concrete, self-delimiting encoding of the protobuf messages, so that the hypotheses on the
  encoding have an instance: a \<open>scodec\<close> writes a value and reads it back off the front of the input.
  The theorems of the development hold for every encoding with that property.
\<close>

datatype 'a scodec = SCodec (sput: "'a \<Rightarrow> bytes") (sget: "bytes \<Rightarrow> ('a \<times> bytes) option")

definition scodec_ok :: "'a scodec \<Rightarrow> bool" where
  "scodec_ok C = (\<forall>x rest. sget C (sput C x @ rest) = Some (x, rest))"

lemma scodecD: "scodec_ok C \<Longrightarrow> sget C (sput C x @ rest) = Some (x, rest)"
  by (simp add: scodec_ok_def)

section \<open>Combinators\<close>

definition s_byte :: "u8 scodec" where
  "s_byte = SCodec (\<lambda>b. [b]) (\<lambda>bs. case bs of [] \<Rightarrow> None | b # r \<Rightarrow> Some (b, r))"

definition s_map :: "('a \<Rightarrow> 'b) \<Rightarrow> ('b \<Rightarrow> 'a) \<Rightarrow> 'b scodec \<Rightarrow> 'a scodec" where
  "s_map f g C = SCodec (\<lambda>x. sput C (f x)) (\<lambda>bs. map_option (\<lambda>(y, r). (g y, r)) (sget C bs))"

definition s_pair :: "'a scodec \<Rightarrow> 'b scodec \<Rightarrow> ('a \<times> 'b) scodec" where
  "s_pair A B = SCodec (\<lambda>(x, y). sput A x @ sput B y)
    (\<lambda>bs. case sget A bs of None \<Rightarrow> None
      | Some (x, r) \<Rightarrow> map_option (\<lambda>(y, r'). ((x, y), r')) (sget B r))"

definition s_option :: "'a scodec \<Rightarrow> 'a option scodec" where
  "s_option A = SCodec (\<lambda>x. case x of None \<Rightarrow> [0] | Some y \<Rightarrow> 1 # sput A y)
    (\<lambda>bs. case bs of [] \<Rightarrow> None
      | b # r \<Rightarrow> if b = 0 then Some (None, r) else map_option (\<lambda>(y, r'). (Some y, r')) (sget A r))"

fun slist_put :: "'a scodec \<Rightarrow> 'a list \<Rightarrow> bytes" where
  "slist_put A [] = [0]"
| "slist_put A (x # xs) = 1 # sput A x @ slist_put A xs"

text \<open>The fuel is the length of the input: every element takes at least its marker.\<close>

fun slist_get :: "nat \<Rightarrow> 'a scodec \<Rightarrow> bytes \<Rightarrow> ('a list \<times> bytes) option" where
  "slist_get 0 A bs = None"
| "slist_get (Suc n) A [] = None"
| "slist_get (Suc n) A (b # r) =
     (if b = 0 then Some ([], r)
      else case sget A r of None \<Rightarrow> None
        | Some (x, r') \<Rightarrow> map_option (\<lambda>(xs, r''). (x # xs, r'')) (slist_get n A r'))"

definition s_list :: "'a scodec \<Rightarrow> 'a list scodec" where
  "s_list A = SCodec (slist_put A) (\<lambda>bs. slist_get (length bs) A bs)"

lemma s_byte_ok [simp]: "scodec_ok s_byte"
  by (simp add: scodec_ok_def s_byte_def)

lemma s_map_ok [simp]: "scodec_ok C \<Longrightarrow> (\<And>x. g (f x) = x) \<Longrightarrow> scodec_ok (s_map f g C)"
  by (simp add: scodec_ok_def s_map_def)

lemma s_pair_ok [simp]: "scodec_ok A \<Longrightarrow> scodec_ok B \<Longrightarrow> scodec_ok (s_pair A B)"
  by (auto simp: scodec_ok_def s_pair_def)

lemma s_option_ok [simp]: "scodec_ok A \<Longrightarrow> scodec_ok (s_option A)"
  by (auto simp: scodec_ok_def s_option_def split: option.splits)

lemma slist_get_put:
  assumes "scodec_ok A"
  shows "length (slist_put A xs) \<le> n \<Longrightarrow> slist_get n A (slist_put A xs @ rest) = Some (xs, rest)"
proof (induction xs arbitrary: n)
  case Nil
  then show ?case by (cases n) auto
next
  case (Cons x xs)
  then show ?case by (cases n) (auto simp: scodecD [OF assms])
qed

lemma s_list_ok [simp]:
  assumes "scodec_ok A"
  shows "scodec_ok (s_list A)"
proof -
  have "sget (s_list A) (sput (s_list A) xs @ rest) = Some (xs, rest)" for xs rest
    by (simp add: s_list_def slist_get_put [OF assms])
  then show ?thesis by (simp add: scodec_ok_def)
qed

section \<open>Scalars\<close>

fun sget_n :: "nat \<Rightarrow> bytes \<Rightarrow> (bytes \<times> bytes) option" where
  "sget_n n bs = (if n \<le> length bs then Some (take n bs, drop n bs) else None)"

definition s_u64 :: "u64 scodec" where
  "s_u64 = SCodec to_be_bytes (\<lambda>bs. map_option (\<lambda>(b, r). (from_be_bytes b, r)) (sget_n 8 bs))"

lemma s_u64_ok [simp]: "scodec_ok s_u64"
  by (simp add: scodec_ok_def s_u64_def)

definition s_bool :: "bool scodec" where
  "s_bool = s_map (\<lambda>b. if b then 1 else 0) (\<lambda>w. w \<noteq> 0) s_byte"

definition s_char :: "char scodec" where
  "s_char = s_map (\<lambda>c. word_of_nat (of_char c)) (\<lambda>w. char_of (unat w)) s_byte"

definition s_bytes :: "bytes scodec" where "s_bytes = s_list s_byte"

definition s_string :: "string scodec" where "s_string = s_list s_char"

definition s_i32 :: "32 word scodec" where "s_i32 = s_map ucast ucast s_u64"

lemma ucast_32_64 [simp]: "(ucast (ucast (w :: 32 word) :: 64 word) :: 32 word) = w"
  by transfer (simp add: take_bit_take_bit)

lemma s_scalar_ok [simp]:
  "scodec_ok s_bool" "scodec_ok s_char" "scodec_ok s_bytes" "scodec_ok s_string" "scodec_ok s_i32"
  by (simp_all add: s_bool_def s_char_def s_bytes_def s_string_def s_i32_def)

section \<open>The messages\<close>

definition s_voting_config :: "p_voting_config scodec" where
  "s_voting_config = s_map (\<lambda>m. (pv_total m, pv_quorum m, pv_timeout m, pv_delay m))
    (\<lambda>(a, b, c, d). PVotingConfig a b c d) (s_pair s_u64 (s_pair s_u64 (s_pair s_u64 s_u64)))"

definition s_admin_config :: "p_admin_config scodec" where
  "s_admin_config = s_map (\<lambda>m. (pac_admins m, pac_voting_config m)) (\<lambda>(a, b). PAdminConfig a b)
    (s_pair (s_list (s_map padm_public_key PAdmin s_bytes)) (s_option s_voting_config))"

definition s_oracle_identity :: "p_oracle_identity scodec" where
  "s_oracle_identity = s_map poi_public_key POracleIdentity s_bytes"

definition s_oracle :: "p_oracle scodec" where
  "s_oracle = s_map (\<lambda>m. (por_public_key m, por_endpoint m)) (\<lambda>(a, b). POracle a b)
    (s_pair (s_option s_oracle_identity) s_string)"

definition s_oracle_config :: "p_oracle_config scodec" where
  "s_oracle_config = s_map
    (\<lambda>m. (poc_oracles m, poc_voting_config m, poc_enabled m, poc_max_enrolled_subdomains m,
          poc_observation_timeout m))
    (\<lambda>(a, b, c, d, e). POracleConfig a b c d e)
    (s_pair (s_list s_oracle) (s_pair (s_option s_voting_config) (s_pair s_bool (s_pair s_u64 s_u64))))"

definition s_config :: "p_config scodec" where
  "s_config = s_map (\<lambda>m. (pc_admin_config m, pc_oracle_config m, pc_onion_config m, pc_version m))
    (\<lambda>(a, b, c, d). PConfig a b c d)
    (s_pair (s_option s_admin_config) (s_pair (s_option s_oracle_config)
      (s_pair (s_option (s_map pon_enabled POnionConfig s_bool)) s_u64)))"

definition s_hash_observed :: "p_hash_observed scodec" where
  "s_hash_observed = s_map pho_hash PHashObserved s_bytes"

definition s_oracle_vote_value :: "p_oracle_vote_value scodec" where
  "s_oracle_vote_value = s_map (\<lambda>m. (povv_hash_observed m, povv_zone m)) (\<lambda>(a, b). POracleVoteValue a b)
    (s_pair (s_option s_hash_observed) s_string)"

definition s_signature :: "p_signature scodec" where
  "s_signature = s_map (\<lambda>m. (ps_public_key m, ps_signature m)) (\<lambda>(a, b). PSignature a b)
    (s_pair s_bytes s_bytes)"

definition s_timestamp :: "p_timestamp scodec" where
  "s_timestamp = s_map (\<lambda>m. (pt_seconds m, pt_nanos m)) (\<lambda>(a, b). PTimestamp a b) (s_pair s_u64 s_i32)"

definition s_blockstamp :: "p_blockstamp scodec" where
  "s_blockstamp = s_map (\<lambda>m. (pbs_block_hash m, pbs_block_number m)) (\<lambda>(a, b). PBlockstamp a b)
    (s_pair s_bytes s_u64)"

definition s_observation :: "p_observation scodec" where
  "s_observation = s_map (\<lambda>m. (pob_domain m, pob_zone m, pob_hash_observed m, pob_blockstamp m))
    (\<lambda>(a, b, c, d). PObservation a b c d)
    (s_pair s_string (s_pair s_string (s_pair (s_option s_hash_observed) (s_option s_blockstamp))))"

definition s_observe :: "p_observe scodec" where
  "s_observe = s_map (\<lambda>m. (pobs_signature m, pobs_observation m)) (\<lambda>(a, b). PObserve a b)
    (s_pair (s_option s_signature) (s_option s_observation))"

definition s_reconfigure :: "p_reconfigure scodec" where
  "s_reconfigure = s_map (\<lambda>m. (pr_signature m, pr_config m, pr_not_before m, pr_not_after m))
    (\<lambda>(a, b, c, d). PReconfigure a b c d)
    (s_pair (s_option s_signature) (s_pair (s_option s_config)
      (s_pair (s_option s_timestamp) (s_option s_timestamp))))"

text \<open>A choice of two messages is a pair of options, of which one is present.\<close>

definition s_action_kind :: "p_action_kind scodec" where
  "s_action_kind = s_map
    (\<lambda>k. case k of PAReconfigure r \<Rightarrow> (Some r, None) | PAObserve ob \<Rightarrow> (None, Some ob))
    (\<lambda>(r, ob). case r of Some x \<Rightarrow> PAReconfigure x | None \<Rightarrow> PAObserve (the ob))
    (s_pair (s_option s_reconfigure) (s_option s_observe))"

definition s_transaction :: "p_transaction scodec" where
  "s_transaction = s_map (\<lambda>m. (ptx_chain_id m, ptx_actions m)) (\<lambda>(a, b). PTransaction a b)
    (s_pair s_string (s_list (s_map pact_action PAction (s_option s_action_kind))))"

lemmas s_message_defs = s_voting_config_def s_admin_config_def s_oracle_identity_def s_oracle_def
  s_oracle_config_def s_config_def s_hash_observed_def s_oracle_vote_value_def s_signature_def
  s_timestamp_def s_blockstamp_def s_observation_def s_observe_def s_reconfigure_def
  s_action_kind_def s_transaction_def

lemma s_messages_ok [simp]:
  "scodec_ok s_config" "scodec_ok s_oracle_vote_value" "scodec_ok s_timestamp" "scodec_ok s_transaction"
  by (simp_all add: s_message_defs split: p_action_kind.splits)

text \<open>A whole message: all of the input is read.\<close>

definition message_of :: "'m scodec \<Rightarrow> 'm message" where
  "message_of C = Message (sput C)
    (\<lambda>bs. case sget C bs of Some (m, []) \<Rightarrow> Some m | _ \<Rightarrow> None)"

lemma message_of_ok: "scodec_ok C \<Longrightarrow> message_ok (message_of C)"
  using scodecD [of C _ "[]"] by (simp add: message_ok_def message_of_def)

end
