(* ===== verification/Sample_Environment.thy ===== *)
theory Sample_Environment
  imports Sample_Codec Sign Chain_State
begin

text \<open>
  A concrete environment that satisfies \<open>env_ok\<close> and \<open>ecdsa_correct\<close>: the hypotheses on the outside
  packages hold together, and every theorem over an environment has an instance. The encodings are
  real ones (hex digits, decimal times, dotted names, the codecs of \<open>Sample_Codec\<close>); the hash and the
  signature scheme are placeholders with the algebraic laws only.
\<close>

section \<open>Hex\<close>

definition sample_hex_digit :: "nat \<Rightarrow> char" where
  "sample_hex_digit n = char_of (if n < 10 then 48 + n else 87 + n)"

definition sample_hex_value :: "char \<Rightarrow> nat option" where
  "sample_hex_value c =
    (let n = of_char c in
     if 48 \<le> n \<and> n \<le> 57 then Some (n - 48) else if 97 \<le> n \<and> n \<le> 102 then Some (n - 87) else None)"

fun sample_hex_encode :: "bytes \<Rightarrow> string" where
  "sample_hex_encode [] = []"
| "sample_hex_encode (b # bs) =
     sample_hex_digit (unat b div 16) # sample_hex_digit (unat b mod 16) # sample_hex_encode bs"

fun sample_hex_decode :: "string \<Rightarrow> bytes option" where
  "sample_hex_decode [] = Some []"
| "sample_hex_decode [c] = None"
| "sample_hex_decode (c # d # s) =
     (case (sample_hex_value c, sample_hex_value d, sample_hex_decode s) of
        (Some h, Some l, Some bs) \<Rightarrow> Some (word_of_nat (16 * h + l) # bs)
      | _ \<Rightarrow> None)"

lemma hex_digit_of_char: "n < 16 \<Longrightarrow> of_char (sample_hex_digit n) = (if n < 10 then 48 + n else 87 + n :: nat)"
  by (simp add: sample_hex_digit_def)

lemma hex_value_digit: "n < 16 \<Longrightarrow> sample_hex_value (sample_hex_digit n) = Some n"
  by (simp add: sample_hex_value_def Let_def hex_digit_of_char)

lemma unat_u8: "unat (b :: u8) < 256"
  using unsigned_less [of b] by simp

lemma hex_decode_encode: "sample_hex_decode (sample_hex_encode bs) = Some bs"
proof (induction bs)
  case (Cons b bs)
  have "unat b div 16 < 16" "unat b mod 16 < 16" using unat_u8 [of b] by auto
  then show ?case by (simp add: hex_value_digit Cons)
qed simp

lemma hex_digit_chars: "n < 16 \<Longrightarrow> of_char (sample_hex_digit n) < (128 :: nat) \<and> sample_hex_digit n \<noteq> CHR ''/''"
proof
  assume n: "n < 16"
  then show "of_char (sample_hex_digit n) < (128 :: nat)" by (simp add: hex_digit_of_char)
  have "of_char (sample_hex_digit n) \<noteq> (47 :: nat)" using n by (simp add: hex_digit_of_char)
  then show "sample_hex_digit n \<noteq> CHR ''/''" by auto
qed

definition plain :: "string \<Rightarrow> bool" where
  "plain s = (ascii s \<and> CHR ''/'' \<notin> set s)"

lemma plain_simps [simp]:
  "plain []" "plain (c # s) = (of_char c < (128 :: nat) \<and> c \<noteq> CHR ''/'' \<and> plain s)"
  by (auto simp: plain_def ascii_def)

lemma plain_hex: "plain (sample_hex_encode bs)"
proof (induction bs)
  case (Cons b bs)
  have "unat b div 16 < 16" "unat b mod 16 < 16" using unat_u8 [of b] by auto
  with Cons hex_digit_chars [of "unat b div 16"] hex_digit_chars [of "unat b mod 16"] show ?case by simp
qed simp

section \<open>Times\<close>

definition undecimal :: "string \<Rightarrow> nat" where
  "undecimal s = fold (\<lambda>c n. 10 * n + (of_char c - 48)) s 0"

definition sample_time_display :: "time \<Rightarrow> string" where
  "sample_time_display t = decimal 21 (nat (t + 62135596800000000000))"

definition sample_time_parse :: "string \<Rightarrow> time option" where
  "sample_time_parse s = Some (int (undecimal s) - 62135596800000000000)"

definition sample_time_to_timestamp :: "time \<Rightarrow> p_timestamp" where
  "sample_time_to_timestamp t = PTimestamp (word_of_int (unix_timestamp t)) (word_of_int (t mod 1000000000))"

definition sample_time_try_from :: "p_timestamp \<Rightarrow> time option" where
  "sample_time_try_from p =
    (let t = sint (pt_seconds p) * 1000000000 + sint (pt_nanos p)
     in if 0 \<le> sint (pt_nanos p) \<and> sint (pt_nanos p) < 1000000000 \<and> time_ok t then Some t else None)"

lemma fold_decimal:
  "n < 10 ^ k \<Longrightarrow> fold (\<lambda>c m. 10 * m + (of_char c - 48)) (decimal k n) a = a * 10 ^ k + n"
proof (induction k arbitrary: n a)
  case (Suc k)
  have d: "n div 10 ^ k < 10" using Suc.prems by (simp add: less_mult_imp_div_less)
  then have "of_char (char_of (48 + n div 10 ^ k) :: char) = 48 + n div 10 ^ k" by simp
  moreover have "n mod 10 ^ k < 10 ^ k" by simp
  ultimately have "fold (\<lambda>c m. 10 * m + (of_char c - 48)) (decimal (Suc k) n) a
      = (10 * a + n div 10 ^ k) * 10 ^ k + n mod 10 ^ k"
    using Suc.IH [of "n mod 10 ^ k"] by (simp del: of_char_of)
  also have "\<dots> = a * 10 ^ Suc k + (n div 10 ^ k * 10 ^ k + n mod 10 ^ k)"
    by (simp only: add_mult_distrib power_Suc mult.assoc mult.left_commute add.assoc)
  finally show ?case unfolding div_mult_mod_eq .
qed simp

lemma undecimal_decimal: "n < 10 ^ k \<Longrightarrow> undecimal (decimal k n) = n"
  by (simp add: undecimal_def fold_decimal)

lemma plain_decimal: "n < 10 ^ k \<Longrightarrow> plain (decimal k n)"
proof (induction k arbitrary: n)
  case (Suc k)
  let ?c = "char_of (48 + n div 10 ^ k) :: char"
  have d: "n div 10 ^ k < 10" using Suc.prems by (simp add: less_mult_imp_div_less)
  then have c: "of_char ?c = 48 + n div 10 ^ k" by simp
  have "?c \<noteq> CHR ''/''"
  proof
    assume eq: "?c = CHR ''/''"
    show False using c unfolding eq by simp
  qed
  moreover have "of_char ?c < (128 :: nat)" unfolding c using d by linarith
  ultimately show ?case using Suc.IH [of "n mod 10 ^ k"] by (simp del: of_char_of)
qed simp

section \<open>Domain names\<close>

definition sample_fqdn_parse :: "string \<Rightarrow> fqdn option" where
  "sample_fqdn_parse s =
    (if s = ''.'' then Some []
     else let ls = split_on CHR ''.'' s; ls' = (if last ls = [] then butlast ls else ls)
          in if ls' \<noteq> [] \<and> list_all label_ok ls' then Some ls' else None)"

lemma split_dotted:
  "\<forall>l \<in> set d. CHR ''.'' \<notin> set l \<Longrightarrow> split_on CHR ''.'' (concat (map (\<lambda>l. l @ ''.'') d)) = d @ [[]]"
  by (induction d) (simp_all add: str_simps)

lemma fqdn_parse_display:
  assumes "list_all label_ok d"
  shows "sample_fqdn_parse (fqdn_display d) = Some d"
proof (cases d)
  case (Cons l ls)
  have "concat (map (\<lambda>l. l @ ''.'') d) \<noteq> ''.''"
    using assms by (cases l) (auto simp: Cons label_ok_def)
  moreover have "split_on CHR ''.'' (concat (map (\<lambda>l. l @ ''.'') d)) = d @ [[]]"
    using assms by (intro split_dotted) (auto simp: list_all_iff label_ok_def)
  ultimately show ?thesis using assms Cons by (simp add: sample_fqdn_parse_def fqdn_display_def Let_def)
qed (simp add: sample_fqdn_parse_def fqdn_display_def)

lemma fqdn_parse_valid: "sample_fqdn_parse s = Some d \<Longrightarrow> list_all label_ok d"
  by (auto simp: sample_fqdn_parse_def Let_def split: if_splits)

section \<open>The environment\<close>

definition sample_config :: config where
  "sample_config =
    \<lparr>version = 1,
     admins = \<lparr>a_voting = \<lparr>total = 1, quorum = 1, timeout = from_secs 300, delay = from_secs 60\<rparr>,
               a_authorized = [Admin [4, 1]]\<rparr>,
     oracles = \<lparr>o_enabled = True,
                o_voting = \<lparr>total = 2, quorum = 2, timeout = from_secs 300, delay = from_secs 60\<rparr>,
                max_enrolled_subdomains = 1, observation_timeout = from_secs 300,
                o_authorized = [\<lparr>or_identity = [4, 2], or_endpoint = ''127.0.0.1''\<rparr>,
                                \<lparr>or_identity = [4, 3], or_endpoint = ''127.0.0.2''\<rparr>]\<rparr>,
     onion = OnionConfig False\<rparr>"

definition sample_digest :: "bytes \<Rightarrow> bytes" where
  "sample_digest b = take 32 (b @ replicate 32 0)"

definition sample_signature :: "bytes \<Rightarrow> bytes \<Rightarrow> bytes" where
  "sample_signature pk digest = take 64 (pk @ digest @ replicate 64 0)"

definition sample_env :: env where
  "sample_env =
    \<lparr>hex_encode = sample_hex_encode,
     time_display = sample_time_display,
     time_parse_rfc3339 = sample_time_parse,
     time_from_unix = (\<lambda>s. if time_ok (s * 1000000000) then Some (s * 1000000000) else None),
     time_to_timestamp = sample_time_to_timestamp,
     time_try_from_timestamp = sample_time_try_from,
     fqdn_valid = list_all label_ok,
     fqdn_from_ascii_str = sample_fqdn_parse,
     fqdn_from_str = sample_fqdn_parse,
     app_hash_try_from = Some,
     height_try_from = (\<lambda>w. if w \<le> i64_max then Some w else None),
     power_try_from = (\<lambda>w. if w \<le> i64_max then Some w else None),
     sha256 = sample_digest,
     msg_config = message_of s_config,
     msg_oracle_vote_value = message_of s_oracle_vote_value,
     msg_transaction = message_of s_transaction,
     msg_timestamp = message_of s_timestamp,
     msg_u64 = message_of s_u64,
     msg_bytes = message_of s_bytes,
     msg_string = message_of s_string,
     msg_unit_decode = (\<lambda>b. Some ()),
     json_to_transaction = (\<lambda>s. decode (message_of s_transaction) (as_bytes s)),
     json_of_transaction = (\<lambda>m. from_utf8 (encode (message_of s_transaction) m)),
     p256_signature_from_bytes = (\<lambda>b. if length b = 64 then Some b else None),
     p256_encoded_point = (\<lambda>b. if b = [] then None else Some b),
     p256_verifying_key = Some,
     p256_verify = (\<lambda>vk digest sg. sg = sample_signature vk digest),
     p256_public_key = (\<lambda>sk. 4 # sk),
     p256_sign = (\<lambda>sk. sample_signature (4 # sk)),
     merkle_root = (\<lambda>m. sample_digest (concat (map (\<lambda>(k, b). as_bytes k @ b) m))),
     merkle_prefix_root =
       (\<lambda>p m. sample_digest (concat (map (\<lambda>(k, b). as_bytes k @ b) (filter (\<lambda>kb. prefix (p @ ''/'') (fst kb)) m)))),
     hex_decode = sample_hex_decode,
     ed25519_from_raw = (\<lambda>b. if length b = 32 then Some (Ed25519 b) else None),
     init_chain_request_encode = (\<lambda>req. as_bytes (ic_chain_id req) @ ic_app_state_bytes req),
     json_from_slice = (\<lambda>b. Some (JObject [(''config'', JNull)])),
     config_from_json = (\<lambda>j. Some sample_config),
     oracle_tally_order = (\<lambda>t. t),
     config_tally_order = (\<lambda>t. t)\<rparr>"

lemma sample_timestamp:
  assumes "time_ok t"
  shows "sample_time_try_from (sample_time_to_timestamp t) = Some t"
proof -
  have b: "- 62135596800 \<le> unix_timestamp t" "unix_timestamp t \<le> 253402300799"
    using assms by (simp_all add: time_ok_def)
  have "sint (word_of_int (unix_timestamp t) :: 64 word) = unix_timestamp t"
    using b by (simp add: sint_sbintrunc' signed_take_bit_int_eq_self)
  moreover have "0 \<le> t mod 1000000000" "t mod 1000000000 < 1000000000" by simp_all
  moreover from this have "sint (word_of_int (t mod 1000000000) :: 32 word) = t mod 1000000000"
    by (simp add: sint_sbintrunc' signed_take_bit_int_eq_self)
  moreover have "unix_timestamp t * 1000000000 + t mod 1000000000 = t"
    unfolding unix_timestamp_def by (rule div_mult_mod_eq)
  ultimately show ?thesis using assms by (simp add: sample_time_to_timestamp_def sample_time_try_from_def)
qed

lemma sample_time:
  assumes "time_ok t"
  shows "plain (sample_time_display t)" "sample_time_parse (sample_time_display t) = Some t"
proof -
  have "- 62135596800 \<le> t div 1000000000" "t div 1000000000 \<le> 253402300799"
    using assms by (simp_all add: time_ok_def unix_timestamp_def)
  moreover have "t = t div 1000000000 * 1000000000 + t mod 1000000000"
    "0 \<le> t mod 1000000000" "t mod 1000000000 < 1000000000" by simp_all
  ultimately have "0 \<le> t + 62135596800000000000" "t + 62135596800000000000 < 1000000000000000000000"
    by linarith+
  then have n: "nat (t + 62135596800000000000) < 10 ^ 21" "0 \<le> t + 62135596800000000000" by simp_all
  show "plain (sample_time_display t)" unfolding sample_time_display_def by (rule plain_decimal [OF n(1)])
  show "sample_time_parse (sample_time_display t) = Some t"
    using n(2) by (simp only: sample_time_parse_def sample_time_display_def undecimal_decimal [OF n(1)]) simp
qed

lemma sample_time_try_ok: "sample_time_try_from p = Some t \<Longrightarrow> time_ok t"
  by (auto simp: sample_time_try_from_def Let_def split: if_splits)

lemma message_of_sample [simp]:
  "message_ok (message_of s_config)" "message_ok (message_of s_oracle_vote_value)"
  "message_ok (message_of s_transaction)" "message_ok (message_of s_timestamp)"
  "message_ok (message_of s_u64)" "message_ok (message_of s_bytes)" "message_ok (message_of s_string)"
  by (simp_all add: message_of_ok)

lemma env_ok_sample [simp]: "env_ok sample_env"
proof -
  have "list_all label_ok d \<Longrightarrow> list_all label_ok (drop n d)" for n d
    by (auto simp: list_all_iff dest: in_set_dropD)
  then show ?thesis
    using plain_hex sample_time sample_timestamp sample_time_try_ok fqdn_parse_display fqdn_parse_valid
      hex_decode_encode
    unfolding env_ok_def sample_env_def plain_def
    by (intro conjI allI impI) (auto simp: list_all_iff fqdn_root_def split: if_splits)
qed

lemma ecdsa_correct_sample [simp]: "ecdsa_correct sample_env"
proof -
  have "length (sample_signature pk d) = 64" for pk d by (simp add: sample_signature_def min_def)
  then show ?thesis by (simp add: ecdsa_correct_def verify_def sample_env_def)
qed

end
