(* ===== verification/Sample_State.thy ===== *)
theory Sample_State
  imports Node Sample_Environment
begin

text \<open>
  Concrete states for the sample environment: the state a genesis request gives, and the state in the
  second block after it, in which observations of the first block can be made.
\<close>

section \<open>After the genesis\<close>

definition sample_validator :: validator_update where
  "sample_validator = Update (Ed25519 (replicate 32 7)) 10"

definition sample_genesis :: init_chain_request where
  "sample_genesis =
    \<lparr>ic_chain_id = ''felidae'', ic_initial_height = 1, ic_app_state_bytes = [1],
     ic_validators = [sample_validator], ic_consensus_params = []\<rparr>"

definition sample_state :: contents where
  "sample_state = fst (init_chain sample_env sample_genesis empty_contents)"

lemma sample_config_norm [simp]: "config_norm sample_config = sample_config"
  by (simp add: config_norm_def admin_config_norm_def oracle_config_norm_def voting_config_norm_def
      oracle_norm_def whole_secs_def from_secs_def as_secs_def nanos_per_sec_def sample_config_def
      i64_max_def min_def)

lemma sample_genesis_ok [simp]:
  "ic_initial_height sample_genesis = 1" "ic_chain_id sample_genesis = ''felidae''"
  "validators_ok sample_env (ic_validators sample_genesis)"
  "genesis_config sample_env (ic_app_state_bytes sample_genesis) = Inr sample_config"
  by (simp_all add: sample_genesis_def validators_ok_def sample_validator_def sample_env_def
      genesis_config_def i64_max_def)

lemma sample_state:
  "state_ok sample_env sample_state" "config sample_env sample_state = Inr sample_config"
  "chain_id sample_env sample_state = Inr (ChainId ''felidae'')" "vget Canonical sample_state = Map.empty"
  "votes_view sample_env (oracle_queue sample_env c) sample_state = Map.empty"
  "pending_view sample_env (oracle_queue sample_env c) sample_state = Map.empty"
  "votes_view sample_env (admin_queue sample_env c) sample_state = Map.empty"
  "pending_view sample_env (admin_queue sample_env c) sample_state = Map.empty"
  "validators_view sample_env sample_state = [Ed25519 (replicate 32 7) \<mapsto> 10]"
proof -
  have id: "ic_chain_id sample_genesis \<noteq> []" by simp
  obtain s' where s': "init_chain sample_env sample_genesis empty_contents =
      (s', Inr \<lparr>icr_consensus_params = Some (ic_consensus_params sample_genesis),
                icr_validators = ic_validators sample_genesis,
                icr_app_hash = sha256 sample_env (init_chain_request_encode sample_env sample_genesis)\<rparr>)"
    "state_ok sample_env s'" "config sample_env s' = Inr (config_norm sample_config)"
    "chain_id sample_env s' = Inr (ChainId (ic_chain_id sample_genesis))"
    "validators_view sample_env s' = map_of (map (\<lambda>v. (vu_pub_key v, vu_power v)) (ic_validators sample_genesis))"
    "vget Canonical s' = Map.empty" "votes_view sample_env (oracle_queue sample_env c) s' = Map.empty"
    "pending_view sample_env (oracle_queue sample_env c) s' = Map.empty"
    "votes_view sample_env (admin_queue sample_env c) s' = Map.empty"
    "pending_view sample_env (admin_queue sample_env c) s' = Map.empty"
    by (rule init_chain_effect [OF env_ok_sample sample_genesis_ok(1,3) id sample_genesis_ok(4)])
  have "sample_state = s'" by (simp add: sample_state_def s'(1))
  with s' show "state_ok sample_env sample_state" "config sample_env sample_state = Inr sample_config"
    "chain_id sample_env sample_state = Inr (ChainId ''felidae'')" "vget Canonical sample_state = Map.empty"
    "votes_view sample_env (oracle_queue sample_env c) sample_state = Map.empty"
    "pending_view sample_env (oracle_queue sample_env c) sample_state = Map.empty"
    "votes_view sample_env (admin_queue sample_env c) sample_state = Map.empty"
    "pending_view sample_env (admin_queue sample_env c) sample_state = Map.empty"
    by simp_all
  show "validators_view sample_env sample_state = [Ed25519 (replicate 32 7) \<mapsto> 10]"
    unfolding \<open>sample_state = s'\<close> s'(5) by (simp add: sample_genesis_def sample_validator_def)
qed

lemma sample_queue_ok [simp]:
  "queue_ok sample_env (oracle_queue sample_env c) sample_state"
  "queue_ok sample_env (admin_queue sample_env c) sample_state"
  using state_okD(1,2) [OF sample_state(1)] .

lemma sample_canonical_ok [simp]: "canonical_ok sample_env sample_state"
  by (simp add: canonical_ok_def sample_state(4))

section \<open>In the second block\<close>

definition sample_time :: time where "sample_time = 1000000000000"

definition sample_request :: finalize_block_request where
  "sample_request = \<lparr>fb_txs = [], fb_votes = [], fb_misbehavior = [], fb_height = 1, fb_time = sample_time\<rparr>"

lemma sample_time_ok [simp]: "time_ok sample_time" "0 \<le> sample_time" "time_ok (sample_time + 60000000000)"
  by (simp_all add: sample_time_def time_ok_def unix_timestamp_def)

lemma sample_request_ok [simp]: "request_ok sample_request"
  by (simp add: request_ok_def sample_request_def i64_max_def)

text \<open>The parameters the first block leaves and the second one starts with.\<close>

definition sample_block :: contents where
  "sample_block =
    fst (set_block_time sample_env (sample_time + 60000000000) (fst (set_block_height sample_env 2
     (fst (record_app_hash sample_env (replicate 32 9)
       (fst (set_block_time sample_env sample_time (fst (set_block_height sample_env 1 sample_state)))))))))"

lemma sample_block_eq:
  "sample_block =
    put (time_encode sample_env) Internal (''blocktime/'' @ pad_height 2) (sample_time + 60000000000)
     (put (time_encode sample_env) Internal ''current/block_time'' (sample_time + 60000000000)
     (put (height_encode sample_env) Internal ''current/block_height'' 2
     (put (app_hash_encode sample_env) Internal (''apphash/'' @ pad_height 0) (replicate 32 9)
     (put (time_encode sample_env) Internal (''blocktime/'' @ pad_height 1) sample_time
     (put (time_encode sample_env) Internal ''current/block_time'' sample_time
     (put (height_encode sample_env) Internal ''current/block_height'' 1 sample_state))))))"
  by (simp add: sample_block_def writes block_height_def get_simps height_codec [OF env_ok_sample]
      env_height [OF env_ok_sample] i64_max_def)

lemma sample_block_reads:
  "config sample_env sample_block = Inr sample_config" "block_height sample_env sample_block = Inr 2"
  "block_time sample_env sample_block = Inr (sample_time + 60000000000)"
  "time_of_block sample_env 1 sample_block = Inr sample_time"
  "previous_app_hash sample_env 0 sample_block = Inr (replicate 32 9)"
  "chain_id sample_env sample_block = Inr (ChainId ''felidae'')"
proof -
  show "config sample_env sample_block = Inr sample_config"
    using sample_state(2) unfolding sample_block_eq config_def by (simp add: get_simps)
  show "block_height sample_env sample_block = Inr 2"
    unfolding sample_block_eq block_height_def
    by (simp add: get_simps height_codec [OF env_ok_sample] i64_max_def)
  show "block_time sample_env sample_block = Inr (sample_time + 60000000000)"
    unfolding sample_block_eq block_time_def by (simp add: get_simps time_codec [OF env_ok_sample])
  show "time_of_block sample_env 1 sample_block = Inr sample_time"
    unfolding sample_block_eq time_of_block_def by (simp add: get_simps time_codec [OF env_ok_sample])
  show "previous_app_hash sample_env 0 sample_block = Inr (replicate 32 9)"
    unfolding sample_block_eq previous_app_hash_def
    by (simp add: get_simps app_hash_codec [OF env_ok_sample])
  show "chain_id sample_env sample_block = Inr (ChainId ''felidae'')"
    using sample_state(3) unfolding sample_block_eq chain_id_def by (simp add: get_simps)
qed

lemma sample_block_other:
  assumes "\<not> prefix ''blocktime/'' k" "\<not> prefix ''apphash/'' k" "\<not> prefix ''current/block'' k"
  shows "vget Internal sample_block k = vget Internal sample_state k"
proof -
  have "''blocktime/'' @ x \<noteq> k" "''apphash/'' @ x \<noteq> k" "''current/block_time'' \<noteq> k" "''current/block_height'' \<noteq> k"
    for x using assms by (auto simp: prefix_def)
  then show ?thesis by (simp only: sample_block_eq vget_put if_False simp_thms if_cancel)
qed

lemma sample_block_queues:
  assumes "p = ''oracle_voting/'' \<or> p = ''admin_voting/''"
  shows "same_queue p sample_state sample_block"
proof -
  have "vget Internal sample_block k = vget Internal sample_state k" if "queue_key p k" for k
    by (rule sample_block_other; use assms that in \<open>auto simp: queue_key_def prefix_def\<close>)
  moreover have "nget Internal sample_block = nget Internal sample_state"
    by (simp add: sample_block_eq view_frames)
  ultimately show ?thesis by (simp add: same_queue_def)
qed

lemma contents_ok_sample [simp]: "contents_ok sample_state" "contents_ok sample_block"
  using state_okD(7) [OF sample_state(1)] by (simp_all add: sample_block_eq)

lemma sample_block_views:
  "queue_ok sample_env (oracle_queue sample_env c) sample_block"
  "queue_ok sample_env (admin_queue sample_env c) sample_block"
  "votes_view sample_env (oracle_queue sample_env c) sample_block = Map.empty"
  "pending_view sample_env (oracle_queue sample_env c) sample_block = Map.empty"
  "votes_view sample_env (admin_queue sample_env c) sample_block = Map.empty"
  "pending_view sample_env (admin_queue sample_env c) sample_block = Map.empty"
proof -
  have o: "same_queue (qp (oracle_queue sample_env c)) sample_state sample_block"
    and a: "same_queue (qp (admin_queue sample_env c)) sample_state sample_block"
    by (simp_all add: sample_block_queues)
  note oc = queue_ok_cong [OF o contents_ok_sample(2) sample_queue_ok(1)]
  note ac = queue_ok_cong [OF a contents_ok_sample(2) sample_queue_ok(2)]
  show "queue_ok sample_env (oracle_queue sample_env c) sample_block"
    "queue_ok sample_env (admin_queue sample_env c) sample_block" by (fact oc ac)+
  show "votes_view sample_env (oracle_queue sample_env c) sample_block = Map.empty"
    "pending_view sample_env (oracle_queue sample_env c) sample_block = Map.empty"
    "votes_view sample_env (admin_queue sample_env c) sample_block = Map.empty"
    "pending_view sample_env (admin_queue sample_env c) sample_block = Map.empty"
    unfolding oc(2,3) ac(2,3) by (fact sample_state)+
qed

lemma sample_block_canonical: "vget Canonical sample_block = Map.empty"
  by (simp add: sample_block_eq fun_eq_iff store_simps sample_state(4))

lemma sample_block_ok:
  "state_ok sample_env sample_block" "canonical_ok sample_env sample_block"
proof -
  have "vget Internal sample_block k = vget Internal sample_state k" if "prefix ''current/validators/'' k" for k
    by (rule sample_block_other; use that in \<open>auto simp: prefix_def\<close>)
  then have "validator_table_ok sample_env sample_block"
    using state_okD(5) [OF sample_state(1)] unfolding validator_table_ok_def by metis
  then show "state_ok sample_env sample_block"
    by (simp add: state_ok_def sample_block_views(1,2) sample_block_reads sample_time_def)
  show "canonical_ok sample_env sample_block" by (simp add: canonical_ok_def sample_block_canonical)
qed

section \<open>Sample actions\<close>

definition sample_subdomain :: domain where
  "sample_subdomain = Domain [''www'', ''example'', ''com'']"

definition sample_zone :: zone where "sample_zone = Zone [''com'']"

definition sample_observation :: observe_action where
  "sample_observation =
    \<lparr>obs_observation = \<lparr>ob_domain = sample_subdomain, ob_zone = sample_zone,
        ob_blockstamp = Blockstamp 1 (replicate 32 9), ob_hash_observed = Hash (replicate 32 5)\<rparr>,
     obs_oracle = OracleIdentity [4, 2]\<rparr>"

definition sample_vote_value :: oracle_vote_value where
  "sample_vote_value = \<lparr>ovv_hash_observed = Hash (replicate 32 5), ovv_zone = sample_zone\<rparr>"

definition sample_vote :: "(prefix_order_domain, oracle_vote_value) vote" where
  "sample_vote =
    \<lparr>vote_party = ''0402'', vote_time = sample_time, vote_key = pod_of_domain sample_subdomain,
     vote_value = sample_vote_value\<rparr>"

definition sample_queue :: "u64 \<Rightarrow> (prefix_order_domain, oracle_vote_value) vote_queue" where
  "sample_queue q =
    oracle_queue sample_env \<lparr>total = 2, quorum = q, timeout = from_secs 300, delay = from_secs 60\<rparr>"

lemma sample_names [simp]:
  "fqdn_valid sample_env [''www'', ''example'', ''com'']" "fqdn_valid sample_env [''example'', ''com'']"
  "fqdn_valid sample_env [''com'']"
  by (simp_all add: sample_env_def label_ok_def ascii_def)

lemma sample_reconfigure_ok: "oracle_vote_value_ok sample_env sample_vote_value"
  by (simp add: oracle_vote_value_ok_def sample_vote_value_def sample_zone_def)

lemma sample_castable:
  "castable sample_env (sample_queue q) (key_to_string (sample_queue q) (vote_key sample_vote))
    (vote_party sample_vote) (vote_time sample_vote) (vote_value sample_vote) sample_vote_value"
proof -
  have "key_good (sample_queue q) (pod_display (pod_of_domain sample_subdomain))"
    unfolding sample_queue_def by (rule key_good_oracle) (simp_all add: sample_subdomain_def)
  then show ?thesis
    using sample_reconfigure_ok
    by (simp add: castable_def sample_queue_def codec_ok_queues sample_vote_def ovv_codec part_ok_def ascii_def)
qed

end
