(* ===== verification/Props_Data.thy ===== *)
theory Props_Data
  imports Sample_State
begin

text \<open>
  The properties of the data: the conversions to and from protobuf, the order of domain names, the
  signatures of a transaction and the keys of the vote queues.
\<close>

section \<open>Conversions\<close>

text \<open>C29: A stored configuration is read back as written, with durations cut to whole seconds, numbers
  above \<open>i64::MAX\<close> clamped to it and an empty oracle endpoint read as \<open>127.0.0.1\<close>; storing it again
  changes nothing. The statement names the parts that are never changed.\<close>

theorem config_codec_roundtrip:
  assumes "env_ok E"
  shows "config_decode E (config_encode E c) = Inr (config_norm c) \<and>
    config_norm (config_norm c) = config_norm c \<and> version (config_norm c) = version c \<and>
    a_authorized (admins (config_norm c)) = a_authorized (admins c) \<and>
    map or_identity (o_authorized (oracles (config_norm c))) = map or_identity (o_authorized (oracles c)) \<and>
    max_enrolled_subdomains (oracles (config_norm c)) = min (max_enrolled_subdomains (oracles c)) i64_max \<and>
    quorum (a_voting (admins (config_norm c))) = min (quorum (a_voting (admins c))) i64_max"
  using config_codec [OF assms, of c]
  by (intro conjI config_norm_idem) (simp_all add: config_norm_def admin_config_norm_def
      oracle_config_norm_def voting_config_norm_def oracle_norm_def)

theorem config_codec_roundtrip_witness:
  "config_decode sample_env (config_encode sample_env sample_config) = Inr sample_config"
  using config_codec_roundtrip [OF env_ok_sample, of sample_config] by simp

text \<open>A transaction whose names, hashes and times are well formed survives the way to protobuf and
  back, up to the normal form of the configurations in it.\<close>

theorem transaction_proto_roundtrip:
  assumes "env_ok E" "transaction_ok E tx"
  shows "transaction_try_from E (transaction_to_proto E tx) = Inr (transaction_norm tx) \<and>
    tx_chain_id (transaction_norm tx) = tx_chain_id tx \<and>
    length (tx_actions (transaction_norm tx)) = length (tx_actions tx)"
  using transaction_roundtrip [OF assms] by (simp add: transaction_norm_def)

definition sample_tx :: transaction where
  "sample_tx = \<lparr>tx_chain_id = ChainId ''felidae'', tx_actions = [Observe sample_observation]\<rparr>"

lemma sample_tx_ok: "transaction_ok sample_env sample_tx" "transaction_norm sample_tx = sample_tx"
  by (simp_all add: transaction_ok_def transaction_norm_def sample_tx_def sample_observation_def
      observation_ok_def sample_subdomain_def sample_zone_def i64_max_def)

theorem transaction_proto_roundtrip_witness:
  "transaction_try_from sample_env (transaction_to_proto sample_env sample_tx) = Inr sample_tx"
  using transaction_proto_roundtrip [OF env_ok_sample sample_tx_ok(1)] by (simp add: sample_tx_ok(2))

text \<open>A name stored in prefix order is parsed back, two names have the same key only if they are
  equal, and the keys below the key of a registered domain (other than the root) are exactly those of
  its strict subdomains.\<close>

theorem prefix_order_keys:
  assumes "env_ok E" "fqdn_valid E (pod_name r)" "fqdn_valid E (pod_name p)" "pod_name r \<noteq> fqdn_root"
  shows "pod_try_from E (pod_display p) = Inr p \<and> (pod_display p = pod_display r \<longleftrightarrow> p = r) \<and>
    (prefix (pod_display r @ ''.'') (pod_display p) \<longleftrightarrow>
      fqdn_is_subdomain_of (pod_name p) (pod_name r) \<and> p \<noteq> r)"
  using pod_conv.conv [of E p] pod_prefix_iff [OF assms] pod_display_inj [OF assms(1,3,2)] assms by auto

theorem prefix_order_keys_witness:
  "prefix (pod_display (PrefixOrderDomain [''com'']) @ ''.'')
     (pod_display (PrefixOrderDomain [''example'', ''com'']))"
  using prefix_order_keys [of sample_env "PrefixOrderDomain [''com'']" "PrefixOrderDomain [''example'', ''com'']"]
  by (simp add: fqdn_root_def fqdn_is_subdomain_of_def suffix_def)

text \<open>The registered domain of an observed name strictly below its zone is the name cut to one label
  more than the zone; a name that has no more labels than the zone is refused.\<close>

theorem registered_domain_below_zone:
  "(fqdn_is_subdomain_of d z \<and> d \<noteq> z \<longrightarrow>
      (\<exists>l. registered_domain d z = Inr (PrefixOrderDomain (l # z)) \<and> fqdn_is_subdomain_of d (l # z))) \<and>
   (length d \<le> length z \<longrightarrow> registered_domain d z = Inl ZoneDepths)"
  using registered_below_zone [of d z] by (auto simp: registered_domain_def fqdn_depth_def)

theorem registered_domain_below_zone_witness:
  "(\<exists>l. registered_domain [''www'', ''example'', ''com''] [''com''] = Inr (PrefixOrderDomain (l # [''com'']))) \<and>
   registered_domain [''com''] [''com''] = Inl ZoneDepths"
  using registered_domain_below_zone [of "[''www'', ''example'', ''com'']" "[''com'']"]
    registered_domain_below_zone [of "[''com'']" "[''com'']"]
  by (auto simp: fqdn_is_subdomain_of_def suffix_def)

section \<open>Signatures\<close>

lemma to_proto_unsigned: "unsign_all (transaction_to_proto E tx) = transaction_to_proto E tx"
proof -
  have "action_map clear_signature (action_to_proto E a) = action_to_proto E a" for a
    by (cases a) (simp_all add: action_map_def reconfigure_to_proto_def observe_to_proto_def clear_signature_def
        signature_of_admin_def signature_of_oracle_identity_def signature_unsigned_def)
  then show ?thesis by (simp add: unsign_all_eq tx_map_def transaction_to_proto_def)
qed

lemma signed_authenticates:
  assumes "env_ok E" "transaction_ok E tx" "signer_sound E sw"
    and "transaction_sign_to_proto E sw tx = Inr buf"
  shows "authenticated_from_proto E buf = Inr (transaction_norm tx)"
proof -
  from assms(4) obtain p where p: "sign_all E sw (transaction_to_proto E tx) = Inr p"
    "buf = encode (msg_transaction E) p"
    by (auto simp: transaction_sign_to_proto_def sign_to_proto_def res_simps)
  have "unsign_all p = transaction_to_proto E tx"
    using p(1) by (simp add: sign_all_Inr unsign_signed to_proto_unsigned)
  then have "authenticate_from_proto E buf = Inr (transaction_to_proto E tx)"
    using sign_all_verifies [OF assms(3) p(1)] env_msg_transaction [OF assms(1)]
    by (simp add: authenticate_from_proto_def p(2))
  then show ?thesis
    using transaction_roundtrip [OF assms(1,2)] by (simp add: authenticated_from_proto_def parse_error_of_verify_def)
qed

text \<open>C27: A well-formed transaction signed by a sound signer is accepted by every node: what it
  authenticates is the transaction that was signed, the configurations in it brought to their stored
  normal form (\<open>transaction_norm\<close>); an observation comes back unchanged.\<close>

theorem signed_transaction_authenticates:
  assumes "env_ok E" "transaction_ok E tx" "signer_sound E sw"
    and "transaction_sign_to_proto E sw tx = Inr buf"
  shows "authenticated_from_proto E buf = Inr (transaction_norm tx)"
  by (rule signed_authenticates [OF assms])

definition sample_signer :: signer where
  "sample_signer = keypairs_sign_with sample_env (keypairs_from_iter sample_env [KeyPair [2], KeyPair [1]])"

lemma sample_signer_sound: "signer_sound sample_env sample_signer"
  unfolding sample_signer_def by (rule keypairs_signer_sound) simp

lemma sample_tx_signed: "\<exists>buf. transaction_sign_to_proto sample_env sample_signer sample_tx = Inr buf"
proof -
  let ?p = "transaction_to_proto sample_env sample_tx"
  have "tx_signatures ?p = [PSignature [4, 2] []]"
    by (simp add: tx_signatures_def transaction_to_proto_def sample_tx_def action_signatures_def
        observe_to_proto_def signature_of_oracle_identity_def signature_unsigned_def sample_observation_def)
  then have "\<forall>sg \<in> set (tx_signatures ?p). can_sign sample_signer (tx_hash sample_env ?p) sg"
    by (simp add: can_sign_def sample_signer_def keypairs_sign_with_def keypairs_from_iter_def
        keypairs_insert_def keypairs_new_def keypair_sign_with_def keypair_public_key_def sample_env_def)
  then have "\<exists>p. sign_all sample_env sample_signer ?p = Inr p" unfolding sign_all_Inr by blast
  then show ?thesis by (auto simp: transaction_sign_to_proto_def sign_to_proto_def)
qed

theorem signed_transaction_authenticates_witness:
  "\<exists>buf. transaction_sign_to_proto sample_env sample_signer sample_tx = Inr buf \<and>
     authenticated_from_proto sample_env buf = Inr sample_tx"
proof -
  obtain buf where buf: "transaction_sign_to_proto sample_env sample_signer sample_tx = Inr buf"
    using sample_tx_signed by blast
  show ?thesis
    using buf signed_transaction_authenticates [OF env_ok_sample sample_tx_ok(1) sample_signer_sound buf]
    by (simp add: sample_tx_ok(2))
qed

text \<open>A transaction can be signed exactly when no signature in it is filled in and the signer has a
  key for each public key; signing then fills in every signature, over the hash of the transaction
  without signatures.\<close>

theorem sign_all_succeeds_iff:
  "sign_all E sw tx = Inr tx' \<longleftrightarrow>
    list_all (\<lambda>sg. ps_signature sg = [] \<and> sw (ps_public_key sg) (tx_hash E tx) \<noteq> None) (tx_signatures tx) \<and>
    tx' = tx_map (\<lambda>sg. PSignature (ps_public_key sg) (the (sw (ps_public_key sg) (tx_hash E tx)))) tx"
proof -
  have "tx_map (signed sw (tx_hash E tx)) tx
      = tx_map (\<lambda>sg. PSignature (ps_public_key sg) (the (sw (ps_public_key sg) (tx_hash E tx)))) tx"
    if "\<forall>sg \<in> set (tx_signatures tx). can_sign sw (tx_hash E tx) sg"
    by (rule tx_map_cong) (use that in \<open>auto simp: signed_def sign_visit_def can_sign_def\<close>)
  then show ?thesis by (auto simp: sign_all_Inr list_all_iff can_sign_def)
qed

text \<open>Verification accepts a transaction exactly when every signature in it verifies over the hash of
  the transaction without its signatures, in which the order and the content of all actions take part.\<close>

theorem verify_all_accepts_iff:
  "verify_all E tx =
    (if list_all (\<lambda>sg. verify E (ps_public_key sg) (ps_signature sg) (sha256 E (encode (msg_transaction E)
        (tx_map (\<lambda>sg. PSignature (ps_public_key sg) []) tx)))) (tx_signatures tx)
     then Inr tx else Inl VerifyError)"
  by (simp add: verify_all_eq list_all_iff tx_hash_def unsign_all_eq clear_signature_def [abs_def])

section \<open>Keys of the vote queues\<close>

text \<open>Every key the queues build is parsed back to the parts it was built from, with the time cut to
  the second.\<close>

theorem queue_keys_parse_back:
  assumes "env_ok E" "time_ok t" "part_ok key" "part_ok party"
  shows "parse_votes_by_key_party_timestamp E p (votes_by_key_party_timestamp E p key party t)
      = Inr (key, party, trunc_secs t) \<and>
    parse_index_votes_by_timestamp_key_party E p (index_votes_by_timestamp_key_party p t key party)
      = Inr (trunc_secs t, key, party) \<and>
    parse_pending_by_key_timestamp E p (pending_by_key_timestamp E p key t) = Inr (key, trunc_secs t) \<and>
    parse_index_pending_by_timestamp_key E p (index_pending_by_timestamp_key p t key) = Inr (trunc_secs t, key)"
  using assms by (simp add: parse_votes_key parse_index_votes_key parse_pending_key parse_index_pending_key)

theorem queue_keys_parse_back_witness:
  "parse_votes_by_key_party_timestamp sample_env ''oracle_voting/''
     (votes_by_key_party_timestamp sample_env ''oracle_voting/'' ''.com.example'' ''0402'' sample_time)
   = Inr (''.com.example'', ''0402'', trunc_secs sample_time)"
  using queue_keys_parse_back [OF env_ok_sample sample_time_ok(1), of "''.com.example''" "''0402''" "''oracle_voting/''"]
  by (simp add: part_ok_def ascii_def)

text \<open>Keys built from different parts are different, so no vote or pending change overwrites another.\<close>

theorem queue_keys_injective:
  assumes "env_ok E" "part_ok k" "part_ok q" "stamp_ok t" "part_ok k'" "part_ok q'" "stamp_ok t'"
  shows "(votes_by_key_party_timestamp E p k q t = votes_by_key_party_timestamp E p k' q' t'
      \<longleftrightarrow> k = k' \<and> q = q' \<and> t = t') \<and>
    (index_votes_by_timestamp_key_party p t k q = index_votes_by_timestamp_key_party p t' k' q'
      \<longleftrightarrow> k = k' \<and> q = q' \<and> t = t') \<and>
    (pending_by_key_timestamp E p k t = pending_by_key_timestamp E p k' t' \<longleftrightarrow> k = k' \<and> t = t') \<and>
    (index_pending_by_timestamp_key p t k = index_pending_by_timestamp_key p t' k' \<longleftrightarrow> k = k' \<and> t = t')"
  using assms votes_key_inj [of E k q t k' q' t' p] pending_key_inj [of E k t k' t' p]
    vote_index_key_inj [of E k q t k' q' t' p] pending_index_key_inj [of E k t k' t' p] by auto

lemma sample_stamp: "stamp_ok sample_time"
  using trunc_secs_of_secs [of 1000] by (simp add: stamp_ok_def) (simp add: sample_time_def)

theorem queue_keys_injective_witness:
  "votes_by_key_party_timestamp sample_env ''oracle_voting/'' ''.com'' ''04'' sample_time
   \<noteq> votes_by_key_party_timestamp sample_env ''oracle_voting/'' ''.com'' ''05'' sample_time"
  using queue_keys_injective [of sample_env "''.com''" "''04''" sample_time "''.com''" "''05''" sample_time "''oracle_voting/''"]
    sample_stamp
  by (simp add: part_ok_def ascii_def)

text \<open>The byte order of the timestamp indexes is the order of time: scanning an index meets the
  oldest entries first.\<close>

theorem index_order_is_time_order:
  assumes "stamp_ok t" "stamp_ok t'" "t < t'"
  shows "index_votes_by_timestamp_key_party p t k q < index_votes_by_timestamp_key_party p t' k' q' \<and>
    index_pending_by_timestamp_key p t k < index_pending_by_timestamp_key p t' k'"
proof -
  have "timestamp_bytes t \<noteq> timestamp_bytes t'"
    using timestamp_bytes_le [of t' t] assms stamp_okD [OF assms(1)] stamp_okD [OF assms(2)] by auto
  then have "index_votes_by_timestamp_key_party p t k q \<noteq> index_votes_by_timestamp_key_party p t' k' q'"
    "index_pending_by_timestamp_key p t k \<noteq> index_pending_by_timestamp_key p t' k'"
    by (simp_all add: index_votes_by_timestamp_key_party_def index_pending_by_timestamp_key_def)
  then show ?thesis
    using vote_index_order [of p t' k' q' t k q] pending_index_order [of p t' k' t k] assms
    by (meson linorder_neqE not_le)
qed

theorem index_order_is_time_order_witness:
  "index_pending_by_timestamp_key ''oracle_voting/'' 0 ''.org'' <
   index_pending_by_timestamp_key ''oracle_voting/'' sample_time ''.com''"
  using index_order_is_time_order [of 0 sample_time] sample_stamp
  by (simp add: stamp_ok_def time_ok_def unix_timestamp_def trunc_secs_def sample_time_def)

end
