(* ===== verification/Props_Types.thy ===== *)
theory Props_Types
  imports Props_Data
begin

text \<open>
  What the conversions from protobuf guarantee of the values they give: numbers in range, whole
  seconds, valid names and hashes of the right length. Such values survive every later way to protobuf
  and back unchanged.
\<close>

section \<open>Converted configurations\<close>

lemma u64_try_bound: "u64_try_from_i64 w = Some n \<Longrightarrow> n \<le> i64_max"
  by (auto simp: u64_try_from_i64_def sint_nonneg_iff i64_max_def word_le_nat_alt split: if_splits)

lemma whole_from_secs: "n \<le> i64_max \<Longrightarrow> whole_secs (from_secs n) = from_secs n"
  by (simp add: whole_secs_def from_secs_def as_secs_def nanos_per_sec_def i64_max_def word_le_nat_alt)

lemma min_bound: "(n :: u64) \<le> i64_max \<Longrightarrow> min n i64_max = n"
  by (simp add: min_def)

lemma voting_config_converted: "voting_config_try_from p = Inr c \<Longrightarrow> voting_config_norm c = c"
  by (auto simp: voting_config_try_from_def voting_config_norm_def res_simps min_bound whole_from_secs u64_try_bound)

lemma oracle_converted: "oracle_try_from p = Inr c \<Longrightarrow> oracle_norm c = c"
  by (auto simp: oracle_try_from_def oracle_norm_def res_simps split: if_splits)

lemma oracles_converted: "ecollect (map oracle_try_from ps) = Inr cs \<Longrightarrow> map oracle_norm cs = cs"
  by (induction ps arbitrary: cs) (auto simp: res_simps oracle_converted)

lemma config_converted: "config_try_from p = Inr c \<Longrightarrow> config_norm c = c"
  by (auto simp: config_try_from_def config_norm_def admin_config_try_from_def admin_config_norm_def
      oracle_config_try_from_def oracle_config_norm_def res_simps voting_config_converted oracles_converted
      min_bound whole_from_secs u64_try_bound)

section \<open>Converted transactions\<close>

lemma hash_observed_converted: "hash_observed_try_from p = Inr h \<Longrightarrow> hash_observed_ok h"
  by (auto simp: hash_observed_try_from_def split: if_splits)

lemma ok_Some [res_simps]: "ok r = Some x \<longleftrightarrow> r = Inr x"
  by (cases r) simp_all

lemma observation_converted:
  assumes "env_ok E" "observation_try_from E p = Inr ob"
  shows "observation_ok E ob"
proof -
  from assms(2) obtain dn zn h pb b where ob: "ob = \<lparr>ob_domain = Domain dn, ob_zone = Zone zn, ob_blockstamp = b, ob_hash_observed = h\<rparr>"
    "fqdn_from_ascii_str E (pob_domain p) = Some dn" "fqdn_from_ascii_str E (pob_zone p) = Some zn"
    "\<exists>ph. hash_observed_try_from ph = Inr h" "blockstamp_try_from E pb = Inr b"
    by (simp add: observation_try_from_def res_simps) blast
  have "blockstamp.block_height b \<le> i64_max"
    using ob(5) by (auto simp: blockstamp_try_from_def res_simps env_height [OF assms(1)] split: if_splits)
  then show ?thesis
    using ob env_fqdn_from_ascii_str_valid [OF assms(1)] hash_observed_converted by (auto simp: observation_ok_def)
qed

lemma action_converted:
  assumes "env_ok E" "action_try_from E p = Inr a"
  shows "action_ok E a \<and> action_norm a = a"
proof (cases a)
  case (Reconfigure r)
  then obtain p' where "reconfigure_try_from E p' = Inr r"
    using assms(2) by (auto simp: action_try_from_def res_simps split: option.splits p_action_kind.splits)
  then show ?thesis
    using assms(1) Reconfigure
    by (auto simp: reconfigure_try_from_def reconfigure_ok_def reconfigure_norm_def res_simps config_converted env_timestamp_ok)
next
  case (Observe ob)
  then obtain p' where "observe_try_from E p' = Inr ob"
    using assms(2) by (auto simp: action_try_from_def res_simps split: option.splits p_action_kind.splits)
  then show ?thesis
    using assms(1) Observe by (auto simp: observe_try_from_def res_simps observation_converted)
qed

lemma transaction_converted:
  assumes "env_ok E" "transaction_try_from E p = Inr tx"
  shows "transaction_ok E tx" "transaction_norm tx = tx"
proof -
  have "map (action_try_from E) (ptx_actions p) = map Inr (tx_actions tx)"
    using assms(2) by (auto simp: transaction_try_from_def res_simps ecollect_Inr_iff)
  then have "\<exists>q. action_try_from E q = Inr a" if "a \<in> set (tx_actions tx)" for a
    using that by (metis (no_types, lifting) image_iff list.set_map)
  then have ok: "action_ok E a \<and> action_norm a = a" if "a \<in> set (tx_actions tx)" for a
    using action_converted [OF assms(1)] that by blast
  then show "transaction_ok E tx" by (simp add: transaction_ok_def)
  show "transaction_norm tx = tx" using ok by (simp add: transaction_norm_def map_idI)
qed

text \<open>C26: Every transaction a node accepts for delivery is well formed: its names are valid, its hashes have
  32 bytes, its heights and numbers fit \<open>i64\<close>, its times are in range. It survives the way to protobuf
  and back unchanged, and so does each configuration in it in the store.\<close>

theorem authenticated_transaction_is_well_formed:
  assumes "env_ok E" "authenticated_from_proto E buf = Inr tx"
  shows "transaction_ok E tx \<and> transaction_try_from E (transaction_to_proto E tx) = Inr tx \<and>
    (\<forall>r. Reconfigure r \<in> set (tx_actions tx) \<longrightarrow>
      config_decode E (config_encode E (re_config r)) = Inr (re_config r)) \<and>
    (\<forall>ob. Observe ob \<in> set (tx_actions tx) \<longrightarrow> (let o' = obs_observation ob; v =
        \<lparr>ovv_hash_observed = ob_hash_observed o', ovv_zone = ob_zone o'\<rparr> in
      ovv_decode E (ovv_encode E v) = Inr v \<and>
      domain_try_from E (domain_display (ob_domain o')) = Inr (ob_domain o')))"
proof -
  obtain p where p: "transaction_try_from E p = Inr tx"
    using assms(2) by (auto simp: authenticated_from_proto_def res_simps)
  note tx = transaction_converted [OF assms(1) p]
  have act: "action_ok E a" "action_norm a = a" if "a \<in> set (tx_actions tx)" for a
  proof -
    show "action_ok E a" using tx(1) that by (simp add: transaction_ok_def)
    have "map action_norm (tx_actions tx) = map id (tx_actions tx)"
      using arg_cong [OF tx(2), of tx_actions] by (simp add: transaction_norm_def)
    then show "action_norm a = a" using that unfolding map_eq_conv by simp
  qed
  have "transaction_try_from E (transaction_to_proto E tx) = Inr tx"
    using transaction_roundtrip [OF assms(1) tx(1)] by (simp add: tx(2))
  moreover have "config_decode E (config_encode E (re_config r)) = Inr (re_config r)"
    if "Reconfigure r \<in> set (tx_actions tx)" for r
  proof -
    have "config_norm (re_config r) = re_config r"
      using act(2) [OF that] by (cases r) (simp add: reconfigure_norm_def)
    then show ?thesis using config_codec [OF assms(1), of "re_config r"] by simp
  qed
  moreover have "let o' = obs_observation ob; v = \<lparr>ovv_hash_observed = ob_hash_observed o', ovv_zone = ob_zone o'\<rparr> in
      ovv_decode E (ovv_encode E v) = Inr v \<and> domain_try_from E (domain_display (ob_domain o')) = Inr (ob_domain o')"
    if "Observe ob \<in> set (tx_actions tx)" for ob
    using act(1) [OF that] assms(1) ovv_codec [OF assms(1)] domain_conv.conv
    by (simp add: Let_def observation_ok_def oracle_vote_value_ok_def)
  ultimately show ?thesis using tx(1) by blast
qed

theorem authenticated_transaction_is_well_formed_witness:
  "\<exists>buf. authenticated_from_proto sample_env buf = Inr sample_tx \<and> transaction_ok sample_env sample_tx"
proof -
  obtain buf where "transaction_sign_to_proto sample_env sample_signer sample_tx = Inr buf"
    using sample_tx_signed by blast
  from signed_authenticates [OF env_ok_sample sample_tx_ok(1) sample_signer_sound this]
  have auth: "authenticated_from_proto sample_env buf = Inr sample_tx" by (simp add: sample_tx_ok(2))
  from authenticated_transaction_is_well_formed [OF env_ok_sample this] auth show ?thesis by blast
qed

end
