(* ===== verification/Props_Queue.thy ===== *)
theory Props_Queue
  imports Sample_State
begin

text \<open>
  The properties of the vote queues: what casting, timing out and promoting do to the votes and the
  pending changes of a queue.
\<close>

section \<open>A vote cast in the sample state\<close>

lemma sample_tally: "\<forall>t. set (tally_order (sample_queue q) t) = set t"
  by (simp add: sample_queue_def sample_env_def)

lemma sample_queue_simps [simp]:
  "internal_state_prefix (sample_queue q) = ''oracle_voting/''" "quorum (q_config (sample_queue q)) = q"
  "timeout (q_config (sample_queue q)) = from_secs 300" "delay (q_config (sample_queue q)) = from_secs 60"
  by (simp_all add: sample_queue_def)

lemma sample_queue_views:
  "queue_ok sample_env (sample_queue q) sample_block"
  "votes_view sample_env (sample_queue q) sample_block = Map.empty"
  "pending_view sample_env (sample_queue q) sample_block = Map.empty"
  by (simp_all add: sample_queue_def sample_block_views)

section \<open>Casting\<close>

lemma support_recorded:
  assumes "finite {r. \<exists>u. recorded V key party t w (key, r, u) = Some w}"
  shows "0 < support (recorded V key party t w) key w"
proof -
  have "party \<in> {r. \<exists>u. recorded V key party t w (key, r, u) = Some w}"
    by (auto simp: recorded_def)
  then show ?thesis unfolding support_def using assms by (auto simp: card_gt_0_iff)
qed

lemma support_pos: "0 < support V key v \<Longrightarrow> \<exists>q t. V (key, q, t) = Some v"
  unfolding support_def by (auto simp: card_gt_0_iff)

text \<open>C9: A vote that leaves every value short of the quorum is recorded, replacing any earlier vote of
  the same party on the same key, and changes nothing else in the queue.\<close>

theorem cast_below_quorum:
  assumes "queue_ok E Q s" "\<forall>t. set (tally_order Q t) = set t"
    and "castable E Q (key_to_string Q (vote_key vt)) (vote_party vt) (vote_time vt) (vote_value vt) w"
  defines "key \<equiv> key_to_string Q (vote_key vt)"
  defines "V \<equiv> recorded (votes_view E Q s) key (vote_party vt) (vote_time vt) w"
  assumes "\<forall>v. support V key v < unat (quorum (q_config Q))"
  shows "\<exists>s'. cast E Q vt s = (s', Inr ()) \<and> queue_becomes E Q s s' V (pending_view E Q s)"
  by (rule cast_effect [OF assms(1-3), folded key_def, folded V_def])
    (use assms(6) in \<open>auto simp: not_less [symmetric]\<close>)

lemma support_single:
  assumes "\<And>r u v'. V (key, r, u) = Some v' \<Longrightarrow> r = party"
  shows "support V key v \<le> 1"
proof -
  have "{r. \<exists>u. V (key, r, u) = Some v} \<subseteq> {party}" using assms by blast
  then show ?thesis unfolding support_def using card_mono [of "{party}"] by fastforce
qed

lemma sample_support:
  "support (recorded (votes_view sample_env (sample_queue q) sample_block) key party t w) key v \<le> 1"
  by (rule support_single [where party = party])
    (auto simp: recorded_def sample_queue_views split: if_splits)

theorem cast_below_quorum_witness:
  "\<exists>s'. cast sample_env (sample_queue 2) sample_vote sample_block = (s', Inr ()) \<and>
     votes_view sample_env (sample_queue 2) s' (''.com.example.www'', ''0402'', sample_time) = Some sample_vote_value"
proof -
  let ?Q = "sample_queue 2"
  have "\<forall>v. support (recorded (votes_view sample_env ?Q sample_block) (key_to_string ?Q (vote_key sample_vote))
      (vote_party sample_vote) (vote_time sample_vote) sample_vote_value) (key_to_string ?Q (vote_key sample_vote)) v
      < unat (quorum (q_config ?Q))"
    using sample_support by (fastforce intro: le_less_trans)
  from cast_below_quorum [OF sample_queue_views(1) sample_tally sample_castable this]
  obtain s' where s': "cast sample_env ?Q sample_vote sample_block = (s', Inr ())"
    "queue_becomes sample_env ?Q sample_block s'
       (recorded (votes_view sample_env ?Q sample_block) (key_to_string ?Q (vote_key sample_vote))
         (vote_party sample_vote) (vote_time sample_vote) sample_vote_value) (pending_view sample_env ?Q sample_block)"
    by blast
  have "key_to_string ?Q (vote_key sample_vote) = ''.com.example.www''"
    by (simp add: sample_queue_def sample_vote_def pod_display_def sample_subdomain_def pod_of_domain_def fqdn_labels_def)
  moreover have "trunc_secs sample_time = sample_time"
    using trunc_secs_of_secs [of 1000] by (simp add: sample_time_def)
  ultimately show ?thesis
    using s' queue_becomesD(3) [OF s'(2)] by (simp add: recorded_def sample_vote_def)
qed

lemma cast_winner:
  assumes "queue_ok E Q s" "\<forall>t. set (tally_order Q t) = set t"
    and "castable E Q (key_to_string Q (vote_key vt)) (vote_party vt) (vote_time vt) (vote_value vt) w"
  defines "key \<equiv> key_to_string Q (vote_key vt)"
  defines "V \<equiv> recorded (votes_view E Q s) key (vote_party vt) (vote_time vt) w"
  assumes win: "unat (quorum (q_config Q)) \<le> support V key win" "0 < support V key win"
    and unique: "\<forall>v. unat (quorum (q_config Q)) \<le> support V key v \<longrightarrow> v = win"
  obtains s' vs where "cast E Q vt s = enqueue E Q key (vote_time vt) vs win s'"
    "queue_becomes E Q s s' V (pending_view E Q s)" "votes_on E Q key s' = Inr vs" "exact Q win"
proof (rule cast_effect [OF assms(1-3), folded key_def, folded V_def], goal_cases)
  case (1 s')
  with win support_pos [OF win(2)] show ?case by (meson not_le)
next
  case (2 s' vs win')
  then have "win' = win" using unique by blast
  with 2 that show ?case by blast
qed

text \<open>C10: When a vote brings a value to the quorum that is already pending for the key, the votes on the
  key are removed and the pending change stays as it was: its timer is not reset.\<close>

theorem cast_quorum_same_value:
  assumes "queue_ok E Q s" "\<forall>t. set (tally_order Q t) = set t"
    and "castable E Q (key_to_string Q (vote_key vt)) (vote_party vt) (vote_time vt) (vote_value vt) w"
  defines "key \<equiv> key_to_string Q (vote_key vt)"
  defines "V \<equiv> recorded (votes_view E Q s) key (vote_party vt) (vote_time vt) w"
  assumes "unat (quorum (q_config Q)) \<le> support V key win" "0 < support V key win"
    and "\<forall>v. unat (quorum (q_config Q)) \<le> support V key v \<longrightarrow> v = win"
    and "pending_view E Q s (key, t) = Some win"
  shows "\<exists>s'. cast E Q vt s = (s', Inr ()) \<and>
    queue_becomes E Q s s' (votes_dropped (votes_view E Q s) key) (pending_view E Q s)"
proof -
  obtain s1 vs where c: "cast E Q vt s = enqueue E Q key (vote_time vt) vs win s1"
    "queue_becomes E Q s s1 V (pending_view E Q s)" "votes_on E Q key s1 = Inr vs" "exact Q win"
    using cast_winner [OF assms(1-3), folded key_def, folded V_def] assms(6-8) by blast
  note b = queue_becomesD [OF c(2)]
  have key: "part_ok key" using assms(3) by (simp add: castable_def key_good_def key_def)
  have "pending_view E Q s1 (key, t) = Some win" using assms(9) by (simp add: b(4))
  then obtain s' where "enqueue E Q key (vote_time vt) vs win s1 = (s', Inr ())"
    "queue_becomes E Q s1 s' (votes_dropped (votes_view E Q s1) key) (pending_view E Q s1)"
    by (rule enqueue_same [OF b(1) key c(3)])
  moreover have "votes_dropped V key = votes_dropped (votes_view E Q s) key"
    by (auto simp: votes_dropped_def V_def recorded_def)
  ultimately show ?thesis using c(1) queue_becomes_trans [OF c(2)] by (auto simp: b(3,4))
qed

text \<open>A pending change in the sample state.\<close>

abbreviation sample_key :: string where "sample_key \<equiv> ''.com.example.www''"

lemma sample_key: "key_to_string (sample_queue q) (vote_key sample_vote) = sample_key"
  by (simp add: sample_queue_def sample_vote_def pod_display_def sample_subdomain_def pod_of_domain_def
      fqdn_labels_def)

lemma sample_key_good: "key_good (sample_queue q) sample_key"
  using sample_castable [of q] by (simp add: castable_def sample_key)

lemma sample_trunc [simp]: "trunc_secs sample_time = sample_time"
  using trunc_secs_of_secs [of 1000] by (simp add: sample_time_def)

definition sample_pending :: contents where
  "sample_pending = put_pending sample_env (sample_queue 1) sample_key sample_time sample_vote_value sample_block"

lemma sample_exact: "exact (sample_queue q) sample_vote_value"
  using sample_reconfigure_ok by (simp add: exact_def sample_queue_def ovv_codec)

lemma sample_pending:
  "queue_becomes sample_env (sample_queue 1) sample_block sample_pending Map.empty
     [(sample_key, sample_time) \<mapsto> sample_vote_value]"
proof -
  have "queue_becomes sample_env (sample_queue 1) sample_block sample_pending
      (votes_view sample_env (sample_queue 1) sample_block)
      (pending_replaced (pending_view sample_env (sample_queue 1) sample_block) sample_key sample_time sample_vote_value)"
    unfolding sample_pending_def
    by (rule add_pending_effect [OF sample_queue_views(1) sample_key_good sample_time_ok(1,2) sample_exact])
      (simp add: sample_queue_views)
  moreover have "pending_replaced Map.empty sample_key sample_time sample_vote_value
      = [(sample_key, sample_time) \<mapsto> sample_vote_value]"
    by (auto simp: pending_replaced_def fun_eq_iff)
  ultimately show ?thesis by (simp add: sample_queue_views)
qed

lemmas sample_pending_views = queue_becomesD [OF sample_pending]

lemma sample_winner:
  assumes "votes_view sample_env (sample_queue 1) s = Map.empty"
  shows "unat (quorum (q_config (sample_queue 1))) \<le> support (recorded (votes_view sample_env (sample_queue 1) s)
      sample_key ''0402'' sample_time v) sample_key v"
    and "0 < support (recorded (votes_view sample_env (sample_queue 1) s) sample_key ''0402'' sample_time v) sample_key v"
    and "\<forall>v'. unat (quorum (q_config (sample_queue 1))) \<le> support (recorded (votes_view sample_env (sample_queue 1) s)
      sample_key ''0402'' sample_time v) sample_key v' \<longrightarrow> v' = v"
proof -
  have "{q. \<exists>t. recorded Map.empty sample_key ''0402'' sample_time v (sample_key, q, t) = Some v'}
      = (if v' = v then {''0402''} else {})" for v' :: oracle_vote_value
    by (auto simp: recorded_def split: if_splits)
  then have "support (recorded Map.empty sample_key ''0402'' sample_time v) sample_key v' = (if v' = v then 1 else 0)"
    for v' :: oracle_vote_value by (simp add: support_def)
  then show "unat (quorum (q_config (sample_queue 1))) \<le> support (recorded (votes_view sample_env (sample_queue 1) s)
      sample_key ''0402'' sample_time v) sample_key v"
    "0 < support (recorded (votes_view sample_env (sample_queue 1) s) sample_key ''0402'' sample_time v) sample_key v"
    "\<forall>v'. unat (quorum (q_config (sample_queue 1))) \<le> support (recorded (votes_view sample_env (sample_queue 1) s)
      sample_key ''0402'' sample_time v) sample_key v' \<longrightarrow> v' = v"
    by (simp_all add: assms)
qed

lemma sample_vote_simps [simp]:
  "vote_party sample_vote = ''0402''" "vote_time sample_vote = sample_time" "vote_value sample_vote = sample_vote_value"
  by (simp_all add: sample_vote_def)

theorem cast_quorum_same_value_witness:
  "\<exists>s'. cast sample_env (sample_queue 1) sample_vote sample_pending = (s', Inr ()) \<and>
     pending_view sample_env (sample_queue 1) s' = [(sample_key, sample_time) \<mapsto> sample_vote_value]"
proof -
  note sw = sample_winner [OF sample_pending_views(3), of sample_vote_value]
  have "\<exists>s'. cast sample_env (sample_queue 1) sample_vote sample_pending = (s', Inr ()) \<and>
      queue_becomes sample_env (sample_queue 1) sample_pending s'
        (votes_dropped (votes_view sample_env (sample_queue 1) sample_pending)
          (key_to_string (sample_queue 1) (vote_key sample_vote)))
        (pending_view sample_env (sample_queue 1) sample_pending)"
    by (rule cast_quorum_same_value [OF sample_pending_views(1) sample_tally sample_castable,
          where win = sample_vote_value and t = sample_time])
      (use sw in \<open>simp_all add: sample_key sample_pending_views(4)\<close>)
  then show ?thesis using queue_becomesD(4) by (fastforce simp: sample_pending_views(4))
qed

text \<open>C11: A configuration that reaches the quorum of the admins replaces whatever was pending, with the
  time of the deciding vote as its new timer, and the votes are removed.\<close>

theorem admin_quorum_replaces_pending:
  fixes c :: voting_config and E :: env
  defines "Q \<equiv> admin_queue E c"
  assumes "queue_ok E Q s" "env_ok E" "time_ok (vote_time vt)" "0 \<le> vote_time vt" "part_ok (vote_party vt)"
  defines "w \<equiv> config_norm (vote_value vt)"
  defines "V \<equiv> recorded (votes_view E Q s) [] (vote_party vt) (vote_time vt) w"
  assumes "unat (quorum c) \<le> support V [] win" "0 < support V [] win"
    and "\<forall>v. unat (quorum c) \<le> support V [] v \<longrightarrow> v = win" "\<forall>t. pending_view E Q s ([], t) \<noteq> Some win"
  shows "\<exists>s'. cast E Q vt s = (s', Inr ()) \<and>
    queue_becomes E Q s s' (votes_dropped (votes_view E Q s) [])
      (pending_replaced (pending_view E Q s) [] (vote_time vt) win)"
proof -
  have tally: "\<forall>t. set (tally_order Q t) = set t"
    unfolding Q_def by (rule tally_order_queues(2) [OF assms(3)])
  have cst: "castable E Q (key_to_string Q (vote_key vt)) (vote_party vt) (vote_time vt) (vote_value vt) w"
    unfolding Q_def w_def using assms(3-6) key_good_admin
    by (simp add: castable_def codec_ok_queues config_codec)
  have k: "key_to_string Q (vote_key vt) = []" "q_config Q = c" by (simp_all add: Q_def)
  obtain s1 vs where c: "cast E Q vt s = enqueue E Q [] (vote_time vt) vs win s1"
    "queue_becomes E Q s s1 V (pending_view E Q s)" "votes_on E Q [] s1 = Inr vs" "exact Q win"
    using cast_winner [OF assms(2) tally cst, unfolded k, folded V_def] assms(9-11) by blast
  note b = queue_becomesD [OF c(2)]
  have none: "\<forall>t. pending_view E Q s1 ([], t) \<noteq> Some win" using assms(12) by (simp add: b(4))
  have good: "key_good Q []" unfolding Q_def by (rule key_good_admin)
  obtain s2 where s2: "queue_becomes E Q s1 s2 (votes_dropped (votes_view E Q s1) [])
      (pending_dropped (pending_view E Q s1) [])"
    "enqueue E Q [] (vote_time vt) vs win s1 =
      (case limit_allows E Q [] win s2 of
         Inl e \<Rightarrow> (s2, Inl e)
       | Inr go \<Rightarrow> (if go then put_pending E Q [] (vote_time vt) win s2 else s2, Inr ()))"
    "queue_becomes E Q s1 (put_pending E Q [] (vote_time vt) win s2)
      (votes_dropped (votes_view E Q s1) []) (pending_replaced (pending_view E Q s1) [] (vote_time vt) win)"
    by (rule enqueue_other [OF b(1) good assms(4,5) c(4,3) none])
  have "limit_allows E Q [] win s2 = Inr True" by (simp add: limit_allows_def Q_def)
  moreover have "votes_dropped V [] = votes_dropped (votes_view E Q s) []"
    by (auto simp: votes_dropped_def V_def recorded_def)
  ultimately show ?thesis using c(1) s2(2) queue_becomes_trans [OF c(2) s2(3)] by (auto simp: b(3,4))
qed

definition sample_admin_vote :: "(unit, config) vote" where
  "sample_admin_vote =
    \<lparr>vote_party = ''0401'', vote_time = sample_time, vote_key = (), vote_value = sample_config\<rparr>"

lemma support_recorded_empty:
  "support (recorded Map.empty key party t v) key v' = (if v' = v then 1 else 0)"
proof -
  have "{q. \<exists>u. recorded Map.empty key party t v (key, q, u) = Some v'} = (if v' = v then {party} else {})"
    by (auto simp: recorded_def split: if_splits)
  then show ?thesis by (simp add: support_def)
qed

theorem admin_quorum_replaces_pending_witness:
  "\<exists>s'. cast sample_env (admin_queue sample_env (a_voting (admins sample_config))) sample_admin_vote sample_block
       = (s', Inr ()) \<and>
     pending_view sample_env (admin_queue sample_env (a_voting (admins sample_config))) s' ([], sample_time)
       = Some sample_config"
proof -
  let ?c = "a_voting (admins sample_config)"
  let ?Q = "admin_queue sample_env ?c"
  have c: "unat (quorum ?c) = 1" by (simp add: sample_config_def)
  have V: "support (recorded (votes_view sample_env ?Q sample_block) [] (vote_party sample_admin_vote)
      (vote_time sample_admin_vote) (config_norm (vote_value sample_admin_vote))) [] v
      = (if v = sample_config then 1 else 0)" for v
    unfolding sample_block_views(5) support_recorded_empty by (simp add: sample_admin_vote_def)
  have "\<exists>s'. cast sample_env ?Q sample_admin_vote sample_block = (s', Inr ()) \<and>
    queue_becomes sample_env ?Q sample_block s' (votes_dropped (votes_view sample_env ?Q sample_block) [])
      (pending_replaced (pending_view sample_env ?Q sample_block) [] (vote_time sample_admin_vote) sample_config)"
    by (rule admin_quorum_replaces_pending [OF sample_block_views(2) env_ok_sample])
      (simp_all only: V c sample_block_views(6), simp_all add: sample_admin_vote_def part_ok_def ascii_def)
  then show ?thesis using queue_becomesD(4) by (fastforce simp: pending_replaced_def sample_admin_vote_def)
qed

definition enrolled_without :: "env \<Rightarrow> contents \<Rightarrow> prefix_order_domain \<Rightarrow> prefix_order_domain \<Rightarrow> prefix_order_domain set" where
  "enrolled_without E s p r = {x \<in> enrolled E s r. x = p \<longrightarrow> canonical_view E s (domain_of_pod p) \<noteq> None}"

lemma enrolled_after_drop:
  assumes "state_ok E s" "fqdn_valid E (pod_name p)" "vget Canonical s2 = vget Canonical s"
    and "pending_view E (oracle_queue E c) s2 = pending_dropped (pending_view E (oracle_queue E c) s) (pod_display p)"
  shows "enrolled E s2 r = enrolled_without E s p r"
proof -
  note env = state_okD(6) [OF assms(1)]
  have canon: "canonical_view E s2 d = canonical_view E s d" for d by (simp add: canonical_view_def assms(3))
  have pend: "pending_name E s2 x \<longleftrightarrow> pending_name E s x \<and> x \<noteq> p" if "fqdn_valid E (pod_name x)" for x
    unfolding pending_name_eq [of E _ x c] assms(4) pending_dropped_def
    using pod_display_inj [OF env that assms(2)] by auto
  show ?thesis by (auto simp: enrolled_def enrolled_without_def canon pend)
qed

lemma oracle_quorum_enqueues:
  assumes "state_ok E s" "canonical_ok E s" "config E s = Inr c"
  defines "Q \<equiv> oracle_queue E (o_voting (oracles c))"
  assumes "castable E Q (pod_display p) (vote_party vt) (vote_time vt) (vote_value vt) w" "vote_key vt = p"
    "fqdn_valid E (pod_name p)"
  defines "V \<equiv> recorded (votes_view E Q s) (pod_display p) (vote_party vt) (vote_time vt) w"
  assumes "unat (quorum (o_voting (oracles c))) \<le> support V (pod_display p) win" "0 < support V (pod_display p) win"
    "\<forall>v. unat (quorum (o_voting (oracles c))) \<le> support V (pod_display p) v \<longrightarrow> v = win"
    "\<forall>t. pending_view E Q s (pod_display p, t) \<noteq> Some win"
    "fqdn_is_subdomain_of (pod_name p) (zone_name (ovv_zone win))" "pod_name p \<noteq> zone_name (ovv_zone win)"
  shows "\<exists>s' r. registered_domain (pod_name p) (zone_name (ovv_zone win)) = Inr r \<and>
    cast E Q vt s = (s', Inr ()) \<and>
    queue_becomes E Q s s' (votes_dropped (votes_view E Q s) (pod_display p))
      (if p \<in> enrolled_without E s p r \<or>
          card (enrolled_without E s p r) < unat (max_enrolled_subdomains (oracles c))
       then pending_replaced (pending_view E Q s) (pod_display p) (vote_time vt) win
       else pending_dropped (pending_view E Q s) (pod_display p))"
proof -
  note env = state_okD(6) [OF assms(1)]
  let ?k = "pod_display p"
  have q: "queue_ok E Q s" unfolding Q_def by (rule state_okD(1) [OF assms(1)])
  have tally: "\<forall>t. set (tally_order Q t) = set t" unfolding Q_def by (rule tally_order_queues(1) [OF env])
  have k: "key_to_string Q (vote_key vt) = ?k" "q_config Q = o_voting (oracles c)" by (simp_all add: Q_def assms(6))
  obtain s1 vs where c: "cast E Q vt s = enqueue E Q ?k (vote_time vt) vs win s1"
    "queue_becomes E Q s s1 V (pending_view E Q s)" "votes_on E Q ?k s1 = Inr vs" "exact Q win"
    using cast_winner [OF q tally, of vt w, unfolded k, folded V_def] assms(5,9-11) by blast
  note b = queue_becomesD [OF c(2)]
  have none: "\<forall>t. pending_view E Q s1 (?k, t) \<noteq> Some win" using assms(12) by (simp add: b(4))
  have good: "key_good Q ?k" "time_ok (vote_time vt)" "0 \<le> vote_time vt"
    using assms(5) by (simp_all add: castable_def)
  obtain s2 where s2: "queue_becomes E Q s1 s2 (votes_dropped (votes_view E Q s1) ?k)
      (pending_dropped (pending_view E Q s1) ?k)"
    "enqueue E Q ?k (vote_time vt) vs win s1 =
      (case limit_allows E Q ?k win s2 of
         Inl e \<Rightarrow> (s2, Inl e)
       | Inr go \<Rightarrow> (if go then put_pending E Q ?k (vote_time vt) win s2 else s2, Inr ()))"
    "queue_becomes E Q s1 (put_pending E Q ?k (vote_time vt) win s2)
      (votes_dropped (votes_view E Q s1) ?k) (pending_replaced (pending_view E Q s1) ?k (vote_time vt) win)"
    by (rule enqueue_other [OF b(1) good c(4,3) none])
  note d = queue_becomes_trans [OF c(2) s2(1)]
  note d' = queue_becomesD [OF d]
  have out: "same_outside ''oracle_voting/'' s s2" using d'(2) by (simp add: Q_def)
  have ok2: "state_ok E s2"
    by (rule state_ok_queue_write [OF assms(1), where c = "o_voting (oracles c)", OF disjI1])
      (use d'(1) out in \<open>simp add: Q_def\<close>)
  have canon: "vget Canonical s2 = vget Canonical s" using out by (simp add: same_outside_def fun_eq_iff)
  have cok: "canonical_ok E s2" using assms(2) canonical_ok_cong [OF canon] by simp
  have cfg: "config E s2 = Inr c" using reads_outside(6) [OF out] assms(3) by simp
  obtain l where r: "registered_domain (pod_name p) (zone_name (ovv_zone win)) = Inr (PrefixOrderDomain (l # zone_name (ovv_zone win)))"
    "fqdn_is_subdomain_of (pod_name p) (l # zone_name (ovv_zone win))"
    using registered_below_zone [OF assms(13,14)] by blast
  let ?r = "PrefixOrderDomain (l # zone_name (ovv_zone win))"
  have rok: "fqdn_valid E (pod_name ?r)" "pod_name ?r \<noteq> fqdn_root"
  proof -
    from r(2) obtain zs where "pod_name p = zs @ l # zone_name (ovv_zone win)"
      by (auto simp: fqdn_is_subdomain_of_def suffix_def)
    then show "fqdn_valid E (pod_name ?r)" using env_fqdn_drop [OF env assms(7), of "length zs"] by simp
  qed (simp add: fqdn_root_def)
  have pend: "pending_view E Q s2 = pending_dropped (pending_view E Q s) ?k" using d'(4) by (simp add: b(4))
  have enr: "enrolled E s2 ?r = enrolled_without E s p ?r"
    by (rule enrolled_after_drop [OF assms(1,7) canon pend [unfolded Q_def]])
  have dec: "ovv_decode E (v_encode Q win) = Inr win" using c(4) by (simp add: exact_def Q_def)
  have pod: "pod_from_str E ?k = Some p" by (rule pod_from_display [OF env assms(7)])
  let ?room = "p \<in> enrolled_without E s p ?r \<or> card (enrolled_without E s p ?r) < unat (max_enrolled_subdomains (oracles c))"
  have "limit_allows E Q ?k win s2 = Inr ?room"
    using limit_check_eq [OF ok2 cok cfg rok, of p]
    by (simp add: limit_allows_def Q_def [symmetric] pod dec r(1) enr) (simp add: Q_def)
  moreover have "votes_dropped V ?k = votes_dropped (votes_view E Q s) ?k"
    by (auto simp: votes_dropped_def V_def recorded_def)
  ultimately have "cast E Q vt s = (if ?room then put_pending E Q ?k (vote_time vt) win s2 else s2, Inr ())"
    "queue_becomes E Q s (if ?room then put_pending E Q ?k (vote_time vt) win s2 else s2)
      (votes_dropped (votes_view E Q s) ?k)
      (if ?room then pending_replaced (pending_view E Q s) ?k (vote_time vt) win
       else pending_dropped (pending_view E Q s) ?k)"
    using c(1) s2(2) queue_becomes_trans [OF c(2) s2(3)] d by (simp_all add: b(3,4))
  then show ?thesis using r(1) by blast
qed

text \<open>C12: An observed hash that reaches the quorum of the oracles replaces whatever was pending for the
  name if the name is still enrolled without that pending change or the registered domain of the name
  has room; otherwise nothing stays pending for the name. The votes are removed either way.\<close>

theorem oracle_quorum_replaces_pending:
  assumes "state_ok E s" "canonical_ok E s" "config E s = Inr c"
  defines "Q \<equiv> oracle_queue E (o_voting (oracles c))"
  assumes "castable E Q (pod_display p) (vote_party vt) (vote_time vt) (vote_value vt) w" "vote_key vt = p"
    "fqdn_valid E (pod_name p)"
  defines "V \<equiv> recorded (votes_view E Q s) (pod_display p) (vote_party vt) (vote_time vt) w"
  assumes "unat (quorum (o_voting (oracles c))) \<le> support V (pod_display p) win" "0 < support V (pod_display p) win"
    "\<forall>v. unat (quorum (o_voting (oracles c))) \<le> support V (pod_display p) v \<longrightarrow> v = win"
    "\<forall>t. pending_view E Q s (pod_display p, t) \<noteq> Some win"
    "fqdn_is_subdomain_of (pod_name p) (zone_name (ovv_zone win))" "pod_name p \<noteq> zone_name (ovv_zone win)"
  shows "\<exists>s' r. registered_domain (pod_name p) (zone_name (ovv_zone win)) = Inr r \<and>
    cast E Q vt s = (s', Inr ()) \<and>
    queue_becomes E Q s s' (votes_dropped (votes_view E Q s) (pod_display p))
      (if p \<in> enrolled_without E s p r \<or>
          card (enrolled_without E s p r) < unat (max_enrolled_subdomains (oracles c))
       then pending_replaced (pending_view E Q s) (pod_display p) (vote_time vt) win
       else pending_dropped (pending_view E Q s) (pod_display p))"
  using oracle_quorum_enqueues [OF assms(1-3,5-7,9-14) [unfolded Q_def V_def]] unfolding Q_def .

definition sample_one_oracle :: config where
  "sample_one_oracle = sample_config\<lparr>oracles := (oracles sample_config)\<lparr>
     o_voting := \<lparr>total = 2, quorum = 1, timeout = from_secs 300, delay = from_secs 60\<rparr>\<rparr>\<rparr>"

definition sample_quick :: contents where
  "sample_quick = fst (set_config sample_env sample_one_oracle sample_block)"

lemma sample_one_oracle_norm: "config_norm sample_one_oracle = sample_one_oracle"
  using sample_config_norm
  by (simp add: sample_one_oracle_def config_norm_def admin_config_norm_def oracle_config_norm_def
      voting_config_norm_def oracle_norm_def whole_secs_def from_secs_def as_secs_def nanos_per_sec_def
      sample_config_def i64_max_def min_def)

lemma sample_quick:
  "state_ok sample_env sample_quick" "config sample_env sample_quick = Inr sample_one_oracle"
  "canonical_ok sample_env sample_quick"
  "votes_view sample_env (oracle_queue sample_env c) sample_quick = Map.empty"
  "pending_view sample_env (oracle_queue sample_env c) sample_quick = Map.empty"
  "vget Canonical sample_quick = Map.empty"
proof -
  show ok: "state_ok sample_env sample_quick" and "config sample_env sample_quick = Inr sample_one_oracle"
    using set_config_effect [OF sample_block_ok(1), of sample_one_oracle]
    by (simp_all add: sample_quick_def sample_one_oracle_norm)
  have put: "sample_quick = put (config_encode sample_env) Internal ''parameters/config'' sample_one_oracle sample_block"
    by (simp add: sample_quick_def set_config_def)
  show canon: "vget Canonical sample_quick = Map.empty"
    by (simp add: put fun_eq_iff store_simps sample_block_canonical)
  show "canonical_ok sample_env sample_quick" by (simp add: canonical_ok_def canon)
  have same: "same_queue (qp (oracle_queue sample_env c)) sample_block sample_quick"
    by (auto simp: put same_queue_def queue_key_def store_simps)
  show "votes_view sample_env (oracle_queue sample_env c) sample_quick = Map.empty"
    "pending_view sample_env (oracle_queue sample_env c) sample_quick = Map.empty"
    using queue_ok_cong(2,3) [OF same state_okD(7) [OF ok] sample_block_views(1)]
    by (simp_all add: sample_block_views)
qed

theorem oracle_quorum_replaces_pending_witness:
  "\<exists>s'. cast sample_env (sample_queue 1) sample_vote sample_quick = (s', Inr ()) \<and>
     pending_view sample_env (sample_queue 1) s' (sample_key, sample_time) = Some sample_vote_value"
proof -
  let ?p = "pod_of_domain sample_subdomain"
  have Q: "oracle_queue sample_env (o_voting (oracles sample_one_oracle)) = sample_queue 1"
    by (simp add: sample_queue_def sample_one_oracle_def)
  have k: "pod_display ?p = sample_key" using sample_key by (simp add: sample_queue_def sample_vote_def)
  have cst: "castable sample_env (sample_queue 1) (pod_display ?p) (vote_party sample_vote) (vote_time sample_vote)
      (vote_value sample_vote) sample_vote_value" using sample_castable [of 1] by (simp add: sample_key k)
  have V: "votes_view sample_env (sample_queue 1) sample_quick = Map.empty"
    "pending_view sample_env (sample_queue 1) sample_quick = Map.empty"
    by (simp_all add: sample_queue_def sample_quick)
  have q: "unat (quorum (o_voting (oracles sample_one_oracle))) = 1" by (simp add: sample_one_oracle_def)
  have sup: "support (recorded (votes_view sample_env (sample_queue 1) sample_quick) (pod_display ?p)
      (vote_party sample_vote) (vote_time sample_vote) sample_vote_value) (pod_display ?p) v
      = (if v = sample_vote_value then 1 else 0)" for v
    unfolding V(1) by (rule support_recorded_empty)
  have "\<exists>s' r. registered_domain (pod_name ?p) (zone_name (ovv_zone sample_vote_value)) = Inr r \<and>
    cast sample_env (sample_queue 1) sample_vote sample_quick = (s', Inr ()) \<and>
    queue_becomes sample_env (sample_queue 1) sample_quick s'
      (votes_dropped (votes_view sample_env (sample_queue 1) sample_quick) (pod_display ?p))
      (if ?p \<in> enrolled_without sample_env sample_quick ?p r \<or>
          card (enrolled_without sample_env sample_quick ?p r) < unat (max_enrolled_subdomains (oracles sample_one_oracle))
       then pending_replaced (pending_view sample_env (sample_queue 1) sample_quick) (pod_display ?p)
         (vote_time sample_vote) sample_vote_value
       else pending_dropped (pending_view sample_env (sample_queue 1) sample_quick) (pod_display ?p))"
    by (rule oracle_quorum_replaces_pending [OF sample_quick(1,3,2), unfolded Q, OF cst])
      (simp_all only: sup q V(2), simp_all add: sample_vote_def sample_subdomain_def pod_of_domain_def
        sample_vote_value_def sample_zone_def fqdn_is_subdomain_of_def suffix_def)
  then obtain s' r where s': "cast sample_env (sample_queue 1) sample_vote sample_quick = (s', Inr ())"
    "queue_becomes sample_env (sample_queue 1) sample_quick s' (votes_dropped Map.empty (pod_display ?p))
      (if ?p \<in> enrolled_without sample_env sample_quick ?p r \<or>
          card (enrolled_without sample_env sample_quick ?p r) < unat (max_enrolled_subdomains (oracles sample_one_oracle))
       then pending_replaced Map.empty (pod_display ?p) (vote_time sample_vote) sample_vote_value
       else pending_dropped Map.empty (pod_display ?p))"
    unfolding V by blast
  have "enrolled_without sample_env sample_quick ?p r = {}"
    by (auto simp: enrolled_without_def enrolled_def canonical_view_def sample_quick(6) pending_name_def sample_quick(5))
  then have "queue_becomes sample_env (sample_queue 1) sample_quick s' (votes_dropped Map.empty sample_key)
      (pending_replaced Map.empty sample_key sample_time sample_vote_value)"
    using s'(2) by (simp add: sample_one_oracle_def sample_config_def k)
  then show ?thesis using s'(1) queue_becomesD(4) by (fastforce simp: pending_replaced_def)
qed

section \<open>Timing out and promoting\<close>

text \<open>C13: Timing out removes exactly the votes that are at least as old as the configured timeout, never
  fails, and leaves the pending changes alone.\<close>

theorem timeout_removes_expired:
  assumes "queue_ok E Q s" "block_time E s = Inr now"
  shows "\<exists>s'. timeout_expired_votes E Q s = (s', Inr ()) \<and>
    queue_becomes E Q s s'
      (\<lambda>(k, q, t). if timeout (q_config Q) \<le> elapsed now t then None else votes_view E Q s (k, q, t))
      (pending_view E Q s)"
  by (rule timeout_expired_votes_effect [OF assms, unfolded expired_def]) blast

text \<open>C14: Promoting returns exactly the pending changes that have waited for the configured delay, each
  once, the oldest first and each under the name its key stands for; it takes them out of the queue and
  leaves the votes alone.\<close>

theorem promote_returns_ripe:
  assumes "queue_ok E Q s" "block_time E s = Inr now"
  shows "\<exists>s' ripe. promote_pending_changes E Q s
      = (s', Inr (map (\<lambda>(k, t). (projr (key_try_from Q k), the (pending_view E Q s (k, t)))) ripe)) \<and>
    queue_becomes E Q s s' (votes_view E Q s)
      (\<lambda>(k, t). if delay (q_config Q) \<le> elapsed now t then None else pending_view E Q s (k, t)) \<and>
    distinct ripe \<and>
    set ripe = {(k, t). pending_view E Q s (k, t) \<noteq> None \<and> delay (q_config Q) \<le> elapsed now t} \<and>
    sorted_wrt (\<lambda>(k, t) (k', t'). t \<le> t') ripe"
  by (rule promote_pending_changes_effect [OF assms, unfolded expired_def]) blast

definition sample_voted :: contents where
  "sample_voted = fst (cast sample_env (sample_queue 2) sample_vote sample_block)"

lemma sample_voted:
  "queue_becomes sample_env (sample_queue 2) sample_block sample_voted
     (recorded Map.empty sample_key ''0402'' sample_time sample_vote_value) Map.empty"
proof (rule cast_effect [OF sample_queue_views(1) [of 2] sample_tally [of 2] sample_castable [of 2]], goal_cases)
  case (1 s')
  then show ?case by (simp add: sample_voted_def sample_key sample_queue_views)
next
  case (2 s' vs win)
  then show ?case
    using sample_support [of 2 "key_to_string (sample_queue 2) (vote_key sample_vote)" "vote_party sample_vote"
        "vote_time sample_vote" sample_vote_value win] by simp
qed

lemma sample_times:
  "block_time sample_env sample_voted = Inr (sample_time + 60000000000)"
  "block_time sample_env sample_pending = Inr (sample_time + 60000000000)"
  using reads_outside(2) queue_becomesD(2) [OF sample_voted] queue_becomesD(2) [OF sample_pending]
  by (simp_all add: sample_block_reads)

theorem timeout_removes_expired_witness:
  "\<exists>s'. timeout_expired_votes sample_env (sample_queue 2) sample_voted = (s', Inr ()) \<and>
     votes_view sample_env (sample_queue 2) s' (sample_key, ''0402'', sample_time) = Some sample_vote_value"
proof -
  note v = queue_becomesD [OF sample_voted]
  have young: "elapsed (sample_time + 60000000000) sample_time < from_secs 300"
    by (simp add: elapsed_eq from_secs_def nanos_per_sec_def)
  show ?thesis
    using timeout_removes_expired [OF v(1) sample_times(1)] young
    by (auto simp: queue_becomes_def v(3) recorded_def)
qed

lemma distinct_singleton: "set xs = {x} \<Longrightarrow> distinct xs \<Longrightarrow> xs = [x]"
proof (cases xs)
  case (Cons y ys)
  then show "set xs = {x} \<Longrightarrow> distinct xs \<Longrightarrow> xs = [x]" by (cases ys) auto
qed simp

theorem promote_returns_ripe_witness:
  "\<exists>s'. promote_pending_changes sample_env (sample_queue 1) sample_pending
     = (s', Inr [(pod_of_domain sample_subdomain, sample_vote_value)])"
proof -
  note v = queue_becomesD [OF sample_pending]
  have ripe: "from_secs 60 \<le> elapsed (sample_time + 60000000000) sample_time"
    by (simp add: elapsed_eq from_secs_def nanos_per_sec_def)
  obtain s' r where r: "promote_pending_changes sample_env (sample_queue 1) sample_pending
      = (s', Inr (map (\<lambda>(k, t). (projr (key_try_from (sample_queue 1) k),
          the (pending_view sample_env (sample_queue 1) sample_pending (k, t)))) r))"
    "distinct r" "set r = {(k, t). pending_view sample_env (sample_queue 1) sample_pending (k, t) \<noteq> None \<and>
        delay (q_config (sample_queue 1)) \<le> elapsed (sample_time + 60000000000) t}"
    using promote_returns_ripe [OF v(1) sample_times(2)] by blast
  have "set r = {(sample_key, sample_time)}" using ripe by (auto simp: r(3) v(4) split: if_splits)
  then have "r = [(sample_key, sample_time)]" using r(2) by (rule distinct_singleton)
  moreover have "key_try_from (sample_queue 1) sample_key = Inr (pod_of_domain sample_subdomain)"
    using pod_conv.conv [of sample_env "pod_of_domain sample_subdomain"] sample_key [of 1]
    by (simp add: sample_queue_def sample_vote_def sample_subdomain_def pod_of_domain_def)
  ultimately show ?thesis using r(1) by (simp add: v(4))
qed

section \<open>The invariant of a queue\<close>

text \<open>Casting keeps the invariant of the queue and touches no key outside it, whatever it returns:
  also on the error paths, whose earlier writes stay.\<close>

theorem cast_keeps_queue:
  assumes "queue_ok E Q s" "\<forall>t. set (tally_order Q t) = set t"
    and "castable E Q (key_to_string Q (vote_key vt)) (vote_party vt) (vote_time vt) (vote_value vt) w"
  shows "queue_ok E Q (fst (cast E Q vt s)) \<and> same_outside (qp Q) s (fst (cast E Q vt s))"
  by (rule cast_invariant [OF assms])

theorem cast_keeps_queue_witness:
  "queue_ok sample_env (sample_queue 1) (fst (cast sample_env (sample_queue 1) sample_vote sample_pending))"
  using cast_keeps_queue [OF sample_pending_views(1) sample_tally sample_castable] by blast

text \<open>In a well-formed queue a key has at most one pending change and a party at most one vote per
  key; reading the pending change of a key and the votes on it returns just those, without failing.\<close>

theorem queue_reads_are_exact:
  assumes "queue_ok E Q s" "part_ok (key_to_string Q k)"
  defines "key \<equiv> key_to_string Q k"
  shows "(\<forall>t t' v v'. pending_view E Q s (key, t) = Some v \<and> pending_view E Q s (key, t') = Some v' \<longrightarrow> t = t') \<and>
    (\<forall>q t t' v v'. votes_view E Q s (key, q, t) = Some v \<and> votes_view E Q s (key, q, t') = Some v' \<longrightarrow> t = t') \<and>
    (\<exists>p. pending_for_key Q k s = Inr p \<and> (\<forall>v. p = Some v \<longleftrightarrow> (\<exists>t. pending_view E Q s (key, t) = Some v))) \<and>
    (\<exists>vs. votes_for_key E Q k s = Inr vs \<and>
      (\<lambda>v. (vote_party v, vote_time v, vote_value v)) ` set vs
        = {(q, t, v). votes_view E Q s (key, q, t) = Some v})"
proof (intro conjI)
  have one: "t = t'" if "pending_view E Q s (key, t) = Some v" "pending_view E Q s (key, t') = Some v'" for t t' v v'
    using pending_okD(4) [OF queue_okD(5) [OF assms(1)], of key t t'] pending_view_Some [OF assms(1), of "(key, t)"]
      pending_view_Some [OF assms(1), of "(key, t')"] that by simp
  then show "\<forall>t t' v v'. pending_view E Q s (key, t) = Some v \<and> pending_view E Q s (key, t') = Some v' \<longrightarrow> t = t'"
    by blast
  show "\<forall>q t t' v v'. votes_view E Q s (key, q, t) = Some v \<and> votes_view E Q s (key, q, t') = Some v' \<longrightarrow> t = t'"
    using votes_view_unique [OF assms(1)] by blast
  show "\<exists>p. pending_for_key Q k s = Inr p \<and> (\<forall>v. p = Some v \<longleftrightarrow> (\<exists>t. pending_view E Q s (key, t) = Some v))"
  proof (cases "\<exists>t v. pending_view E Q s (key, t) = Some v")
    case True
    then obtain t v where t: "pending_view E Q s (key, t) = Some v" by blast
    with pending_for_key_eq(2) [OF assms(1,2)] one show ?thesis unfolding key_def
      by (metis option.inject)
  next
    case False
    then have "\<forall>t. pending_view E Q s (key, t) = None" by (metis not_Some_eq)
    with pending_for_key_eq(1) [OF assms(1,2)] False show ?thesis unfolding key_def by auto
  qed
  show "\<exists>vs. votes_for_key E Q k s = Inr vs \<and> (\<lambda>v. (vote_party v, vote_time v, vote_value v)) ` set vs
        = {(q, t, v). votes_view E Q s (key, q, t) = Some v}"
  proof -
    let ?vt = "\<lambda>(q, t). \<lparr>vote_party = q, vote_time = t, vote_key = projr (key_try_from Q key),
        vote_value = the (votes_view E Q s (key, q, t))\<rparr>"
    obtain qs where qs: "votes_for_key E Q k s = Inr (map ?vt qs)" "distinct qs"
      "set qs = {(q, t). votes_view E Q s (key, q, t) \<noteq> None}"
      by (rule votes_for_key_eq [OF assms(1,2), folded key_def])
    have "(\<lambda>v. (vote_party v, vote_time v, vote_value v)) ` set (map ?vt qs)
        = (\<lambda>(q, t). (q, t, the (votes_view E Q s (key, q, t)))) ` set qs"
      by (simp add: image_image split_def)
    also have "\<dots> = {(q, t, v). votes_view E Q s (key, q, t) = Some v}"
      unfolding qs(3) by (auto simp: image_iff)
    finally show ?thesis using qs(1) by blast
  qed
qed

theorem queue_reads_are_exact_witness:
  "pending_for_key (sample_queue 1) (pod_of_domain sample_subdomain) sample_pending = Inr (Some sample_vote_value)"
proof -
  have k: "key_to_string (sample_queue 1) (pod_of_domain sample_subdomain) = sample_key"
    using sample_key [of 1] by (simp add: sample_vote_def)
  then have "part_ok (key_to_string (sample_queue 1) (pod_of_domain sample_subdomain))"
    using sample_key_good [of 1] by (simp add: key_good_def)
  note reads = queue_reads_are_exact [OF sample_pending_views(1) this, unfolded k]
  obtain p where p: "pending_for_key (sample_queue 1) (pod_of_domain sample_subdomain) sample_pending = Inr p"
      "\<forall>v. p = Some v \<longleftrightarrow> (\<exists>t. pending_view sample_env (sample_queue 1) sample_pending (sample_key, t) = Some v)"
    by (rule exE [OF conjunct1 [OF conjunct2 [OF conjunct2 [OF reads]]]]) (erule conjE, rule that)
  have "pending_view sample_env (sample_queue 1) sample_pending (sample_key, sample_time) = Some sample_vote_value"
    by (simp only: sample_pending_views(4) fun_upd_same)
  then have "p = Some sample_vote_value" by (rule iffD2 [OF spec [OF p(2)], OF exI])
  with p(1) show ?thesis by simp
qed

section \<open>The tally\<close>

lemma count_two: "v \<noteq> w \<Longrightarrow> count_list vs v + count_list vs w \<le> length vs"
  by (induction vs) auto

text \<open>With a quorum of more than half of the votes the winner is the one value that reaches it.\<close>

lemma majority_winner:
  assumes "\<forall>t. set (tally_order Q t) = set t" "length vs < 2 * unat (quorum (q_config Q))"
  shows "winner Q vs = Some w \<longleftrightarrow> unat (quorum (q_config Q)) \<le> count_list vs w"
proof
  assume "winner Q vs = Some w"
  then show "unat (quorum (q_config Q)) \<le> count_list vs w" using winner_eq(2) [OF assms(1)] by blast
next
  assume w: "unat (quorum (q_config Q)) \<le> count_list vs w"
  moreover have "0 < unat (quorum (q_config Q))" using assms(2) by simp
  ultimately have "w \<in> set vs" using count_list_0_iff [of vs w] by (metis le_zero_eq not_less_zero neq0_conv)
  with w have "winner Q vs \<noteq> None" using winner_eq(1) [OF assms(1), of vs] by (auto simp: not_less)
  then obtain v where v: "winner Q vs = Some v" by blast
  then have "unat (quorum (q_config Q)) \<le> count_list vs v" using winner_eq(2) [OF assms(1)] by blast
  then have "v = w" using w count_two [of v w vs] assms(2) by linarith
  with v show "winner Q vs = Some w" by simp
qed

lemma winner_any_order:
  assumes "\<forall>t. set (tally_order Q t) = set t" "\<forall>t. set (order t) = set t" "length vs < 2 * unat (quorum (q_config Q))"
  shows "winner (Q\<lparr>tally_order := order\<rparr>) vs = winner Q vs"
proof -
  let ?Q = "Q\<lparr>tally_order := order\<rparr>"
  have "\<forall>t. set (tally_order ?Q t) = set t" "length vs < 2 * unat (quorum (q_config ?Q))" using assms(2,3) by simp_all
  from majority_winner [OF this] majority_winner [OF assms(1,3)]
  have "winner ?Q vs = Some w \<longleftrightarrow> winner Q vs = Some w" for w by simp
  then show ?thesis by (cases "winner Q vs"; cases "winner ?Q vs") auto
qed

text \<open>Only the choice of the winner looks at the order of the tally.\<close>

lemma order_only:
  "qp (Q\<lparr>tally_order := order\<rparr>) = qp Q" "v_encode (Q\<lparr>tally_order := order\<rparr>) = v_encode Q"
  "v_decode (Q\<lparr>tally_order := order\<rparr>) = v_decode Q"
  by simp_all

lemma enqueue_any_order: "enqueue E (Q\<lparr>tally_order := order\<rparr>) key now votes v s = enqueue E Q key now votes v s"
proof -
  have "pending_on E (Q\<lparr>tally_order := order\<rparr>) k s = pending_on E Q k s"
    "limit_allows E (Q\<lparr>tally_order := order\<rparr>) k v s = limit_allows E Q k v s"
    "put_pending E (Q\<lparr>tally_order := order\<rparr>) k t v s = put_pending E Q k t v s" for k t s
    by (simp_all only: pending_on_def limit_allows_def put_pending_def order_only)
  then show ?thesis by (simp only: enqueue_def order_only)
qed

lemma recording_any_order:
  "record_vote E (Q\<lparr>tally_order := order\<rparr>) key party t v s = record_vote E Q key party t v s"
  "votes_on E (Q\<lparr>tally_order := order\<rparr>) key s = votes_on E Q key s"
  by (simp_all only: record_vote_def votes_of_party_def votes_on_def order_only)

text \<open>C24: Two nodes that hold the same state and receive the same vote reach the same state and the same
  result, whatever order each of them iterates its tally in, as long as there are fewer than twice the
  quorum of votes on the key.\<close>

theorem replicas_agree_on_majority:
  assumes "queue_ok E Q s" "\<forall>t. set (tally_order Q t) = set t" "\<forall>t. set (order t) = set t"
    and "castable E Q (key_to_string Q (vote_key vt)) (vote_party vt) (vote_time vt) (vote_value vt) w"
  defines "key \<equiv> key_to_string Q (vote_key vt)"
  defines "V \<equiv> recorded (votes_view E Q s) key (vote_party vt) (vote_time vt) w"
  assumes "card {(q, t). V (key, q, t) \<noteq> None} < 2 * unat (quorum (q_config Q))"
  shows "cast E (Q\<lparr>tally_order := order\<rparr>) vt s = cast E Q vt s"
proof -
  have key: "part_ok key" using assms(4) by (simp add: castable_def key_good_def key_def)
  obtain s' where s': "record_vote E Q key (vote_party vt) (vote_time vt) (vote_value vt) s = (s', Inr ())"
    "queue_becomes E Q s s' V (pending_view E Q s)"
    unfolding V_def recorded_def by (rule record_vote_effect [OF assms(1) assms(4) [folded key_def]])
  note q' = queue_becomesD [OF s'(2)]
  obtain qs where qs: "votes_on E Q key s' = Inr (map (\<lambda>(q, t). (q, t, the (votes_view E Q s' (key, q, t)))) qs)"
    "distinct qs" "set qs = {(q, t). votes_view E Q s' (key, q, t) \<noteq> None}"
    by (rule votes_on_eq [OF q'(1) key])
  have "length qs < 2 * unat (quorum (q_config Q))"
    using assms(7) distinct_card [OF qs(2)] by (simp only: qs(3) q'(3))
  then have "winner (Q\<lparr>tally_order := order\<rparr>) (map f qs) = winner Q (map f qs)" for f
    by (intro winner_any_order [OF assms(2,3)]) simp
  then show ?thesis
    by (simp add: cast_def Let_def recording_any_order enqueue_any_order s'(1) qs(1) comp_def split_def
        flip: key_def cong: option.case_cong)
qed

theorem replicas_agree_on_majority_witness:
  "cast sample_env ((sample_queue 2)\<lparr>tally_order := rev\<rparr>) sample_vote sample_block
     = cast sample_env (sample_queue 2) sample_vote sample_block"
proof (rule replicas_agree_on_majority [OF sample_queue_views(1) sample_tally _ sample_castable])
  have "{(q, t). recorded Map.empty k p u w (k, q, t) \<noteq> None} = {(p, trunc_secs u)}" for k p u and w :: oracle_vote_value
    by (auto simp: recorded_def split: if_splits)
  then show "card {(q, t). recorded (votes_view sample_env (sample_queue 2) sample_block)
      (key_to_string (sample_queue 2) (vote_key sample_vote)) (vote_party sample_vote) (vote_time sample_vote)
      sample_vote_value (key_to_string (sample_queue 2) (vote_key sample_vote), q, t) \<noteq> None}
      < 2 * unat (quorum (q_config (sample_queue 2)))"
    unfolding sample_queue_views(2) by simp
qed simp

text \<open>A node whose \<open>HashMap\<close> iterates the entry of one value first elects that value, if it has a quorum.\<close>

definition first_in_tally :: "'v \<Rightarrow> ('v \<times> nat) list \<Rightarrow> ('v \<times> nat) list" where
  "first_in_tally v t = filter (\<lambda>x. fst x = v) t @ filter (\<lambda>x. fst x \<noteq> v) t"

lemma count_first_in_tally: "count_list (first_in_tally v t) x = count_list t x"
  unfolding first_in_tally_def by (induction t) auto

lemma winner_first_in_tally:
  assumes "v \<in> set vs" "unat (quorum (q_config Q)) \<le> count_list vs v"
  shows "winner (Q\<lparr>tally_order := first_in_tally v\<rparr>) vs = Some v"
proof -
  let ?P = "\<lambda>(w :: 'b, n). unat (quorum (q_config Q)) \<le> n" and ?t = "filter (\<lambda>x. fst x = v) (tally vs)"
  have mem: "set ?t = {(v, count_list vs v)}" using assms(1) by (auto simp: set_tally)
  then obtain x xs where x: "?t = x # xs" by (cases ?t) auto
  with mem have "x = (v, count_list vs v)" by (metis list.set_intros(1) singletonD)
  with x assms(2) show ?thesis by (simp add: winner_def first_in_tally_def)
qed

lemma pending_view_unique:
  assumes "queue_ok E Q s" "pending_view E Q s (k, t) = Some v" "pending_view E Q s (k, t') = Some v'"
  shows "v = v'"
proof -
  have "t = t'"
    using pending_okD(4) [OF queue_okD(5) [OF assms(1)], of k t t'] pending_view_Some [OF assms(1), of "(k, t)"]
      pending_view_Some [OF assms(1), of "(k, t')"] assms(2,3) by simp
  with assms(2,3) show ?thesis by simp
qed

lemma admin_elects_first:
  fixes c :: voting_config and E :: env
  defines "Q \<equiv> admin_queue E c"
  assumes "queue_ok E Q s" "env_ok E" "time_ok (vote_time vt)" "0 \<le> vote_time vt" "part_ok (vote_party vt)"
  defines "V \<equiv> recorded (votes_view E Q s) [] (vote_party vt) (vote_time vt) (config_norm (vote_value vt))"
  assumes "unat (quorum c) \<le> support V [] v" "0 < support V [] v"
  obtains s' where "cast E (Q\<lparr>tally_order := first_in_tally v\<rparr>) vt s = (s', Inr ())"
    "\<forall>x. (\<exists>t. pending_view E Q s' ([], t) = Some x) \<longleftrightarrow> x = v"
proof -
  let ?F = "Q\<lparr>tally_order := first_in_tally v\<rparr>"
  have cst: "castable E Q [] (vote_party vt) (vote_time vt) (vote_value vt) (config_norm (vote_value vt))"
    unfolding Q_def using assms(3-6) key_good_admin
    by (simp add: castable_def codec_ok_queues config_codec)
  have k: "key_to_string Q u = []" "q_config Q = c" for u by (simp_all add: Q_def)
  have good: "key_good Q []" unfolding Q_def by (rule key_good_admin)
  have part: "part_ok []" by (simp add: part_ok_def ascii_def)
  obtain s1 where s1: "record_vote E Q [] (vote_party vt) (vote_time vt) (vote_value vt) s = (s1, Inr ())"
    "queue_becomes E Q s s1 V (pending_view E Q s)"
    unfolding V_def recorded_def by (rule record_vote_effect [OF assms(2) cst])
  note b = queue_becomesD [OF s1(2)]
  obtain vs where vs: "votes_on E Q [] s1 = Inr vs" by (rule votes_on_eq [OF b(1) part])
  note count = count_votes(1,2) [OF b(1) part vs, unfolded b(3)]
  obtain q t where qt: "V ([], q, t) = Some v" using support_pos [OF assms(9)] by blast
  then have "votes_view E Q s1 ([], q, t) = Some v" by (simp add: b(3))
  moreover from this obtain bs where "vote_row E (qp Q) s1 ([], q, t) = Some bs"
    by (auto simp: votes_view_def split: option.splits)
  ultimately have exact: "exact Q v" using vote_row_decodes [OF b(1)] by (metis option.inject)
  have "winner ?F (map (\<lambda>(_, _, v). v) vs) = Some v"
    using count(2) qt assms(8) by (intro winner_first_in_tally) (auto simp: count(1) k(2))
  then have c: "cast E ?F vt s = enqueue E Q [] (vote_time vt) vs v s1"
    by (simp add: cast_def Let_def k recording_any_order enqueue_any_order s1(1) vs)
  show thesis
  proof (cases "\<exists>t. pending_view E Q s1 ([], t) = Some v")
    case True
    then obtain t where t: "pending_view E Q s1 ([], t) = Some v" by blast
    obtain s2 where s2: "enqueue E Q [] (vote_time vt) vs v s1 = (s2, Inr ())"
      "queue_becomes E Q s1 s2 (votes_dropped (votes_view E Q s1) []) (pending_view E Q s1)"
      by (rule enqueue_same [OF b(1) part vs t])
    have "\<forall>x. (\<exists>u. pending_view E Q s1 ([], u) = Some x) \<longleftrightarrow> x = v"
    proof (intro allI iffI)
      fix x assume "\<exists>u. pending_view E Q s1 ([], u) = Some x"
      then obtain u where "pending_view E Q s1 ([], u) = Some x" ..
      then show "x = v" by (rule pending_view_unique [OF b(1) _ t])
    next
      fix x assume "x = v"
      with t show "\<exists>u. pending_view E Q s1 ([], u) = Some x" by blast
    qed
    then show thesis by (intro that [of s2]) (simp_all only: c s2(1) queue_becomesD(4) [OF s2(2)] simp_thms)
  next
    case False
    then have none: "\<forall>t. pending_view E Q s1 ([], t) \<noteq> Some v" by blast
    obtain s2 where s2: "queue_becomes E Q s1 s2 (votes_dropped (votes_view E Q s1) [])
        (pending_dropped (pending_view E Q s1) [])"
      "enqueue E Q [] (vote_time vt) vs v s1 =
        (case limit_allows E Q [] v s2 of
           Inl e \<Rightarrow> (s2, Inl e)
         | Inr go \<Rightarrow> (if go then put_pending E Q [] (vote_time vt) v s2 else s2, Inr ()))"
      "queue_becomes E Q s1 (put_pending E Q [] (vote_time vt) v s2)
        (votes_dropped (votes_view E Q s1) []) (pending_replaced (pending_view E Q s1) [] (vote_time vt) v)"
      by (rule enqueue_other [OF b(1) good assms(4,5) exact vs none])
    have "limit_allows E Q [] v s2 = Inr True" by (simp add: limit_allows_def Q_def)
    with c s2(2) have "cast E ?F vt s = (put_pending E Q [] (vote_time vt) v s2, Inr ())" by simp
    then show thesis
      by (rule that) (use queue_becomesD(4) [OF s2(3)] in \<open>auto simp: pending_replaced_def\<close>)
  qed
qed

text \<open>C25: When two configurations both have a quorum of the admin votes (the quorum may be lowered while
  votes are waiting), the iteration order of the \<open>HashMap\<close>, which the standard library randomises, decides
  which of them is scheduled: from every such state there are two orders, each a mere reordering of the
  tally, under which the same vote schedules the one and the other, so two nodes reach different states.\<close>

theorem winner_depends_on_order:
  fixes c :: voting_config and E :: env
  defines "Q \<equiv> admin_queue E c"
  assumes "queue_ok E Q s" "env_ok E" "time_ok (vote_time vt)" "0 \<le> vote_time vt" "part_ok (vote_party vt)"
  defines "V \<equiv> recorded (votes_view E Q s) [] (vote_party vt) (vote_time vt) (config_norm (vote_value vt))"
  assumes "unat (quorum c) \<le> support V [] v" "0 < support V [] v"
    and "unat (quorum c) \<le> support V [] w" "0 < support V [] w" "v \<noteq> w"
  shows "\<exists>f g s1 s2. (\<forall>t x. count_list (f t) x = count_list t x \<and> count_list (g t) x = count_list t x) \<and>
    cast E (Q\<lparr>tally_order := f\<rparr>) vt s = (s1, Inr ()) \<and> cast E (Q\<lparr>tally_order := g\<rparr>) vt s = (s2, Inr ()) \<and>
    (\<forall>x. (\<exists>t. pending_view E Q s1 ([], t) = Some x) \<longleftrightarrow> x = v) \<and>
    (\<forall>x. (\<exists>t. pending_view E Q s2 ([], t) = Some x) \<longleftrightarrow> x = w) \<and> s1 \<noteq> s2"
proof -
  note elects = admin_elects_first [OF assms(2-6) [unfolded Q_def], folded Q_def, folded V_def]
  obtain s1 where s1: "cast E (Q\<lparr>tally_order := first_in_tally v\<rparr>) vt s = (s1, Inr ())"
    "\<forall>x. (\<exists>t. pending_view E Q s1 ([], t) = Some x) \<longleftrightarrow> x = v" by (rule elects [OF assms(8,9)])
  obtain s2 where s2: "cast E (Q\<lparr>tally_order := first_in_tally w\<rparr>) vt s = (s2, Inr ())"
    "\<forall>x. (\<exists>t. pending_view E Q s2 ([], t) = Some x) \<longleftrightarrow> x = w" by (rule elects [OF assms(10,11)])
  have "s1 \<noteq> s2"
  proof
    assume "s1 = s2"
    with s1(2) have "(\<exists>t. pending_view E Q s2 ([], t) = Some v)" by blast
    with s2(2) assms(12) show False by blast
  qed
  with s1 s2 show ?thesis
    by (intro exI [of _ "first_in_tally v"] exI [of _ "first_in_tally w"] exI [of _ s1] exI [of _ s2])
      (simp only: count_first_in_tally simp_thms)
qed

text \<open>Two admins vote for two configurations while two votes are needed; once one vote is enough, the
  next vote leaves both with a quorum.\<close>

definition sample_rival_vote :: "(unit, config) vote" where
  "sample_rival_vote = sample_admin_vote\<lparr>vote_party := ''0402'', vote_value := sample_one_oracle\<rparr>"

definition sample_admins :: "u64 \<Rightarrow> (unit, config) vote_queue" where
  "sample_admins q = admin_queue sample_env ((a_voting (admins sample_config))\<lparr>quorum := q\<rparr>)"

definition sample_split :: contents where
  "sample_split = fst (cast sample_env (sample_admins 2) sample_rival_vote sample_block)"

lemma sample_split:
  "queue_ok sample_env (sample_admins q) sample_split"
  "votes_view sample_env (sample_admins q) sample_split = recorded Map.empty [] ''0402'' sample_time sample_one_oracle"
proof -
  let ?Q = "sample_admins 2"
  have cst: "castable sample_env ?Q (key_to_string ?Q (vote_key sample_rival_vote)) (vote_party sample_rival_vote)
      (vote_time sample_rival_vote) (vote_value sample_rival_vote) sample_one_oracle"
    using key_good_admin sample_one_oracle_norm
    by (simp add: sample_admins_def sample_rival_vote_def sample_admin_vote_def castable_def codec_ok_queues config_codec
        part_ok_def ascii_def)
  have tally: "\<forall>t. set (tally_order ?Q t) = set t"
    unfolding sample_admins_def by (rule tally_order_queues(2) [OF env_ok_sample])
  have few: "\<forall>v. support (recorded (votes_view sample_env ?Q sample_block) (key_to_string ?Q (vote_key sample_rival_vote))
      (vote_party sample_rival_vote) (vote_time sample_rival_vote) sample_one_oracle)
      (key_to_string ?Q (vote_key sample_rival_vote)) v < unat (quorum (q_config ?Q))"
    unfolding sample_admins_def sample_block_views(5) support_recorded_empty by simp
  have ok: "queue_ok sample_env ?Q sample_block" unfolding sample_admins_def by (rule sample_block_views(2))
  obtain s' where "cast sample_env ?Q sample_rival_vote sample_block = (s', Inr ())"
    "queue_becomes sample_env ?Q sample_block s'
      (recorded Map.empty [] ''0402'' sample_time sample_one_oracle) (pending_view sample_env ?Q sample_block)"
    by (rule cast_effect [OF ok tally cst])
      (use few in \<open>auto simp: sample_rival_vote_def sample_admin_vote_def sample_admins_def sample_block_views not_less [symmetric]\<close>)
  then have "queue_becomes sample_env ?Q sample_block sample_split
      (recorded Map.empty [] ''0402'' sample_time sample_one_oracle) (pending_view sample_env ?Q sample_block)"
    by (simp add: sample_split_def)
  note b = queue_becomesD [OF this]
  show "votes_view sample_env (sample_admins q) sample_split = recorded Map.empty [] ''0402'' sample_time sample_one_oracle"
    using b(3) views_any_config(3) unfolding sample_admins_def by metis
  show "queue_ok sample_env (sample_admins q) sample_split"
    using b(1) unfolding sample_admins_def by (rule queue_ok_any_config(2))
qed

theorem winner_depends_on_order_witness:
  "\<exists>f g s1 s2. cast sample_env ((sample_admins 1)\<lparr>tally_order := f\<rparr>) sample_admin_vote sample_split = (s1, Inr ()) \<and>
     cast sample_env ((sample_admins 1)\<lparr>tally_order := g\<rparr>) sample_admin_vote sample_split = (s2, Inr ()) \<and>
     (\<exists>t. pending_view sample_env (sample_admins 1) s1 ([], t) = Some sample_config) \<and>
     (\<exists>t. pending_view sample_env (sample_admins 1) s2 ([], t) = Some sample_one_oracle) \<and> s1 \<noteq> s2"
proof -
  let ?V = "recorded (votes_view sample_env (sample_admins 1) sample_split) [] (vote_party sample_admin_vote)
    (vote_time sample_admin_vote) (config_norm (vote_value sample_admin_vote))"
  have V: "?V = recorded (recorded Map.empty [] ''0402'' sample_time sample_one_oracle) [] ''0401'' sample_time sample_config"
    by (simp add: sample_split(2) sample_admin_vote_def)
  have two: "sample_config \<noteq> sample_one_oracle" by (simp add: sample_one_oracle_def sample_config_def)
  have "{q. \<exists>u. ?V ([], q, u) = Some sample_config} = {''0401''}" "{q. \<exists>u. ?V ([], q, u) = Some sample_one_oracle} = {''0402''}"
    unfolding V using two by (auto simp: recorded_def split: if_splits)
  then have one: "support ?V [] sample_config = 1" "support ?V [] sample_one_oracle = 1" by (simp_all add: support_def)
  note differ = winner_depends_on_order [OF sample_split(1) [of 1, unfolded sample_admins_def] env_ok_sample,
      folded sample_admins_def, where vt = sample_admin_vote and v = sample_config and w = sample_one_oracle]
  have "time_ok (vote_time sample_admin_vote)" "0 \<le> vote_time sample_admin_vote" "part_ok (vote_party sample_admin_vote)"
    by (simp_all add: sample_admin_vote_def part_ok_def ascii_def)
  from differ [OF this] one two show ?thesis by simp blast
qed

end
