(* ===== verification/Props_Actions.thy ===== *)
theory Props_Actions
  imports Props_Data Props_Queue
begin

text \<open>
  The properties of transactions and their actions: who can act, which observations and
  reconfigurations are accepted, what a delivered transaction can change, and the enrollment limit.
\<close>

section \<open>Authority\<close>

text \<open>The public key an action is taken for.\<close>

fun actor :: "action \<Rightarrow> bytes" where
  "actor (Reconfigure a) = admin_identity (re_admin a)"
| "actor (Observe a) = oid_identity (obs_oracle a)"

lemma action_actor:
  assumes "action_try_from E (action_map clear_signature p) = Inr a"
  shows "map ps_public_key (action_signatures p) = [actor a]"
proof (cases "pact_action p")
  case (Some k)
  show ?thesis
  proof (cases k)
    case (PAReconfigure r)
    with Some assms show ?thesis
      by (cases "pr_signature r")
        (auto simp: action_map_def action_try_from_def reconfigure_try_from_def res_simps action_signatures_def
          unsigned_try_from_def admin_of_unsigned_def clear_signature_def)
  next
    case (PAObserve ob)
    with Some assms show ?thesis
      by (cases "pobs_signature ob")
        (auto simp: action_map_def action_try_from_def observe_try_from_def res_simps action_signatures_def
          unsigned_try_from_def oracle_identity_of_unsigned_def clear_signature_def)
  qed
qed (use assms in \<open>simp add: action_map_def action_try_from_def\<close>)

lemma transaction_actors:
  assumes "transaction_try_from E (unsign_all p) = Inr tx"
  shows "map actor (tx_actions tx) = map ps_public_key (tx_signatures p)"
proof -
  obtain acts where acts: "ecollect (map (\<lambda>a. action_try_from E (action_map clear_signature a)) (ptx_actions p)) = Inr acts"
    "tx_actions tx = acts"
    using assms by (auto simp: transaction_try_from_def unsign_all_eq tx_map_def res_simps comp_def)
  have "ecollect (map (\<lambda>a. action_try_from E (action_map clear_signature a)) ps) = Inr acts \<Longrightarrow>
      map actor acts = map ps_public_key (concat (map action_signatures ps))" for ps acts
    by (induction ps arbitrary: acts) (auto simp: res_simps dest: action_actor)
  with acts show ?thesis by (simp add: tx_signatures_def)
qed

section \<open>Observations\<close>

text \<open>When an observation is accepted, over the abstract state. A name is new when it is not in the
  canonical table and no hash is pending for it.\<close>

definition new_name :: "env \<Rightarrow> contents \<Rightarrow> prefix_order_domain \<Rightarrow> bool" where
  "new_name E s p =
    (canonical_view E s (domain_of_pod p) = None \<and>
     (\<forall>c t v. pending_view E (oracle_queue E c) s (pod_display p, t) = Some v \<longrightarrow> ovv_hash_observed v = NotFound))"

definition room_for :: "env \<Rightarrow> config \<Rightarrow> contents \<Rightarrow> prefix_order_domain \<Rightarrow> prefix_order_domain \<Rightarrow> bool" where
  "room_for E c s p r =
    (p \<in> enrolled E s r \<or> card (enrolled E s r) < unat (max_enrolled_subdomains (oracles c)))"

definition fresh_blockstamp :: "env \<Rightarrow> config \<Rightarrow> contents \<Rightarrow> blockstamp \<Rightarrow> time \<Rightarrow> bool" where
  "fresh_blockstamp E c s b now =
    (block_time E s = Inr now \<and> previous_app_hash E (previous_block_height (blockstamp.block_height b)) s = Inr (bs_app_hash b) \<and>
     (\<exists>h t. block_height E s = Inr h \<and> blockstamp.block_height b \<le> h \<and>
        time_of_block E (blockstamp.block_height b) s = Inr t \<and> t \<le> now \<and>
        nat (now - t) < observation_timeout (oracles c)))"

definition observation_allowed :: "env \<Rightarrow> config \<Rightarrow> contents \<Rightarrow> observe_action \<Rightarrow> time \<Rightarrow> bool" where
  "observation_allowed E c s a now =
    (let ob = obs_observation a; d = domain_name (ob_domain ob); z = zone_name (ob_zone ob)
     in oid_identity (obs_oracle a) \<in> or_identity ` set (o_authorized (oracles c)) \<and>
        fresh_blockstamp E c s (ob_blockstamp ob) now \<and>
        (\<exists>l. fqdn_is_subdomain_of d (l # z) \<and>
          (new_name E s (PrefixOrderDomain d) \<longrightarrow>
            ob_hash_observed ob \<noteq> NotFound \<and> room_for E c s (PrefixOrderDomain d) (PrefixOrderDomain (l # z)))))"

lemma check_blockstamp_Inr:
  "check_blockstamp E c b s = Inr now \<longleftrightarrow> fresh_blockstamp E c s b now"
  by (auto simp: check_blockstamp_def fresh_blockstamp_def res_simps duration_since_def not_le not_less split: if_splits)

lemma subdomain_label_unique:
  "fqdn_is_subdomain_of d (l # z) \<Longrightarrow> fqdn_is_subdomain_of d (l' # z) \<Longrightarrow> l = l'"
  by (auto simp: fqdn_is_subdomain_of_def suffix_def)

lemma subdomain_strict: "d \<noteq> z \<and> fqdn_is_subdomain_of d z \<longleftrightarrow> (\<exists>l. fqdn_is_subdomain_of d (l # z))"
proof
  assume "d \<noteq> z \<and> fqdn_is_subdomain_of d z"
  then show "\<exists>l. fqdn_is_subdomain_of d (l # z)" using registered_below_zone by blast
next
  assume "\<exists>l. fqdn_is_subdomain_of d (l # z)"
  then show "d \<noteq> z \<and> fqdn_is_subdomain_of d z" by (auto simp: fqdn_is_subdomain_of_def suffix_def)
qed

lemma check_domain_Inr:
  "check_domain d z = Inr r \<longleftrightarrow> (\<exists>l. r = PrefixOrderDomain (l # z) \<and> fqdn_is_subdomain_of d (l # z))"
proof (cases "d \<noteq> z \<and> fqdn_is_subdomain_of d z")
  case True
  then obtain l where "registered_domain d z = Inr (PrefixOrderDomain (l # z))" "fqdn_is_subdomain_of d (l # z)"
    using registered_below_zone by blast
  with True show ?thesis using subdomain_label_unique by (auto simp: check_domain_def)
next
  case False
  then have "check_domain d z \<noteq> Inr r" by (auto simp: check_domain_def res_simps)
  with False show ?thesis using subdomain_strict by blast
qed

lemma pending_for_key_all:
  assumes "queue_ok E Q s" "part_ok (key_to_string Q key)"
  obtains v where "pending_for_key Q key s = Inr v"
    "\<forall>P. (\<forall>t w. pending_view E Q s (key_to_string Q key, t) = Some w \<longrightarrow> P w) \<longleftrightarrow> (\<forall>w. v = Some w \<longrightarrow> P w)"
proof (cases "\<exists>t w. pending_view E Q s (key_to_string Q key, t) = Some w")
  case True
  then obtain t w where t: "pending_view E Q s (key_to_string Q key, t) = Some w" by blast
  have "t' = t" if "pending_view E Q s (key_to_string Q key, t') = Some w'" for t' w'
    using pending_okD(4) [OF queue_okD(5) [OF assms(1)], of "key_to_string Q key" t t'] t that
      pending_view_Some [OF assms(1), of "(key_to_string Q key, t)"]
      pending_view_Some [OF assms(1), of "(key_to_string Q key, t')"] by simp
  then have one: "w' = w" if "pending_view E Q s (key_to_string Q key, t') = Some w'" for t' w'
    using t that by fastforce
  have "\<forall>P. (\<forall>t w. pending_view E Q s (key_to_string Q key, t) = Some w \<longrightarrow> P w) \<longleftrightarrow> (\<forall>x. Some w = Some x \<longrightarrow> P x)"
    using t one by blast
  moreover have "pending_for_key Q key s = Inr (Some w)" by (rule pending_for_key_eq(2) [OF assms, of t]) (simp add: t)
  ultimately show thesis by (intro that [of "Some w"])
next
  case False
  then have "pending_for_key Q key s = Inr None"
    using pending_for_key_eq(1) [OF assms] by (simp add: not_Some_eq)
  moreover have "\<forall>P. (\<forall>t w. pending_view E Q s (key_to_string Q key, t) = Some w \<longrightarrow> P w) \<longleftrightarrow> (\<forall>x. None = Some x \<longrightarrow> P x)"
    using False by blast
  ultimately show thesis by (intro that [of None])
qed

lemma check_enrollment_Inr:
  assumes "state_ok E s" "canonical_ok E s" "config E s = Inr c" "fqdn_valid E d" "fqdn_is_subdomain_of d (l # z)"
  defines "p \<equiv> PrefixOrderDomain d" and "r \<equiv> PrefixOrderDomain (l # z)"
  shows "check_enrollment E p r h s = Inr () \<longleftrightarrow> (new_name E s p \<longrightarrow> h \<noteq> NotFound \<and> room_for E c s p r)"
proof -
  note env = state_okD(6) [OF assms(1)]
  obtain xs where "d = xs @ l # z" using assms(5) by (auto simp: fqdn_is_subdomain_of_def suffix_def)
  then have "fqdn_valid E (l # z)" using env_fqdn_drop [OF env assms(4), of "length xs"] by simp
  then have limit: "check_subdomain_limit_before_pending_exact E p r s =
      (if room_for E c s p r then Inr () else Inl SubdomainLimit)"
    using limit_check_eq [OF assms(1-3), of r p] by (simp add: room_for_def r_def fqdn_root_def)
  let ?Q = "oracle_queue E (o_voting (oracles c))"
  have part: "part_ok (key_to_string ?Q p)" using pod_display_part [OF env, of p] assms(4) by (simp add: p_def)
  obtain v where v: "pending_for_key ?Q p s = Inr v"
    "\<forall>P. (\<forall>t w. pending_view E ?Q s (key_to_string ?Q p, t) = Some w \<longrightarrow> P w) \<longleftrightarrow> (\<forall>w. v = Some w \<longrightarrow> P w)"
    by (rule pending_for_key_all [OF state_okD(1) [OF assms(1)] part])
  have any: "(\<forall>c t w. pending_view E (oracle_queue E c) s (pod_display p, t) = Some w \<longrightarrow> ovv_hash_observed w = NotFound)
      \<longleftrightarrow> (\<forall>t w. pending_view E ?Q s (pod_display p, t) = Some w \<longrightarrow> ovv_hash_observed w = NotFound)"
    using views_any_config(2) [of E _ s "o_voting (oracles c)"] by metis
  have "new_name E s p \<longleftrightarrow>
      canonical_view E s (domain_of_pod p) = None \<and> (\<forall>w. v = Some w \<longrightarrow> ovv_hash_observed w = NotFound)"
    using spec [OF v(2), of "\<lambda>w. ovv_hash_observed w = NotFound"]
    unfolding new_name_def any by (simp only: oracle_queue_sel)
  then have new: "new_name E s p \<longleftrightarrow>
      canonical_view E s (domain_of_pod p) = None \<and> (v = None \<or> map_option ovv_hash_observed v = Some NotFound)"
    by (cases v) simp_all
  show ?thesis
    unfolding new
    by (auto simp: check_enrollment_def canonical_hash_eq [OF env assms(2)] oracle_voting_def assms(3) v(1) limit Let_def)
qed

lemma observation_allowed_guards:
  assumes "state_ok E s" "canonical_ok E s" "config E s = Inr c" "observation_ok E (obs_observation a)"
  defines "ob \<equiv> obs_observation a"
  shows "observation_allowed E c s a now \<longleftrightarrow>
      is_current_oracle c (obs_oracle a) \<and> check_blockstamp E c (ob_blockstamp ob) s = Inr now \<and>
      (\<exists>r. check_domain (domain_name (ob_domain ob)) (zone_name (ob_zone ob)) = Inr r \<and>
        check_enrollment E (PrefixOrderDomain (domain_name (ob_domain ob))) r (ob_hash_observed ob) s = Inr ())"
proof -
  have d: "fqdn_valid E (domain_name (ob_domain ob))" using assms(4) by (simp add: observation_ok_def ob_def)
  have orc: "is_current_oracle c (obs_oracle a) \<longleftrightarrow> oid_identity (obs_oracle a) \<in> or_identity ` set (o_authorized (oracles c))"
    unfolding is_current_oracle_def list_ex_iff image_iff by metis
  show ?thesis
    using check_enrollment_Inr [OF assms(1-3) d]
    by (auto simp: observation_allowed_def Let_def orc check_blockstamp_Inr check_domain_Inr ob_def)
qed

lemma observe_cast:
  assumes "state_ok E s" "canonical_ok E s" "config E s = Inr c" "observation_ok E (obs_observation a)"
    and "observation_allowed E c s a now"
  shows "observe E a s = cast E (oracle_queue E (o_voting (oracles c)))
      \<lparr>vote_party = hex_encode E (oid_identity (obs_oracle a)), vote_time = now,
       vote_key = pod_of_domain (ob_domain (obs_observation a)),
       vote_value = \<lparr>ovv_hash_observed = ob_hash_observed (obs_observation a), ovv_zone = ob_zone (obs_observation a)\<rparr>\<rparr> s"
  using assms(5) unfolding observation_allowed_guards [OF assms(1-4)]
  by (auto simp: observe_def Let_def assms(3) pod_of_domain_def oracle_voting_def)

lemma observe_refused:
  assumes "state_ok E s" "canonical_ok E s" "config E s = Inr c" "observation_ok E (obs_observation a)"
    and "\<forall>now. \<not> observation_allowed E c s a now"
  shows "\<exists>e. observe E a s = (s, Inl e)"
proof (rule ccontr)
  let ?ob = "obs_observation a"
  let ?p = "pod_of_domain (ob_domain ?ob)"
  assume contr: "\<nexists>e. observe E a s = (s, Inl e)"
  then have orc: "is_current_oracle c (obs_oracle a)"
    by (cases "is_current_oracle c (obs_oracle a)") (simp_all add: observe_def Let_def assms(3))
  with contr obtain now where now: "check_blockstamp E c (ob_blockstamp ?ob) s = Inr now"
    by (cases "check_blockstamp E c (ob_blockstamp ?ob) s") (auto simp: observe_def Let_def assms(3))
  with contr orc obtain r where r: "check_domain (pod_name ?p) (zone_name (ob_zone ?ob)) = Inr r"
    by (cases "check_domain (pod_name ?p) (zone_name (ob_zone ?ob))") (auto simp: observe_def Let_def assms(3))
  with contr orc now have "check_enrollment E ?p r (ob_hash_observed ?ob) s = Inr ()"
    by (cases "check_enrollment E ?p r (ob_hash_observed ?ob) s") (auto simp: observe_def Let_def assms(3))
  with orc now r assms(5) show False
    unfolding observation_allowed_guards [OF assms(1-4)] by (auto simp: pod_of_domain_def)
qed

text \<open>C6: An observation is accepted exactly when it comes from an authorized oracle, its blockstamp names
  a block that is known, recent and carries the app hash recorded for the block before it, the name lies
  strictly below its zone, and a name that is not enrolled is neither being deleted nor over the limit of
  its registered domain; what is accepted becomes a vote, what is not leaves the state as it was.\<close>

theorem observe_accepts_iff_allowed:
  assumes "state_ok E s" "canonical_ok E s" "config E s = Inr c" "observation_ok E (obs_observation a)"
  shows "(\<forall>now. observation_allowed E c s a now \<longrightarrow>
      observe E a s = cast E (oracle_queue E (o_voting (oracles c)))
        \<lparr>vote_party = hex_encode E (oid_identity (obs_oracle a)), vote_time = now,
         vote_key = pod_of_domain (ob_domain (obs_observation a)),
         vote_value = \<lparr>ovv_hash_observed = ob_hash_observed (obs_observation a), ovv_zone = ob_zone (obs_observation a)\<rparr>\<rparr> s) \<and>
    ((\<forall>now. \<not> observation_allowed E c s a now) \<longrightarrow> (\<exists>e. observe E a s = (s, Inl e)))"
  using observe_cast [OF assms] observe_refused [OF assms] by blast

lemma sample_enrolled: "enrolled sample_env sample_block r = {}"
  by (simp add: enrolled_def canonical_view_def sample_block_canonical pending_name_def sample_block_views)

lemma sample_observation_allowed:
  "observation_allowed sample_env sample_config sample_block sample_observation (sample_time + 60000000000)"
proof -
  have "fresh_blockstamp sample_env sample_config sample_block (ob_blockstamp (obs_observation sample_observation))
      (sample_time + 60000000000)"
    by (simp add: fresh_blockstamp_def sample_observation_def sample_block_reads previous_block_height_def
        sample_config_def from_secs_def nanos_per_sec_def)
  moreover have "fqdn_is_subdomain_of [''www'', ''example'', ''com''] [''example'', ''com'']"
    by (simp add: fqdn_is_subdomain_of_def suffix_def)
  moreover have "room_for sample_env sample_config sample_block p r" for p r
    by (simp add: room_for_def sample_enrolled) (simp add: sample_config_def)
  ultimately show ?thesis
    by (simp add: observation_allowed_def Let_def)
      (intro conjI exI [of _ "''example''"]; simp add: sample_observation_def sample_config_def sample_subdomain_def sample_zone_def)
qed

lemma sample_observation_ok: "observation_ok sample_env (obs_observation sample_observation)"
  by (simp add: sample_observation_def observation_ok_def sample_subdomain_def sample_zone_def i64_max_def)

theorem observe_accepts_iff_allowed_witness:
  "\<exists>vt. observe sample_env sample_observation sample_block =
     cast sample_env (oracle_queue sample_env (o_voting (oracles sample_config))) vt sample_block"
  using observe_accepts_iff_allowed [OF sample_block_ok sample_block_reads(1) sample_observation_ok]
    sample_observation_allowed by blast

section \<open>Reconfigurations\<close>

definition voting_acceptable :: "nat \<Rightarrow> voting_config \<Rightarrow> bool" where
  "voting_acceptable n vc = (total vc = word_of_nat n \<and> 0 < quorum vc \<and> quorum vc \<le> total vc)"

definition config_acceptable :: "config \<Rightarrow> config \<Rightarrow> bool" where
  "config_acceptable old new =
    (version old < version new \<and>
     voting_acceptable (length (a_authorized (admins new))) (a_voting (admins new)) \<and>
     voting_acceptable (length (o_authorized (oracles new))) (o_voting (oracles new)) \<and>
     max_enrolled_subdomains (oracles new) \<noteq> 0 \<and>
     max_enrolled_subdomains (oracles old) \<le> max_enrolled_subdomains (oracles new) \<and>
     (\<forall>adm \<in> set (a_authorized (admins new)). \<exists>b \<in> set (admin_identity adm). b \<noteq> 0) \<and>
     (\<forall>orc \<in> set (o_authorized (oracles new)). \<exists>b \<in> set (or_identity orc). b \<noteq> 0))"

lemma check_not_zero_Inr: "check_not_zero e i bs = Inr () \<longleftrightarrow> (\<forall>b \<in> set bs. \<exists>x \<in> set b. x \<noteq> 0)"
  by (induction bs arbitrary: i) (auto simp: is_all_zeros_def list_all_iff)

lemma check_voting_config_Inr: "check_voting_config (word_of_nat n) vc = Inr () \<longleftrightarrow> voting_acceptable n vc"
  by (auto simp: check_voting_config_def voting_acceptable_def res_simps word_neq_0_conv)

lemma check_config_Inr:
  assumes "config E s = Inr c"
  shows "check_config E new s = Inr () \<longleftrightarrow> config_acceptable c new"
  unfolding check_config_def config_acceptable_def
  by (auto simp: assms res_simps check_voting_config_Inr check_not_zero_Inr)

definition reconfiguration_allowed :: "env \<Rightarrow> config \<Rightarrow> contents \<Rightarrow> reconfigure_action \<Rightarrow> time \<Rightarrow> bool" where
  "reconfiguration_allowed E c s a now =
    ((a_authorized (admins c) = [] \<or> re_admin a \<in> set (a_authorized (admins c))) \<and>
     re_not_before a \<le> now \<and> now \<le> re_not_after a \<and> config_acceptable c (re_config a) \<and>
     (\<forall>t v. pending_view E (admin_queue E (a_voting (admins c))) s ([], t) = Some v \<longrightarrow> version v < version (re_config a)))"

lemma reconfigure_guards:
  assumes "state_ok E s" "config E s = Inr c" "block_time E s = Inr now"
  shows "(reconfiguration_allowed E c s a now \<longrightarrow>
      reconfigure E a s = cast E (admin_queue E (a_voting (admins c)))
        \<lparr>vote_party = hex_encode E (admin_identity (re_admin a)), vote_time = now, vote_key = (),
         vote_value = re_config a\<rparr> s) \<and>
    (\<not> reconfiguration_allowed E c s a now \<longrightarrow> (\<exists>e. reconfigure E a s = (s, Inl e)))"
proof -
  let ?Q = "admin_queue E (a_voting (admins c))"
  have key: "key_to_string ?Q () = []" by (simp add: empty_display_def)
  then have part: "part_ok (key_to_string ?Q ())" by (simp add: part_ok_def ascii_def)
  obtain p where p: "pending_for_key ?Q () s = Inr p"
    "\<forall>P. (\<forall>t w. pending_view E ?Q s (key_to_string ?Q (), t) = Some w \<longrightarrow> P w) \<longleftrightarrow> (\<forall>w. p = Some w \<longrightarrow> P w)"
    by (rule pending_for_key_all [OF state_okD(2) [OF assms(1)] part])
  have newer: "(\<forall>t v. pending_view E ?Q s ([], t) = Some v \<longrightarrow> version v < version (re_config a)) \<longleftrightarrow>
      (case p of None \<Rightarrow> True | Some v \<Rightarrow> \<not> version (re_config a) \<le> version v)"
    using spec [OF p(2), of "\<lambda>v. version v < version (re_config a)"] unfolding key
    by (cases p) (simp_all add: not_le)
  have "reconfigure E a s =
      lift_res s (check (is_current_admin c (re_admin a)) NotCurrentAdmin) (\<lambda>_.
      lift_res s (check (re_not_before a \<le> now) BeforeNotBefore) (\<lambda>_.
      lift_res s (check (now \<le> re_not_after a) AfterNotAfter) (\<lambda>_.
      lift_res s (check_config E (re_config a) s) (\<lambda>_.
      lift_res s (check (\<forall>t v. pending_view E ?Q s ([], t) = Some v \<longrightarrow> version v < version (re_config a)) PendingVersion) (\<lambda>_.
      cast E ?Q \<lparr>vote_party = hex_encode E (admin_identity (re_admin a)), vote_time = now, vote_key = (),
         vote_value = re_config a\<rparr> s)))))"
    unfolding newer by (simp add: reconfigure_def assms(2,3) p(1) admin_voting_def not_less)
  then show ?thesis
    using check_config_Inr [OF assms(2), of "re_config a"]
    by (cases "check_config E (re_config a) s")
      (auto simp: reconfiguration_allowed_def is_current_admin_def check_def)
qed

text \<open>C7: A reconfiguration is accepted exactly when it comes from a current admin (anyone, while there is
  none), the block time is within its bounds, its configuration is newer than the current and the pending
  one and consistent: each total is the number of parties, each quorum between one and the total, the
  enrollment limit not lowered and no key a placeholder. What is accepted becomes a vote, what is not
  leaves the state as it was.\<close>

theorem reconfigure_accepts_iff_allowed:
  assumes "state_ok E s" "config E s = Inr c" "block_time E s = Inr now"
  shows "(reconfiguration_allowed E c s a now \<longrightarrow>
      reconfigure E a s = cast E (admin_queue E (a_voting (admins c)))
        \<lparr>vote_party = hex_encode E (admin_identity (re_admin a)), vote_time = now, vote_key = (),
         vote_value = re_config a\<rparr> s) \<and>
    (\<not> reconfiguration_allowed E c s a now \<longrightarrow> (\<exists>e. reconfigure E a s = (s, Inl e)))"
  by (rule reconfigure_guards [OF assms])

definition sample_reconfigure :: reconfigure_action where
  "sample_reconfigure =
    \<lparr>re_config = sample_config\<lparr>version := 2\<rparr>, re_not_before = 0, re_not_after = 2 * sample_time,
     re_admin = Admin [4, 1]\<rparr>"

lemma sample_reconfiguration_allowed:
  "reconfiguration_allowed sample_env sample_config sample_block sample_reconfigure (sample_time + 60000000000)"
  unfolding reconfiguration_allowed_def config_acceptable_def voting_acceptable_def
  by (simp add: sample_block_views sample_reconfigure_def) (simp add: sample_config_def sample_time_def)

theorem reconfigure_accepts_iff_allowed_witness:
  "\<exists>vt. reconfigure sample_env sample_reconfigure sample_block =
     cast sample_env (admin_queue sample_env (a_voting (admins sample_config))) vt sample_block"
  using reconfigure_accepts_iff_allowed [OF sample_block_ok(1) sample_block_reads(1,3), of sample_reconfigure]
    sample_reconfiguration_allowed by blast

section \<open>Transactions\<close>

lemma sample_hex: "sample_hex_digit 0 = CHR ''0''" "sample_hex_digit 2 = CHR ''2''" "sample_hex_digit 4 = CHR ''4''"
  by code_simp+

text \<open>The first vote on a name in the sample state is recorded.\<close>

lemma sample_observation_recorded:
  obtains s' where "observe sample_env sample_observation sample_block = (s', Inr ())"
    "votes_view sample_env (sample_queue 2) s' (sample_key, ''0402'', sample_time + 60000000000) = Some sample_vote_value"
    "pending_view sample_env (sample_queue 2) s' = Map.empty"
proof -
  let ?t = "sample_time + 60000000000" and ?Q = "sample_queue 2"
  let ?vt = "sample_vote\<lparr>vote_time := ?t\<rparr>"
  have Q: "oracle_queue sample_env (o_voting (oracles sample_config)) = ?Q"
    by (simp add: sample_queue_def sample_config_def)
  have vt: "\<lparr>vote_party = hex_encode sample_env (oid_identity (obs_oracle sample_observation)), vote_time = ?t,
      vote_key = pod_of_domain (ob_domain (obs_observation sample_observation)),
      vote_value = \<lparr>ovv_hash_observed = ob_hash_observed (obs_observation sample_observation),
        ovv_zone = ob_zone (obs_observation sample_observation)\<rparr>\<rparr> = ?vt"
    by (simp add: sample_vote_def sample_vote_value_def sample_observation_def)
      (simp add: sample_env_def sample_hex)
  have obs: "observe sample_env sample_observation sample_block = cast sample_env ?Q ?vt sample_block"
    using observe_cast [OF sample_block_ok sample_block_reads(1) sample_observation_ok sample_observation_allowed]
    unfolding Q vt .
  have trunc: "trunc_secs ?t = ?t" using trunc_secs_of_secs [of 1060] by (simp add: sample_time_def)
  have castable: "castable sample_env ?Q (key_to_string ?Q (vote_key ?vt)) (vote_party ?vt) (vote_time ?vt)
      (vote_value ?vt) sample_vote_value"
    using sample_castable [of 2] sample_time_ok by (simp add: castable_def)
  show thesis
  proof (rule cast_effect [OF sample_queue_views(1) sample_tally castable], goal_cases)
    case (1 s')
    note b = queue_becomesD [OF 1(2)]
    have key: "key_to_string ?Q (vote_key ?vt) = sample_key" using sample_key [of 2] by simp
    have party: "vote_party ?vt = ''0402''" by (simp add: sample_vote_def)
    have time: "vote_time ?vt = ?t" by simp
    show ?case
    proof (rule that [of s'])
      show "observe sample_env sample_observation sample_block = (s', Inr ())" by (simp only: obs 1(1))
      show "votes_view sample_env ?Q s' (sample_key, ''0402'', ?t) = Some sample_vote_value"
        unfolding b(3) recorded_def key party time trunc by simp
      show "pending_view sample_env ?Q s' = Map.empty" unfolding b(4) by (rule sample_queue_views(3))
    qed
  next
    case (2 s' vs win)
    then have "2 \<le> support (recorded (votes_view sample_env ?Q sample_block) (key_to_string ?Q (vote_key ?vt))
        (vote_party ?vt) (vote_time ?vt) sample_vote_value) (key_to_string ?Q (vote_key ?vt)) win" by simp
    moreover have "support (recorded (votes_view sample_env ?Q sample_block) (key_to_string ?Q (vote_key ?vt))
        (vote_party ?vt) (vote_time ?vt) sample_vote_value) (key_to_string ?Q (vote_key ?vt)) win \<le> 1"
      by (rule sample_support)
    ultimately show ?case by linarith
  qed
qed

text \<open>C2: A transaction can only change the state or succeed if its bytes decode, every signature in it
  verifies over the hash of the whole unsigned transaction, there is one signature of the acting party
  for each action, in order, it names this chain and it has an action; it then does just its actions.\<close>

theorem only_authentic_transactions_act:
  assumes "fst (deliver_tx E tx_bytes s) \<noteq> s \<or> snd (deliver_tx E tx_bytes s) = Inr ()"
  shows "\<exists>p tx. decode (msg_transaction E) tx_bytes = Some p \<and> transaction_try_from E (unsign_all p) = Inr tx \<and>
    (\<forall>sg \<in> set (tx_signatures p). verify E (ps_public_key sg) (ps_signature sg) (tx_hash E p)) \<and>
    map ps_public_key (tx_signatures p) = map actor (tx_actions tx) \<and>
    chain_id E s = Inr (tx_chain_id tx) \<and> tx_actions tx \<noteq> [] \<and>
    deliver_tx E tx_bytes s = for_each (perform E) (tx_actions tx) s"
proof -
  let ?r = "deliver_tx E tx_bytes s"
  have acts: "\<not> (\<exists>e. ?r = (s, Inl e))" using assms by auto
  then obtain tx where tx: "authenticated_from_proto E tx_bytes = Inr tx"
    by (cases "authenticated_from_proto E tx_bytes") (auto simp: deliver_tx_def)
  then obtain p where p: "decode (msg_transaction E) tx_bytes = Some p" "verify_all E p = Inr p"
    "transaction_try_from E (unsign_all p) = Inr tx"
    by (auto simp: authenticated_from_proto_def parse_error_of_verify_def authenticate_from_proto_def res_simps
        verify_all_eq split: sum.splits if_splits)
  have step: "?r = deliver_authenticated_tx E tx s" by (simp add: deliver_tx_def tx)
  obtain cid where cid: "chain_id E s = Inr cid"
    using acts step by (cases "chain_id E s") (auto simp: deliver_authenticated_tx_def)
  have ok: "cid = tx_chain_id tx" "tx_actions tx \<noteq> []"
    using acts step cid by (auto simp: deliver_authenticated_tx_def check_def split: if_splits)
  have "?r = for_each (perform E) (tx_actions tx) s"
    using step cid ok by (simp add: deliver_authenticated_tx_def)
  moreover have "\<forall>sg \<in> set (tx_signatures p). verify E (ps_public_key sg) (ps_signature sg) (tx_hash E p)"
    using p(2) by (auto simp: verify_all_eq split: if_splits)
  ultimately show ?thesis using p(1,3) transaction_actors [OF p(3)] cid ok by metis
qed

lemma sample_delivered:
  obtains buf where "transaction_sign_to_proto sample_env sample_signer sample_tx = Inr buf"
    "authenticated_from_proto sample_env buf = Inr sample_tx"
    "deliver_tx sample_env buf sample_block = observe sample_env sample_observation sample_block"
    "snd (deliver_tx sample_env buf sample_block) = Inr ()"
proof -
  obtain buf where buf: "transaction_sign_to_proto sample_env sample_signer sample_tx = Inr buf"
    using sample_tx_signed by blast
  have auth: "authenticated_from_proto sample_env buf = Inr sample_tx"
    using signed_authenticates [OF env_ok_sample sample_tx_ok(1) sample_signer_sound buf] by (simp add: sample_tx_ok(2))
  obtain s' where s': "observe sample_env sample_observation sample_block = (s', Inr ())"
    by (rule sample_observation_recorded)
  have "deliver_tx sample_env buf sample_block = observe sample_env sample_observation sample_block"
    by (simp add: deliver_tx_def auth deliver_authenticated_tx_def sample_block_reads sample_tx_def s')
  with buf auth s' that show thesis by simp
qed

theorem only_authentic_transactions_act_witness:
  "\<exists>buf p. decode (msg_transaction sample_env) buf = Some p \<and> map ps_public_key (tx_signatures p) = [[4, 2]] \<and>
     (\<forall>sg \<in> set (tx_signatures p). verify sample_env (ps_public_key sg) (ps_signature sg) (tx_hash sample_env p))"
proof -
  obtain buf where buf: "authenticated_from_proto sample_env buf = Inr sample_tx"
    "snd (deliver_tx sample_env buf sample_block) = Inr ()" by (rule sample_delivered)
  obtain p tx where p: "decode (msg_transaction sample_env) buf = Some p"
    "transaction_try_from sample_env (unsign_all p) = Inr tx"
    "\<forall>sg \<in> set (tx_signatures p). verify sample_env (ps_public_key sg) (ps_signature sg) (tx_hash sample_env p)"
    "map ps_public_key (tx_signatures p) = map actor (tx_actions tx)"
    using only_authentic_transactions_act [OF disjI2 [OF buf(2)]] by blast
  have "tx = sample_tx"
    using buf(1) p(1,2) by (auto simp: authenticated_from_proto_def authenticate_from_proto_def
        parse_error_of_verify_def res_simps verify_all_eq split: if_splits sum.splits)
  with p show ?thesis by (intro exI [of _ buf] exI [of _ p]) (simp add: sample_tx_def sample_observation_def)
qed

text \<open>C8: Delivering a transaction, whatever its bytes and whether it succeeds or not, keeps the chain
  state well formed and writes to the vote queues only: the configuration, the canonical table, the
  validators and the block parameters stay as they were.\<close>

theorem deliver_tx_writes_votes_only:
  fixes tx_bytes :: bytes
  assumes "chain_ok E s"
  defines "s' \<equiv> fst (deliver_tx E tx_bytes s)"
  shows "chain_ok E s' \<and> config E s' = config E s \<and> chain_id E s' = chain_id E s \<and>
    block_height E s' = block_height E s \<and> block_time E s' = block_time E s \<and>
    (\<forall>h. previous_app_hash E h s' = previous_app_hash E h s) \<and>
    (\<forall>d. canonical_hash E d s' = canonical_hash E d s) \<and> validators_view E s' = validators_view E s"
proof -
  have ok: "state_ok E s" "canonical_ok E s" using assms(1) by (simp_all add: chain_ok_def)
  then have kept: "state_ok E s'" "only_queues s s'"
    using deliver_tx_invariant [OF ok(1), of tx_bytes] by (simp_all add: s'_def kept_def)
  have "vget Canonical s' = vget Canonical s" using kept(2) by (simp add: only_queues_def fun_eq_iff)
  then have "canonical_ok E s'" using ok(2) canonical_ok_cong by metis
  with kept only_queues_reads [OF kept(2)] show ?thesis by (simp add: chain_ok_def)
qed

theorem deliver_tx_writes_votes_only_witness:
  "\<exists>buf. snd (deliver_tx sample_env buf sample_block) = Inr () \<and>
     config sample_env (fst (deliver_tx sample_env buf sample_block)) = Inr sample_config"
proof -
  obtain buf where buf: "snd (deliver_tx sample_env buf sample_block) = Inr ()" by (rule sample_delivered)
  have "chain_ok sample_env sample_block" by (simp add: chain_ok_def sample_block_ok)
  from deliver_tx_writes_votes_only [OF this, of buf] buf show ?thesis using sample_block_reads(1) by metis
qed

text \<open>The guards of an action, whichever it is.\<close>

definition action_allowed :: "env \<Rightarrow> config \<Rightarrow> contents \<Rightarrow> action \<Rightarrow> time \<Rightarrow> bool" where
  "action_allowed E c s a now = (case a of
     Reconfigure r \<Rightarrow> reconfiguration_allowed E c s r now
   | Observe ob \<Rightarrow> observation_allowed E c s ob now)"

lemma perform_refused:
  assumes "chain_ok E s" "config E s = Inr c" "block_time E s = Inr now" "action_safe E a"
    and "\<not> action_allowed E c s a now"
  shows "\<exists>e. perform E a s = (s, Inl e)"
proof (cases a)
  case (Reconfigure r)
  with assms(5) have "\<not> reconfiguration_allowed E c s r now" by (simp add: action_allowed_def)
  with reconfigure_guards [OF _ assms(2,3)] assms(1) Reconfigure show ?thesis by (simp add: chain_ok_def)
next
  case (Observe ob)
  then have "\<not> observation_allowed E c s ob t" for t
    using assms(3,5) by (auto simp: action_allowed_def observation_allowed_def Let_def fresh_blockstamp_def)
  with observe_refused [of E s c ob] assms(1,2,4) Observe show ?thesis by (simp add: chain_ok_def action_safe_def)
qed

text \<open>What performing actions keeps: the chain stays well formed, the configuration and the time of the
  block are read as before.\<close>

definition same_block :: "env \<Rightarrow> contents \<Rightarrow> contents \<Rightarrow> bool" where
  "same_block E s s' = (chain_ok E s' \<and> config E s' = config E s \<and> block_time E s' = block_time E s)"

lemma perform_same_block:
  assumes "chain_ok E s" "action_safe E a"
  shows "same_block E s (fst (perform E a s))"
proof -
  have "kept E s (fst (perform E a s))" using perform_invariant [OF _ assms(2)] assms(1) by (simp add: chain_ok_def)
  note k = keptD [OF this]
  have "canonical_ok E (fst (perform E a s))"
    using canonical_ok_cong [OF canonical_frames(3) [OF k(2)]] assms(1) by (simp add: chain_ok_def)
  with k show ?thesis by (simp add: same_block_def chain_ok_def)
qed

lemma performs_same_block:
  assumes "chain_ok E s" "\<forall>a \<in> set as. action_safe E a"
  shows "same_block E s (fst (for_each (perform E) as s))"
proof (rule for_each_invariant [where P = "same_block E s"])
  show "same_block E s s" using assms(1) by (simp add: same_block_def)
next
  fix a s' assume a: "a \<in> set as" "same_block E s s'"
  then have "same_block E s' (fst (perform E a s'))"
    using assms(2) by (intro perform_same_block) (simp_all add: same_block_def)
  with a(2) show "same_block E s (fst (perform E a s'))" by (simp add: same_block_def)
qed

text \<open>The vote of an observation, and its record when no value has a quorum yet.\<close>

definition observation_vote :: "env \<Rightarrow> observe_action \<Rightarrow> time \<Rightarrow> (prefix_order_domain, oracle_vote_value) vote" where
  "observation_vote E a now =
    \<lparr>vote_party = hex_encode E (oid_identity (obs_oracle a)), vote_time = now,
     vote_key = pod_of_domain (ob_domain (obs_observation a)),
     vote_value = \<lparr>ovv_hash_observed = ob_hash_observed (obs_observation a), ovv_zone = ob_zone (obs_observation a)\<rparr>\<rparr>"

definition votes_with :: "env \<Rightarrow> config \<Rightarrow> observe_action \<Rightarrow> time \<Rightarrow> contents
    \<Rightarrow> string \<times> string \<times> time \<Rightarrow> oracle_vote_value option" where
  "votes_with E c a now s =
    (let vt = observation_vote E a now
     in recorded (votes_view E (oracle_queue E (o_voting (oracles c))) s) (pod_display (vote_key vt)) (vote_party vt)
          now (vote_value vt))"

definition undecided :: "env \<Rightarrow> config \<Rightarrow> observe_action \<Rightarrow> time \<Rightarrow> contents \<Rightarrow> bool" where
  "undecided E c a now s \<longleftrightarrow>
    (\<forall>v. support (votes_with E c a now s) (pod_display (vote_key (observation_vote E a now))) v
       < unat (quorum (o_voting (oracles c))))"

lemma accepted_observation_votes:
  assumes "chain_ok E s" "config E s = Inr c" "block_time E s = Inr now" "observation_ok E (obs_observation a)"
    and "observe E a s = (s', Inr ())" "undecided E c a now s"
  shows "votes_view E (oracle_queue E (o_voting (oracles c))) s' = votes_with E c a now s"
proof -
  let ?Q = "oracle_queue E (o_voting (oracles c))" and ?vt = "observation_vote E a now" and ?ob = "obs_observation a"
  have st: "state_ok E s" "canonical_ok E s" using assms(1) by (simp_all add: chain_ok_def)
  note env = state_okD(6) [OF st(1)]
  obtain t where t: "observation_allowed E c s a t"
    using observe_refused [OF st assms(2,4)] assms(5) by fastforce
  then have "t = now" using assms(3) by (simp add: observation_allowed_def Let_def fresh_blockstamp_def)
  with observe_cast [OF st assms(2,4) t] have obs: "observe E a s = cast E ?Q ?vt s"
    by (simp add: observation_vote_def)
  have "castable E ?Q (pod_display (vote_key ?vt)) (vote_party ?vt) now (vote_value ?vt) (vote_value ?vt)"
    using oracle_cast_castable [OF env _ _ _ assms(3) state_okD(4) [OF st(1) assms(3)]] assms(4)
    by (simp add: observation_ok_def observation_vote_def pod_of_domain_def)
  then have cst: "castable E ?Q (key_to_string ?Q (vote_key ?vt)) (vote_party ?vt) (vote_time ?vt) (vote_value ?vt)
      (vote_value ?vt)" by (simp add: observation_vote_def)
  have V: "recorded (votes_view E ?Q s) (key_to_string ?Q (vote_key ?vt)) (vote_party ?vt) (vote_time ?vt) (vote_value ?vt)
      = votes_with E c a now s" by (simp add: votes_with_def observation_vote_def)
  show ?thesis
  proof (rule cast_effect [OF state_okD(1) [OF st(1)] tally_order_queues(1) [OF env] cst, unfolded V], goal_cases)
    case (1 s1)
    with obs assms(5) queue_becomesD(3) [OF 1(2)] show ?case by simp
  next
    case (2 s1 vs win)
    moreover have "support (votes_with E c a now s) (key_to_string ?Q (vote_key ?vt)) win < unat (quorum (q_config ?Q))"
      using assms(6) by (simp add: undecided_def)
    ultimately show ?case by linarith
  qed
qed

text \<open>C35: A transaction is not atomic. When an action fails, whichever and wherever it is, the transaction is
  reported as failed, but the state is the one the failing action leaves: if its guards refuse it, exactly
  the state that a successful transaction of the earlier actions alone gives. So the vote of the last
  observation before it is in the queue when no value had a quorum to decide the name.\<close>

theorem failed_transaction_keeps_earlier_votes:
  assumes "chain_ok E s" "config E s = Inr c" "block_time E s = Inr now"
    and "authenticated_from_proto E buf = Inr tx" "chain_id E s = Inr (tx_chain_id tx)"
    and "tx_actions tx = as @ a # bs" "for_each (perform E) as s = (s1, Inr ())" "perform E a s1 = (s2, Inl e)"
  shows "deliver_tx E buf s = (s2, Inl e) \<and>
    (\<not> action_allowed E c s1 a now \<longrightarrow> s2 = s1) \<and>
    (as \<noteq> [] \<longrightarrow> deliver_authenticated_tx E (tx\<lparr>tx_actions := as\<rparr>) s = (s1, Inr ())) \<and>
    (\<forall>xs ob s0. as = xs @ [Observe ob] \<and> for_each (perform E) xs s = (s0, Inr ()) \<and> undecided E c ob now s0 \<longrightarrow>
      votes_view E (oracle_queue E (o_voting (oracles c))) s1 = votes_with E c ob now s0)"
proof (intro conjI impI allI)
  have "state_ok E s" using assms(1) by (simp add: chain_ok_def)
  then have "\<forall>x \<in> set (tx_actions tx). action_safe E x"
    using transaction_try_from_safe [OF state_okD(6)] assms(4) by (auto simp: authenticated_from_proto_def res_simps)
  then have safe: "\<forall>x \<in> set as. action_safe E x" "action_safe E a" by (simp_all add: assms(6))
  have reach: "chain_ok E s'" "config E s' = Inr c" "block_time E s' = Inr now"
    if "for_each (perform E) xs s = (s', r)" "set xs \<subseteq> set as" for xs s' r
    using performs_same_block [OF assms(1), of xs] that safe(1) assms(2,3) by (auto simp: same_block_def)
  show "deliver_tx E buf s = (s2, Inl e)"
    by (simp add: deliver_tx_def assms(4-8) deliver_authenticated_tx_def check_def for_each_append)
  show "s2 = s1" if "\<not> action_allowed E c s1 a now"
    using perform_refused [OF reach [OF assms(7)] safe(2) that] assms(8) by simp
  show "deliver_authenticated_tx E (tx\<lparr>tx_actions := as\<rparr>) s = (s1, Inr ())" if "as \<noteq> []"
    using that by (simp add: deliver_authenticated_tx_def assms(5,7) check_def)
  fix xs ob s0
  assume last: "as = xs @ [Observe ob] \<and> for_each (perform E) xs s = (s0, Inr ()) \<and> undecided E c ob now s0"
  then have step: "andthen (observe E ob s0) (\<lambda>_. for_each (perform E) []) = (s1, Inr ())"
    using assms(7) by (simp add: for_each_append)
  obtain s' r where "observe E ob s0 = (s', r)" by fastforce
  with step have "observe E ob s0 = (s1, Inr ())" by (cases r) auto
  moreover have "observation_ok E (obs_observation ob)" using last safe(1) by (auto simp: action_safe_def)
  ultimately show "votes_view E (oracle_queue E (o_voting (oracles c))) s1 = votes_with E c ob now s0"
    using accepted_observation_votes [OF reach [of xs s0 "Inr ()"]] last by auto
qed

text \<open>An observation of the current oracle, and one signed by the admin, who is not an oracle.\<close>

definition sample_intruder :: observe_action where
  "sample_intruder = sample_observation\<lparr>obs_oracle := OracleIdentity [4, 1]\<rparr>"

definition sample_mixed_tx :: transaction where
  "sample_mixed_tx =
    \<lparr>tx_chain_id = ChainId ''felidae'', tx_actions = [Observe sample_observation, Observe sample_intruder]\<rparr>"

lemma sample_mixed_tx_authenticates:
  obtains buf where "authenticated_from_proto sample_env buf = Inr sample_mixed_tx"
proof -
  let ?p = "transaction_to_proto sample_env sample_mixed_tx"
  have ok: "transaction_ok sample_env sample_mixed_tx" "transaction_norm sample_mixed_tx = sample_mixed_tx"
    by (simp_all add: transaction_ok_def transaction_norm_def sample_mixed_tx_def sample_intruder_def
        sample_observation_def observation_ok_def sample_subdomain_def sample_zone_def i64_max_def)
  have "tx_signatures ?p = [PSignature [4, 2] [], PSignature [4, 1] []]"
    by (simp add: tx_signatures_def transaction_to_proto_def sample_mixed_tx_def action_signatures_def
        observe_to_proto_def signature_of_oracle_identity_def signature_unsigned_def sample_observation_def
        sample_intruder_def)
  then have "\<forall>sg \<in> set (tx_signatures ?p). can_sign sample_signer (tx_hash sample_env ?p) sg"
    by (simp add: can_sign_def sample_signer_def keypairs_sign_with_def keypairs_from_iter_def
        keypairs_insert_def keypairs_new_def keypair_sign_with_def keypair_public_key_def sample_env_def)
  then have "\<exists>p. sign_all sample_env sample_signer ?p = Inr p" unfolding sign_all_Inr by blast
  then obtain buf where "transaction_sign_to_proto sample_env sample_signer sample_mixed_tx = Inr buf"
    by (auto simp: transaction_sign_to_proto_def sign_to_proto_def)
  from signed_authenticates [OF env_ok_sample ok(1) sample_signer_sound this] ok(2) that show thesis by simp
qed

theorem failed_transaction_keeps_earlier_votes_witness:
  "\<exists>buf s'. deliver_tx sample_env buf sample_block = (s', Inl NotCurrentOracle) \<and>
     votes_view sample_env (sample_queue 2) sample_block (sample_key, ''0402'', sample_time + 60000000000) = None \<and>
     votes_view sample_env (sample_queue 2) s' (sample_key, ''0402'', sample_time + 60000000000) = Some sample_vote_value \<and>
     deliver_authenticated_tx sample_env sample_tx sample_block = (s', Inr ())"
proof -
  obtain buf where buf: "authenticated_from_proto sample_env buf = Inr sample_mixed_tx"
    by (rule sample_mixed_tx_authenticates)
  obtain s' where s': "observe sample_env sample_observation sample_block = (s', Inr ())"
    "votes_view sample_env (sample_queue 2) s' (sample_key, ''0402'', sample_time + 60000000000) = Some sample_vote_value"
    by (rule sample_observation_recorded)
  have chain: "chain_ok sample_env sample_block" by (simp add: chain_ok_def sample_block_ok)
  have "kept sample_env sample_block s'"
    using observe_invariant [OF sample_block_ok(1) sample_observation_ok] by (simp add: s'(1))
  then have "config sample_env s' = Inr sample_config" by (simp add: keptD sample_block_reads(1))
  moreover have not: "\<not> is_current_oracle sample_config (obs_oracle sample_intruder)"
    by (simp add: is_current_oracle_def sample_intruder_def sample_config_def)
  ultimately have refused: "perform sample_env (Observe sample_intruder) s' = (s', Inl NotCurrentOracle)"
    by (simp add: observe_def Let_def)
  have acts: "tx_actions sample_mixed_tx = [Observe sample_observation] @ Observe sample_intruder # []"
    "tx_chain_id sample_mixed_tx = ChainId ''felidae''" by (simp_all add: sample_mixed_tx_def)
  have first: "for_each (perform sample_env) [Observe sample_observation] sample_block = (s', Inr ())" by (simp add: s'(1))
  have id: "chain_id sample_env sample_block = Inr (tx_chain_id sample_mixed_tx)" by (simp add: acts(2) sample_block_reads)
  have tx: "sample_mixed_tx\<lparr>tx_actions := [Observe sample_observation]\<rparr> = sample_tx"
    by (simp add: sample_mixed_tx_def sample_tx_def)
  from failed_transaction_keeps_earlier_votes [OF chain sample_block_reads(1,3) buf id acts(1) first refused] s'(2)
  show ?thesis unfolding tx by (intro exI [of _ buf] exI [of _ s']) (simp add: sample_queue_views)
qed

section \<open>The enrollment limit\<close>

text \<open>C15: The limit check counts every name at or below the registered domain that is enrolled in the
  canonical table or waiting in the pending queue, each once; a name already counted is let through, a
  new one only while the count is below the configured maximum.\<close>

theorem enrollment_limit_is_exact:
  assumes "state_ok E s" "canonical_ok E s" "config E s = Inr c"
    and "fqdn_valid E (pod_name r)" "pod_name r \<noteq> fqdn_root"
  defines "N \<equiv> {p. fqdn_valid E (pod_name p) \<and> fqdn_is_subdomain_of (pod_name p) (pod_name r) \<and>
    (canonical_view E s (domain_of_pod p) \<noteq> None \<or> pending_name E s p)}"
  shows "check_subdomain_limit_before_pending_exact E p r s =
    (if p \<in> N \<or> card N < unat (max_enrolled_subdomains (oracles c)) then Inr () else Inl SubdomainLimit)"
  using limit_check_eq [OF assms(1-5), of p] by (simp add: N_def enrolled_def)

theorem enrollment_limit_is_exact_witness:
  "check_subdomain_limit_before_pending_exact sample_env (pod_of_domain sample_subdomain)
     (PrefixOrderDomain [''example'', ''com'']) sample_block = Inr ()"
proof -
  have none: "{p. fqdn_valid sample_env (pod_name p) \<and> fqdn_is_subdomain_of (pod_name p) [''example'', ''com''] \<and>
      (canonical_view sample_env sample_block (domain_of_pod p) \<noteq> None \<or> pending_name sample_env sample_block p)} = {}"
    using sample_enrolled [of "PrefixOrderDomain [''example'', ''com'']"] by (simp add: enrolled_def)
  have "unat (max_enrolled_subdomains (oracles sample_config)) = 1" by (simp add: sample_config_def)
  then show ?thesis
    using enrollment_limit_is_exact [OF sample_block_ok sample_block_reads(1), of "PrefixOrderDomain [''example'', ''com'']"]
    unfolding prefix_order_domain.sel none by (simp add: fqdn_root_def)
qed

end
