(* ===== verification/Props_Chain.thy ===== *)
theory Props_Chain
  imports Props_Actions
begin

text \<open>
  The properties of the chain: its start, the blocks and commits, the canonical table, and the
  requests that only look.
\<close>

section \<open>The start of the chain\<close>

text \<open>C20: Initialising an empty chain at height 1 with a readable genesis succeeds and leaves a well-formed
  state with the configuration of the request in its stored normal form (\<open>config_norm\<close>: numbers clamped,
  whole seconds, an empty endpoint filled in), its chain id and validators, an empty canonical table and
  empty queues; the app hash returned is the hash of the request.\<close>

theorem init_chain_starts_well_formed:
  assumes "env_ok E" "ic_initial_height req = 1" "validators_ok E (ic_validators req)" "ic_chain_id req \<noteq> []"
    and "genesis_config E (ic_app_state_bytes req) = Inr cfg"
  shows "\<exists>s'. init_chain E req empty_contents =
      (s', Inr \<lparr>icr_consensus_params = Some (ic_consensus_params req), icr_validators = ic_validators req,
                icr_app_hash = sha256 E (init_chain_request_encode E req)\<rparr>) \<and>
    chain_ok E s' \<and> config E s' = Inr (config_norm cfg) \<and> chain_id E s' = Inr (ChainId (ic_chain_id req)) \<and>
    validators_view E s' = map_of (map (\<lambda>v. (vu_pub_key v, vu_power v)) (ic_validators req)) \<and>
    (\<forall>d. canonical_hash E d s' = Inr None) \<and>
    (\<forall>c. pending_view E (oracle_queue E c) s' = Map.empty \<and> votes_view E (admin_queue E c) s' = Map.empty)"
proof (rule init_chain_effect [OF assms, where c = "a_voting (admins cfg)"], goal_cases)
  case (1 s')
  have can: "canonical_ok E s'" using 1(6) by (simp add: canonical_ok_def)
  have "canonical_hash E d s' = Inr None" for d
    unfolding canonical_hash_eq [OF assms(1) can] by (simp add: canonical_view_def 1(6))
  moreover have "\<forall>c. pending_view E (oracle_queue E c) s' = Map.empty \<and> votes_view E (admin_queue E c) s' = Map.empty"
    using 1(8,9) views_any_config(2,3) by metis
  ultimately show ?case using 1(1-5) can by (intro exI [of _ s']) (simp add: chain_ok_def)
qed

theorem init_chain_starts_well_formed_witness:
  "\<exists>resp. init_chain sample_env sample_genesis empty_contents = (sample_state, Inr resp) \<and>
     chain_ok sample_env sample_state"
proof -
  have "ic_chain_id sample_genesis \<noteq> []" by simp
  from init_chain_starts_well_formed [OF env_ok_sample sample_genesis_ok(1,3) this sample_genesis_ok(4)]
  obtain s' resp where "init_chain sample_env sample_genesis empty_contents = (s', Inr resp)" "chain_ok sample_env s'"
    by blast
  then show ?thesis by (simp add: sample_state_def)
qed

text \<open>A chain that has an id cannot be initialised again: the request fails and changes nothing.\<close>

theorem second_init_chain_fails:
  assumes "env_ok E" "chain_id E s = Inr c" "ic_initial_height req = 1"
  shows "init_chain E req s = (s, Inl ChainIdAlreadySet)"
  using assms by (simp add: init_chain_def set_chain_id_def env_app_hash [OF assms(1)])

theorem second_init_chain_fails_witness:
  "init_chain sample_env sample_genesis sample_state = (sample_state, Inl ChainIdAlreadySet)"
  by (rule second_init_chain_fails [OF env_ok_sample sample_state(3) sample_genesis_ok(1)])

section \<open>Blocks\<close>

text \<open>Finalizing a block always succeeds on a well-formed state: there is one result for each
  transaction, the height and time are the block's, the configuration is the old one or one of a higher
  version, the validator updates are the validators with power, and the state is well formed again.\<close>

theorem finalize_block_succeeds:
  assumes "chain_ok E s" "request_ok req" "config E s = Inr c"
  shows "\<exists>s' c' results us. finalize_block E req s =
      (s', Inr \<lparr>fbr_tx_results = results, fbr_validator_updates = us, fbr_app_hash = []\<rparr>) \<and>
    chain_ok E s' \<and> length results = length (fb_txs req) \<and>
    block_height E s' = Inr (fb_height req) \<and> block_time E s' = Inr (fb_time req) \<and>
    config E s' = Inr c' \<and> (c' = c \<or> version c < version c') \<and>
    set us = {Update pk pw | pk pw. validators_view E s' pk = Some pw \<and> 0 < pw}"
proof -
  have ok: "state_ok E s" "canonical_ok E s" using assms(1) by (simp_all add: chain_ok_def)
  show ?thesis
  proof (rule finalize_block_effect [OF ok(1) assms(2,3)], goal_cases)
    case (1 s' c' results us)
    then obtain m where m: "state_ok E m" "vget Canonical m = vget Canonical s" "canonical_after E c' (fb_time req) m s'"
      by blast
    then have "canonical_ok E m" using ok(2) canonical_ok_cong by metis
    then have "chain_ok E s'" using canonical_ok_after [OF m(1) _ m(3)] 1(2) by (simp add: chain_ok_def)
    with 1 show ?case by blast
  qed
qed

theorem finalize_block_succeeds_witness:
  "\<exists>s' us. finalize_block sample_env sample_request sample_state =
     (s', Inr \<lparr>fbr_tx_results = [], fbr_validator_updates = us, fbr_app_hash = []\<rparr>) \<and>
     block_height sample_env s' = Inr 1"
proof -
  have "chain_ok sample_env sample_state" by (simp add: chain_ok_def sample_state(1))
  from finalize_block_succeeds [OF this sample_request_ok sample_state(2)] show ?thesis
    by (auto simp: sample_request_def)
qed

text \<open>C5: The end of a block changes the configuration only to a pending one whose delay has passed and
  whose version is higher, and writes to the canonical table exactly the observations whose delay has
  passed under that configuration: a hash observed is stored, \<open>NotFound\<close> removes the name, every other
  name keeps its entry.\<close>

theorem end_block_applies_ripe_changes:
  assumes "state_ok E s" "block_time E s = Inr now" "config E s = Inr c"
  shows "\<exists>s' us c'. end_block E s = (s', Inr us) \<and> config E s' = Inr c' \<and>
    (c' = c \<or> version c < version c' \<and> (\<exists>t. pending_view E (admin_queue E (a_voting (admins c))) s ([], t) = Some c' \<and>
      expired now (delay (a_voting (admins c))) t)) \<and>
    (let P = pending_view E (oracle_queue E (o_voting (oracles c'))) s; ripe = expired now (delay (o_voting (oracles c')))
     in \<forall>k. (\<forall>t v h. P (k, t) = Some v \<and> ripe t \<and> ovv_hash_observed v = Hash h \<longrightarrow>
                vget Canonical s' k = Some (bytes_encode E h)) \<and>
            (\<forall>t v. P (k, t) = Some v \<and> ripe t \<and> ovv_hash_observed v = NotFound \<longrightarrow> vget Canonical s' k = None) \<and>
            ((\<forall>t v. P (k, t) = Some v \<longrightarrow> \<not> ripe t) \<longrightarrow> vget Canonical s' k = vget Canonical s k))"
proof (rule end_block_effect [OF assms], goal_cases)
  case (1 s' us c')
  note after = 1(8) [unfolded canonical_after_def promoted_hash_def]
  show ?case
    unfolding Let_def
    by (rule exI [of _ s'], rule exI [of _ us], rule exI [of _ c'], intro conjI 1(1,3,4)) (use after in blast)
qed

lemma sample_pending_state:
  "state_ok sample_env sample_pending" "block_time sample_env sample_pending = Inr (sample_time + 60000000000)"
  "config sample_env sample_pending = Inr sample_config"
  "pending_view sample_env (admin_queue sample_env c) sample_pending = Map.empty"
proof -
  note b = queue_becomesD [OF sample_pending]
  have out: "same_outside ''oracle_voting/'' sample_block sample_pending" using b(2) by simp
  show ok: "state_ok sample_env sample_pending"
    by (rule state_ok_queue_write [OF sample_block_ok(1), where c = "q_config (sample_queue 1)", OF disjI1])
      (use b(1) out in \<open>simp add: sample_queue_def\<close>)
  show "block_time sample_env sample_pending = Inr (sample_time + 60000000000)"
    "config sample_env sample_pending = Inr sample_config"
    using reads_outside [OF out] sample_block_reads by simp_all
  have "same_queue ''admin_voting/'' sample_block sample_pending"
    by (rule same_outside_disjoint [OF out queues_disjoint(1)])
  then show "pending_view sample_env (admin_queue sample_env c) sample_pending = Map.empty"
    using queue_ok_cong(3) [OF _ state_okD(7) [OF ok] sample_block_views(2), of c] sample_block_views(6) by simp
qed

theorem end_block_applies_ripe_changes_witness:
  "\<exists>s' us. end_block sample_env sample_pending = (s', Inr us) \<and>
     vget Canonical s' sample_key = Some (bytes_encode sample_env (replicate 32 5))"
  using end_block_applies_ripe_changes [OF sample_pending_state(1-3)] unfolding Let_def
proof (elim exE conjE, goal_cases)
  case (1 s' us c')
  have c': "c' = sample_config" using 1(3) by (simp add: sample_pending_state(4))
  have "pending_view sample_env (oracle_queue sample_env (o_voting (oracles c'))) sample_pending (sample_key, sample_time)
      = Some sample_vote_value"
    using sample_pending_views(4) views_any_config(2) [of sample_env "o_voting (oracles c')" sample_pending "q_config (sample_queue 1)"]
    by (simp add: sample_queue_def)
  moreover have "expired (sample_time + 60000000000) (delay (o_voting (oracles c'))) sample_time"
    unfolding c' by (simp add: expired_def elapsed_eq sample_config_def from_secs_def nanos_per_sec_def)
  moreover have "ovv_hash_observed sample_vote_value = Hash (replicate 32 5)" by (simp add: sample_vote_value_def)
  ultimately have "vget Canonical s' sample_key = Some (bytes_encode sample_env (replicate 32 5))"
    using conjunct1 [OF spec [OF 1(4), of sample_key]] by blast
  with 1(1) show ?case by blast
qed

lemma previous_height_cut:
  assumes "h \<noteq> 0" "h < 2 ^ 32"
  shows "previous_block_height h = h - 1"
proof -
  have "unat (h - 1) < unat h" by (rule measure_unat [OF assms(1)])
  also have "unat h < 2 ^ 32" using assms(2) by (simp add: word_less_nat_alt)
  finally have "take_bit 64 (take_bit 32 (unat (h - 1))) = unat (h - 1)" by (simp add: take_bit_nat_eq_self)
  then have "unat (ucast (ucast (h - 1) :: u32) :: u64) = unat (h - 1)" by (simp add: unsigned_ucast_eq unsigned_take_bit_eq)
  then show ?thesis using assms(1) by (simp add: previous_block_height_def word_unat_eq_iff)
qed

text \<open>C16: The blockstamp of a committed block passes in the next block: the app hash recorded when the next
  block starts is the one an observation of the committed block must carry, until the observation timeout
  has passed; an observation with any other app hash is refused. (Heights beyond \<open>u32\<close> are cut by the
  code, and excluded here.)\<close>

theorem committed_blockstamp_is_accepted:
  assumes "state_ok E s" "block_height E s = Inr h" "h \<noteq> 0" "h < 2 ^ 32" "time_of_block E h s = Inr t"
    and "request_ok req" "h < fb_height req" "t \<le> fb_time req" "config E s = Inr c"
    and "nat (fb_time req - t) < observation_timeout (oracles c)"
  shows "\<exists>s1 s2. record_app_hash E a s = (s1, Inr ()) \<and> begin_block E req s1 = (s2, Inr ()) \<and>
    (\<forall>a'. check_blockstamp E c (Blockstamp h a') s2 = (if a' = a then Inr (fb_time req) else Inl AppHashMismatch))"
proof -
  obtain s1 where s1: "record_app_hash E a s = (s1, Inr ())" "state_ok E s1" "config E s1 = config E s"
    "block_height E s1 = Inr h" "block_time E s1 = block_time E s" "previous_app_hash E (h - 1) s1 = Inr a"
    by (rule record_app_hash_effect [OF assms(1-3), of a]) blast
  have "s1 = put (app_hash_encode E) Internal (''apphash/'' @ pad_height (h - 1)) a s"
    using s1(1) assms(2) by (auto simp: record_app_hash_def lift_res_def ok_or_def split: sum.splits option.splits
        if_splits) (metis env_height option.discI option.inject state_okD(6) assms(1))
  then have t1: "time_of_block E h s1 = Inr t" using assms(5) by (simp add: time_of_block_def get_simps)
  obtain s2 where s2: "begin_block E req s1 = (s2, Inr ())" "block_height E s2 = Inr (fb_height req)"
    "block_time E s2 = Inr (fb_time req)"
    "\<forall>h. h \<noteq> fb_height req \<longrightarrow> time_of_block E h s2 = time_of_block E h s1"
    "\<forall>h. previous_app_hash E h s2 = previous_app_hash E h s1"
    by (rule begin_block_effect [OF s1(2) assms(6)]) blast
  have cut: "previous_block_height h = h - 1" by (rule previous_height_cut [OF assms(3,4)])
  have "time_of_block E h s2 = Inr t" using s2(4) t1 assms(7) by auto
  moreover have "previous_app_hash E (previous_block_height h) s2 = Inr a" using s2(5) s1(6) cut by simp
  moreover have "duration_since (fb_time req) t = Some (nat (fb_time req - t))" using assms(8) by (simp add: duration_since_def)
  ultimately have "\<forall>a'. check_blockstamp E c (Blockstamp h a') s2 = (if a' = a then Inr (fb_time req) else Inl AppHashMismatch)"
    using s2(2,3) assms(7,10) by (auto simp: check_blockstamp_def check_def)
  with s1(1) s2(1) show ?thesis by blast
qed

definition sample_next_request :: finalize_block_request where
  "sample_next_request = sample_request\<lparr>fb_height := 3, fb_time := sample_time + 120000000000\<rparr>"

theorem committed_blockstamp_is_accepted_witness:
  "\<exists>s1 s2. record_app_hash sample_env [1] sample_block = (s1, Inr ()) \<and>
     begin_block sample_env sample_next_request s1 = (s2, Inr ()) \<and>
     check_blockstamp sample_env sample_config (Blockstamp 2 [1]) s2 = Inr (sample_time + 120000000000)"
proof -
  have t: "time_of_block sample_env 2 sample_block = Inr (sample_time + 60000000000)"
    unfolding sample_block_eq time_of_block_def by (simp add: get_simps time_codec [OF env_ok_sample])
  have req: "request_ok sample_next_request"
    by (simp add: request_ok_def sample_next_request_def sample_request_def i64_max_def sample_time_def time_ok_def
        unix_timestamp_def)
  have "\<exists>s1 s2. record_app_hash sample_env [1] sample_block = (s1, Inr ()) \<and>
    begin_block sample_env sample_next_request s1 = (s2, Inr ()) \<and>
    (\<forall>a'. check_blockstamp sample_env sample_config (Blockstamp 2 a') s2 =
      (if a' = [1] then Inr (fb_time sample_next_request) else Inl AppHashMismatch))"
    by (rule committed_blockstamp_is_accepted [OF sample_block_ok(1) sample_block_reads(2) _ _ t req _ _ sample_block_reads(1)])
      (simp_all add: sample_next_request_def sample_config_def from_secs_def nanos_per_sec_def)
  moreover have "fb_time sample_next_request = sample_time + 120000000000" by (simp add: sample_next_request_def)
  ultimately show ?thesis by metis
qed

text \<open>C36: What \<open>FinalizeBlock\<close> is told about votes of the last commit and about misbehaviour has no effect:
  a validator reported as byzantine keeps its power.\<close>

theorem misbehavior_has_no_effect:
  assumes "state_ok E s"
  shows "finalize_block E (req\<lparr>fb_misbehavior := ms, fb_votes := vs\<rparr>) s = finalize_block E req s"
  by (simp add: finalize_block_def begin_block_def mark_validators_voted_eq [OF assms] tombstone_all_eq [OF assms])

theorem misbehavior_has_no_effect_witness:
  "finalize_block sample_env (sample_request\<lparr>fb_misbehavior := [validator_address sample_env (Ed25519 (replicate 32 7))],
     fb_votes := []\<rparr>) sample_state = finalize_block sample_env sample_request sample_state"
  by (rule misbehavior_has_no_effect [OF sample_state(1)])

section \<open>The service\<close>

text \<open>C3: From a well-formed state every block goes through: \<open>FinalizeBlock\<close> succeeds with one result per
  transaction and leaves the pending state at the committed one, the \<open>Commit\<close> after it returns the app
  hash that \<open>FinalizeBlock\<close> announced, and the node stands at the new height in a well-formed state.\<close>

theorem every_block_commits:
  assumes "chain_ok E (pending st)" "request_ok req"
  shows "\<exists>st1 resp st2. call E (RFinalizeBlock req) st = (st1, Inr (FinalizeBlockResponse resp)) \<and>
    length (fbr_tx_results resp) = length (fb_txs req) \<and> pending st1 = committed st \<and> committed st1 = committed st \<and>
    call E RCommit st1 = (st2, Inr (CommitResponse (fbr_app_hash resp))) \<and>
    pending st2 = committed st2 \<and> staged st2 = None \<and> chain_ok E (pending st2) \<and>
    block_height E (pending st2) = Inr (fb_height req) \<and> block_time E (pending st2) = Inr (fb_time req) \<and>
    root_hash E None st2 = fbr_app_hash resp"
proof -
  have ok: "state_ok E (pending st)" "canonical_ok E (pending st)" using assms(1) by (simp_all add: chain_ok_def)
  show ?thesis
  proof (rule finalize_pending_effect [OF ok(1) assms(2)], goal_cases)
    case (1 s' results us)
    let ?st1 = "st\<lparr>pending := committed st, staged := Some s'\<rparr>"
    have "call_commit E ?st1 = (\<lparr>committed = s', pending = s', staged = None\<rparr>, Inr (root_hash_of E None s'))"
      by (rule commit_staged_effect [OF state_okD(6) [OF ok(1)]]) simp
    with 1 ok(2) show ?case
      by (intro exI [of _ ?st1] exI [of _ "\<lparr>fbr_tx_results = results, fbr_validator_updates = us,
          fbr_app_hash = root_hash_of E None s'\<rparr>"] exI [of _ "\<lparr>committed = s', pending = s', staged = None\<rparr>"])
        (simp add: chain_ok_def root_hash_def)
  qed
qed

definition sample_start :: store where
  "sample_start = (store_new empty_contents)\<lparr>pending := sample_state\<rparr>"

theorem every_block_commits_witness:
  "\<exists>st1 resp st2. call sample_env (RFinalizeBlock sample_request) sample_start = (st1, Inr (FinalizeBlockResponse resp)) \<and>
     call sample_env RCommit st1 = (st2, Inr (CommitResponse (fbr_app_hash resp))) \<and>
     block_height sample_env (committed st2) = Inr 1"
proof -
  have "chain_ok sample_env (pending sample_start)" by (simp add: sample_start_def chain_ok_def sample_state(1))
  from every_block_commits [OF this sample_request_ok] show ?thesis by (auto simp: sample_request_def)
qed

text \<open>\<open>CheckTx\<close> answers exactly what delivering the transaction to the pending state would answer, and
  leaves the node as it was.\<close>

theorem check_tx_is_dry_run:
  "call E (RCheckTx tx) st = (st, Inr (CheckTxResponse (snd (deliver_tx E tx (pending st)))))"
  by (simp add: call_check_tx_def fork_def on_pending_def split_def Let_def)

text \<open>A \<open>Commit\<close> without a block finalized before it fails and changes nothing.\<close>

theorem commit_needs_finalized_block:
  assumes "staged st = None"
  shows "call E RCommit st = (st, Inl (Failed NoStagedBatch))"
  using assms by (simp add: call_commit_def commit_def)

theorem commit_needs_finalized_block_witness:
  "call sample_env RCommit sample_start = (sample_start, Inl (Failed NoStagedBatch))"
  by (rule commit_needs_finalized_block) (simp add: sample_start_def store_new_def)

lemma sint_of_nat_add:
  assumes "m + n < 2 ^ 63"
  shows "sint (word_of_nat m + word_of_nat n :: i64) = int (m + n)"
proof -
  have "word_of_nat m + word_of_nat n = (word_of_nat (m + n) :: i64)" by (rule of_nat_add [symmetric])
  moreover have "sint (word_of_nat (m + n) :: i64) = signed_take_bit 63 (int (m + n))"
    by (simp add: signed_of_nat del: of_nat_add)
  moreover have "signed_take_bit 63 (int (m + n)) = int (m + n)"
    by (rule signed_take_bit_int_eq_self) (use assms in simp_all)
  ultimately show ?thesis by (simp only:)
qed

lemma prepare_proposal_loop_fits:
  assumes "used + sum_list (map length txs) < 2 ^ 63" "int used \<le> sint m"
  shows "\<exists>rest. txs = prepare_proposal_loop m (word_of_nat used) txs @ rest \<and>
    int (used + sum_list (map length (prepare_proposal_loop m (word_of_nat used) txs))) \<le> sint m \<and>
    (rest \<noteq> [] \<longrightarrow> sint m < int (used + sum_list (map length (prepare_proposal_loop m (word_of_nat used) txs)) + length (hd rest)))"
  using assms
proof (induction txs arbitrary: used)
  case (Cons tx txs)
  have sum: "sint (word_of_nat used + word_of_nat (length tx) :: i64) = int (used + length tx)"
    by (rule sint_of_nat_add) (use Cons.prems(1) in simp)
  show ?case
  proof (cases "sint m < int (used + length tx)")
    case True
    then show ?thesis using Cons.prems(2) by (simp add: Let_def sum)
  next
    case False
    have total: "word_of_nat used + word_of_nat (length tx) = (word_of_nat (used + length tx) :: i64)" by simp
    let ?taken = "prepare_proposal_loop m (word_of_nat (used + length tx)) txs"
    obtain rest where rest: "txs = ?taken @ rest" "int (used + length tx + sum_list (map length ?taken)) \<le> sint m"
      "rest \<noteq> [] \<longrightarrow> sint m < int (used + length tx + sum_list (map length ?taken) + length (hd rest))"
      using Cons.IH [of "used + length tx"] Cons.prems(1) False by auto
    have "prepare_proposal_loop m (word_of_nat used) (tx # txs) = tx # ?taken"
      by (simp only: prepare_proposal_loop.simps(2) Let_def total sum [unfolded total] False if_False)
    moreover have "used + sum_list (map length (tx # ?taken)) = used + length tx + sum_list (map length ?taken)" by simp
    ultimately show ?thesis using rest by (intro exI [of _ rest]) (simp only: append_Cons simp_thms)
  qed
qed simp

text \<open>C37: A proposal takes the transactions in their order, as long as they fit: it is the longest prefix
  whose total size is at most the maximum (sizes that do not overflow \<open>i64\<close>).\<close>

theorem prepare_proposal_longest_prefix:
  assumes "sum_list (map length txs) < 2 ^ 63" "0 \<le> sint max_bytes"
  shows "\<exists>taken rest. call E (RPrepareProposal max_bytes txs) st = (st, Inr (PrepareProposalResponse taken)) \<and>
    txs = taken @ rest \<and> int (sum_list (map length taken)) \<le> sint max_bytes \<and>
    (rest \<noteq> [] \<longrightarrow> sint max_bytes < int (sum_list (map length taken) + length (hd rest)))"
  using prepare_proposal_loop_fits [of 0 txs max_bytes] assms by (simp add: prepare_proposal_def)

theorem prepare_proposal_longest_prefix_witness:
  "\<exists>taken. call sample_env (RPrepareProposal 3 [[1, 2], [3], [4]]) sample_start =
     (sample_start, Inr (PrepareProposalResponse taken)) \<and> int (sum_list (map length taken)) \<le> 3"
  using prepare_proposal_longest_prefix [of "[[1, 2], [3], [4]]" 3 sample_env sample_start] by auto

end
