(* ===== verification/Query_Api.thy ===== *)
theory Query_Api
  imports Enrollment
begin

text \<open>
  The HTTP query interface of a node: \<open>crates/felidae/src/cli/start/query.rs\<close>, with the response types
  of \<open>crates/felidae-types/src/response.rs\<close>. Every endpoint reads the latest snapshot of the storage,
  the committed contents of the store. A body is the value the handler serialises; the JSON text made
  of it by \<open>serde_json\<close>, and the message made of an error, are not modelled. The streaming body of
  \<open>/snapshot\<close> is the list of its chunks.
\<close>

section \<open>Response types\<close>

record oracle_vote =
  ov_oracle :: string
  ov_time :: time
  ov_domain :: domain
  ov_hash :: hash_observed

record pending_observation =
  po_time :: time
  po_domain :: domain
  po_hash :: hash_observed

record admin_vote =
  av_admin :: string
  av_time :: time
  av_config :: config

record pending_config =
  pc_time :: time
  pc_config :: config

record oracle_info =
  oi_identity :: string
  oi_endpoint :: string

record merkle_proof_info =
  mp_representative_key :: string
  mp_proof_bytes :: "string list"

record leaves_proof =
  lp_canonical_root_hash :: string
  lp_app_hash :: string
  lp_merkle_proof :: "merkle_proof_info option"

record canonical_leaves_response =
  cl_block_height :: height
  cl_leaves :: "(string \<times> string) list"
  cl_proof :: leaves_proof

datatype status_code = StatusOk | StatusBadRequest | StatusInternalServerError

datatype body =
    ErrorText error
  | InvalidDomainName
  | EndpointsJson "(string \<times> string) list"
  | ConfigJson config
  | OraclesJson "oracle_info list"
  | LeavesJson canonical_leaves_response
  | AdminVotesJson "admin_vote list"
  | AdminPendingJson "pending_config list"
  | EnrollmentVotesJson "oracle_vote list"
  | EnrollmentPendingJson "pending_observation list"
  | Chunks "(error + string) list"

record http_response =
  hr_status :: status_code
  hr_content_type :: string
  hr_body :: body

text \<open>The \<open>match\<close> every handler ends with.\<close>

definition json_or_error :: "('a \<Rightarrow> body) \<Rightarrow> error + 'a \<Rightarrow> http_response" where
  "json_or_error f r =
    (case r of
       Inl e \<Rightarrow> \<lparr>hr_status = StatusInternalServerError, hr_content_type = ''text/plain'', hr_body = ErrorText e\<rparr>
     | Inr x \<Rightarrow> \<lparr>hr_status = StatusOk, hr_content_type = ''application/json'', hr_body = f x\<rparr>)"

section \<open>The configuration and the oracles\<close>

definition config_endpoint :: "env \<Rightarrow> store \<Rightarrow> http_response" where
  "config_endpoint E st = json_or_error ConfigJson (config E (committed st))"

definition oracles_endpoint :: "env \<Rightarrow> store \<Rightarrow> http_response" where
  "oracles_endpoint E st =
    json_or_error
      (\<lambda>c. OraclesJson (map (\<lambda>oracle. \<lparr>oi_identity = hex_encode E (or_identity oracle),
        oi_endpoint = or_endpoint oracle\<rparr>) (o_authorized (oracles c))))
      (config E (committed st))"

section \<open>Votes and pending changes\<close>

definition admin_votes_endpoint :: "env \<Rightarrow> store \<Rightarrow> http_response" where
  "admin_votes_endpoint E st =
    json_or_error AdminVotesJson
      (ebind (admin_voting E (committed st)) (\<lambda>Q.
       ebind (votes_for_key_prefix E Q () None (committed st)) (\<lambda>votes.
       Inr (map (\<lambda>v. \<lparr>av_admin = vote_party v, av_time = vote_time v, av_config = vote_value v\<rparr>) votes))))"

definition admin_pending_endpoint :: "env \<Rightarrow> store \<Rightarrow> http_response" where
  "admin_pending_endpoint E st =
    json_or_error AdminPendingJson
      (ebind (admin_voting E (committed st)) (\<lambda>Q.
       ebind (pending_for_key_prefix E Q () None (committed st)) (\<lambda>pending.
       Inr (map (\<lambda>(t, _, value). \<lparr>pc_time = t, pc_config = value\<rparr>) pending))))"

definition enrollment_votes_endpoint :: "env \<Rightarrow> domain \<Rightarrow> store \<Rightarrow> http_response" where
  "enrollment_votes_endpoint E d st =
    json_or_error EnrollmentVotesJson
      (ebind (oracle_voting E (committed st)) (\<lambda>Q.
       ebind (if domain_name d \<noteq> fqdn_root
              then votes_for_key_prefix E Q (pod_of_domain d) (Some CHR ''.'') (committed st)
              else votes_for_key_prefix E Q (pod_of_domain (Domain fqdn_root)) None (committed st)) (\<lambda>votes.
       Inr (map (\<lambda>v. \<lparr>ov_oracle = vote_party v, ov_time = vote_time v, ov_domain = domain_of_pod (vote_key v),
         ov_hash = ovv_hash_observed (vote_value v)\<rparr>) votes))))"

definition enrollment_pending_endpoint :: "env \<Rightarrow> domain \<Rightarrow> store \<Rightarrow> http_response" where
  "enrollment_pending_endpoint E d st =
    json_or_error EnrollmentPendingJson
      (ebind (oracle_voting E (committed st)) (\<lambda>Q.
       ebind (if domain_name d \<noteq> fqdn_root
              then pending_for_key_prefix E Q (pod_of_domain d) (Some CHR ''.'') (committed st)
              else pending_for_key_prefix E Q (pod_of_domain (Domain fqdn_root)) None (committed st)) (\<lambda>pending.
       Inr (map (\<lambda>(t, key, value). \<lparr>po_time = t, po_domain = domain_of_pod key,
         po_hash = ovv_hash_observed value\<rparr>) pending))))"

section \<open>The canonical leaves\<close>

text \<open>
  What the storage library and the proof encoding contribute: \<open>Snapshot::get_with_proof\<close> and
  \<open>prost::Message::encode\<close> of one commitment proof.
\<close>

record 'p prover =
  get_with_proof :: "bytes \<Rightarrow> contents \<Rightarrow> error + bytes option \<times> 'p list"
  proof_encode :: "'p \<Rightarrow> error + bytes"

definition canonical_prefix :: string where "canonical_prefix = ''canonical/''"

definition representative_key :: "(string \<times> string) list \<Rightarrow> string option" where
  "representative_key leaves = (if leaves = [] then None else Some (fst (last leaves)))"

definition merkle_proof_of ::
  "env \<Rightarrow> 'p prover \<Rightarrow> string option \<Rightarrow> contents \<Rightarrow> error + merkle_proof_info option" where
  "merkle_proof_of E P rep s =
    (case rep of
       None \<Rightarrow> Inr None
     | Some rep_key \<Rightarrow>
         (case get_with_proof P (as_bytes rep_key) s of
            Inl e \<Rightarrow> Inr None
          | Inr (value_opt, proofs) \<Rightarrow>
              ebind (ecollect (map (\<lambda>p. ebind (proof_encode P p) (\<lambda>b. Inr (hex_encode E b))) proofs)) (\<lambda>pbs.
              Inr (Some \<lparr>mp_representative_key = rep_key, mp_proof_bytes = pbs\<rparr>))))"

definition get_leaves :: "env \<Rightarrow> 'p prover \<Rightarrow> contents \<Rightarrow> error + canonical_leaves_response" where
  "get_leaves E P s =
    ebind (ok_or (NotInState ''block height'')
      (om_get (verifiable s) (substore_prefix Internal ''current/block_height''))) (\<lambda>block_height_bytes.
    ebind (height_decode E block_height_bytes) (\<lambda>h.
    let canonical_root = root_hash_of E (Some Canonical) s;
        app = root_hash_of E None s;
        leaves = map (\<lambda>(key, b). (key, hex_encode E b)) (om_scan canonical_prefix (verifiable s))
    in ebind (merkle_proof_of E P (representative_key leaves) s) (\<lambda>mp.
       Inr \<lparr>cl_block_height = h, cl_leaves = leaves,
            cl_proof = \<lparr>lp_canonical_root_hash = hex_encode E canonical_root, lp_app_hash = hex_encode E app,
              lp_merkle_proof = mp\<rparr>\<rparr>)))"

definition canonical_leaves_endpoint :: "env \<Rightarrow> 'p prover \<Rightarrow> store \<Rightarrow> http_response" where
  "canonical_leaves_endpoint E P st = json_or_error LeavesJson (get_leaves E P (committed st))"

section \<open>The snapshot\<close>

definition quoted :: "string \<Rightarrow> string" where "quoted s = char_of (34 :: nat) # s @ [char_of (34 :: nat)]"

text \<open>One entry of the object: all but the first item of the stream start with a comma.\<close>

definition snapshot_entry :: "env \<Rightarrow> nat \<Rightarrow> error + domain \<times> bytes \<Rightarrow> error + string" where
  "snapshot_entry E i result =
    ebind result (\<lambda>(d, h).
    Inr ((if i = 0 then [] else '','') @ quoted (domain_display d) @ '':'' @ quoted (hex_encode E h)))"

definition enumerate_map :: "(nat \<Rightarrow> 'a \<Rightarrow> 'b) \<Rightarrow> 'a list \<Rightarrow> 'b list" where
  "enumerate_map f xs = map (\<lambda>(i, x). f i x) (enumerate 0 xs)"

definition snapshot_endpoint :: "env \<Rightarrow> domain \<Rightarrow> store \<Rightarrow> http_response" where
  "snapshot_endpoint E d st =
    json_or_error (\<lambda>stream. Chunks (Inr ''{'' # enumerate_map (snapshot_entry E) stream @ [Inr ''}'']))
      (canonical_subdomains_hashes E d (committed st))"

section \<open>Routes\<close>

definition trim_matches :: "char \<Rightarrow> string \<Rightarrow> string" where
  "trim_matches c s = rev (dropWhile (\<lambda>x. x = c) (rev (dropWhile (\<lambda>x. x = c) s)))"

definition permissive_domain :: "env \<Rightarrow> string \<Rightarrow> http_response + domain" where
  "permissive_domain E d =
    (if d = [] then Inr (Domain fqdn_root)
     else case fqdn_from_ascii_str E (trim_matches CHR ''.'' d @ ''.'') of
            Some name \<Rightarrow> Inr (Domain name)
          | None \<Rightarrow> Inl \<lparr>hr_status = StatusBadRequest, hr_content_type = ''text/plain'', hr_body = InvalidDomainName\<rparr>)"

definition for_domain :: "env \<Rightarrow> string \<Rightarrow> (domain \<Rightarrow> http_response) \<Rightarrow> http_response" where
  "for_domain E d f = (case permissive_domain E d of Inr x \<Rightarrow> f x | Inl e \<Rightarrow> e)"

definition endpoints :: "(string \<times> string) list" where
  "endpoints =
    [(''/config'', ''Get the current chain configuration''),
     (''/oracles'', ''Get list of authorized oracle endpoints''),
     (''/canonical/leaves'', ''Get canonical state leaves for full client-side verification''),
     (''/enrollment/votes'', ''Get oracle votes for all domains submitted''),
     (''/enrollment/votes/{domain}'', ''Get oracle votes for a specific domain''),
     (''/enrollment/pending'', ''Get pending oracle observations for all domains''),
     (''/enrollment/pending/{domain}'', ''Get pending oracle observations for a specific domain''),
     (''/snapshot'', ''Get hashes for all domains''),
     (''/snapshot/{domain}'', ''Get hash for a specific domain''),
     (''/admin/votes'', ''Get admin votes for configuration changes''),
     (''/admin/pending'', ''Get pending admin configuration changes'')]"

text \<open>The router, on the decoded segments of the path; \<open>None\<close> is its answer for a path without a
  route. A path parameter of \<open>axum\<close> is a non-empty segment.\<close>

fun app :: "env \<Rightarrow> 'p prover \<Rightarrow> string list \<Rightarrow> store \<Rightarrow> http_response option" where
  "app E P [] st =
     Some \<lparr>hr_status = StatusOk, hr_content_type = ''application/json'', hr_body = EndpointsJson endpoints\<rparr>"
| "app E P [a] st =
     (if a = ''config'' then Some (config_endpoint E st)
      else if a = ''oracles'' then Some (oracles_endpoint E st)
      else if a = ''snapshot'' then Some (snapshot_endpoint E (Domain fqdn_root) st)
      else None)"
| "app E P [a, b] st =
     (if a = ''canonical'' \<and> b = ''leaves'' then Some (canonical_leaves_endpoint E P st)
      else if a = ''admin'' \<and> b = ''votes'' then Some (admin_votes_endpoint E st)
      else if a = ''admin'' \<and> b = ''pending'' then Some (admin_pending_endpoint E st)
      else if a = ''enrollment'' \<and> b = ''votes'' then Some (enrollment_votes_endpoint E (Domain fqdn_root) st)
      else if a = ''enrollment'' \<and> b = ''pending'' then Some (enrollment_pending_endpoint E (Domain fqdn_root) st)
      else if a = ''snapshot'' \<and> b \<noteq> [] then Some (for_domain E b (\<lambda>d. snapshot_endpoint E d st))
      else None)"
| "app E P [a, b, d] st =
     (if a = ''enrollment'' \<and> b = ''votes'' \<and> d \<noteq> [] then
        Some (for_domain E d (\<lambda>d. enrollment_votes_endpoint E d st))
      else if a = ''enrollment'' \<and> b = ''pending'' \<and> d \<noteq> [] then
        Some (for_domain E d (\<lambda>d. enrollment_pending_endpoint E d st))
      else None)"
| "app E P (a # b # c # d # ds) st = None"

end
