(* ===== verification/Light_Client.thy ===== *)
theory Light_Client
  imports Query_Api "HOL-Library.Signed_Division"
begin

text \<open>
  The publisher, a light client: \<open>crates/felidae-publish/src/verification.rs\<close>, \<open>light_block.rs\<close> and
  \<open>commands/{verify,print,reconstruct}.rs\<close>. The Tendermint types keep the fields the code reads; their
  methods (the header hash, the bytes a vote signs, the signature check, the order a validator set puts
  its validators in) and the Merkle proofs of \<open>ibc-types\<close> are the fields of \<open>light_env\<close>. What the RPC client
  answers is data: one answer for a call made once, the list of the answers for a call made in a loop.
\<close>

section \<open>Tendermint data\<close>

record block_header =
  bh_height :: height
  bh_app_hash :: app_hash
  bh_proposer_address :: bytes
  bh_rest :: bytes

datatype block_id = BlockId (bi_hash: bytes) (bi_part_set_header: bytes)

datatype commit_sig =
    BlockIdFlagAbsent
  | BlockIdFlagCommit time "bytes option"
  | BlockIdFlagNil time "bytes option"

record tm_commit =
  cm_height :: height
  cm_round :: u32
  cm_block_id :: block_id
  cm_signatures :: "commit_sig list"

record signed_header =
  sh_header :: block_header
  sh_commit :: tm_commit

record validator_info =
  vi_address :: bytes
  vi_pub_key :: public_key
  vi_power :: power

record validator_set =
  vs_validators :: "validator_info list"
  vs_proposer :: "validator_info option"
  vs_total_voting_power :: power

text \<open>The precommit a signature is checked against; its type is fixed and its extension empty.\<close>

record precommit =
  pv_height :: height
  pv_round :: u32
  pv_block_id :: "block_id option"
  pv_timestamp :: "time option"
  pv_validator_address :: bytes
  pv_validator_index :: nat
  pv_signature :: "bytes option"

record light_block =
  lb_signed_header :: signed_header
  lb_validator_set :: validator_set

record node_status =
  ns_network :: string
  ns_latest_block_height :: height

record 'p light_env =
  header_hash :: "block_header \<Rightarrow> bytes"
  validator_index_try_from :: "nat \<Rightarrow> nat option"
  tm_chain_id_try_from :: "string \<Rightarrow> string option"
  to_signable_bytes :: "string \<Rightarrow> precommit \<Rightarrow> bytes option"
  signature_verify :: "public_key \<Rightarrow> bytes \<Rightarrow> bytes \<Rightarrow> bool"
  validator_set_new :: "validator_info list \<Rightarrow> validator_info option \<Rightarrow> validator_set"
  proof_decode :: "bytes \<Rightarrow> 'p option"
  verify_membership :: "'p list \<Rightarrow> bytes \<Rightarrow> string list \<Rightarrow> bytes \<Rightarrow> bool"

datatype light_error =
    SetSize | CommitHeight | BlockIdHash | IndexOutOfBounds nat | SignatureMissing nat
  | ValidatorIndexPanic | InvalidChainId | SignableBytes | SignatureInvalid nat | InsufficientPower
  | InvalidHeight | CommitTimeout | RpcFailed | QueryFailed
  | AppHashDecode | LightAppHashMismatch | NextBlockTimeout
  | LeafHex string | StoreFailed error | CanonicalRootMismatch
  | ProofHex | ProofDecode | RepresentativeKeyMissing | RepresentativeKeyPrefix | MembershipFailed
  | ProofTooShort | NoMerkleProof

section \<open>Verifying a light block\<close>

text \<open>The power needed, in \<open>i64\<close>: the product wraps in a release build; the division truncates.\<close>

definition voting_power_needed :: "u64 \<Rightarrow> i64" where
  "voting_power_needed total_power = word_of_int (sint (total_power * 2) sdiv 3)"

definition precommit_for :: "tm_commit \<Rightarrow> validator_info \<Rightarrow> nat \<Rightarrow> time \<Rightarrow> bytes \<Rightarrow> precommit" where
  "precommit_for cm v index ts sig =
    \<lparr>pv_height = cm_height cm, pv_round = cm_round cm, pv_block_id = Some (cm_block_id cm), pv_timestamp = Some ts,
     pv_validator_address = vi_address v, pv_validator_index = index, pv_signature = Some sig\<rparr>"

text \<open>The loop over the signatures, from slot \<open>idx\<close> on, with the power tallied so far.\<close>

fun tally_signatures ::
  "'p light_env \<Rightarrow> string \<Rightarrow> tm_commit \<Rightarrow> validator_set \<Rightarrow> nat \<Rightarrow> commit_sig list \<Rightarrow> i64 \<Rightarrow> light_error + i64" where
  "tally_signatures L chain cm vs idx [] tallied = Inr tallied"
| "tally_signatures L chain cm vs idx (commit_sig # sigs) tallied =
    ebind (ok_or (IndexOutOfBounds idx) (if idx < length (vs_validators vs) then Some (vs_validators vs ! idx) else None)) (\<lambda>v.
    case commit_sig of
      BlockIdFlagAbsent \<Rightarrow> tally_signatures L chain cm vs (Suc idx) sigs tallied
    | BlockIdFlagNil _ _ \<Rightarrow> tally_signatures L chain cm vs (Suc idx) sigs tallied
    | BlockIdFlagCommit ts signature \<Rightarrow>
        ebind (ok_or (SignatureMissing idx) signature) (\<lambda>sig.
        ebind (ok_or ValidatorIndexPanic (validator_index_try_from L idx)) (\<lambda>index.
        ebind (ok_or InvalidChainId (tm_chain_id_try_from L chain)) (\<lambda>cid.
        ebind (ok_or SignableBytes (to_signable_bytes L cid (precommit_for cm v index ts sig))) (\<lambda>b.
        ebind (check (signature_verify L (vi_pub_key v) b sig) (SignatureInvalid idx)) (\<lambda>_.
        tally_signatures L chain cm vs (Suc idx) sigs (tallied + vi_power v)))))))"

definition verify_light_block :: "'p light_env \<Rightarrow> signed_header \<Rightarrow> validator_set \<Rightarrow> string \<Rightarrow> light_error + unit" where
  "verify_light_block L sh vs chain =
    (let cm = sh_commit sh; header = sh_header sh in
     ebind (check (length (vs_validators vs) = length (cm_signatures cm)) SetSize) (\<lambda>_.
     ebind (check (bh_height header = cm_height cm) CommitHeight) (\<lambda>_.
     ebind (check (header_hash L header = bi_hash (cm_block_id cm)) BlockIdHash) (\<lambda>_.
     ebind (tally_signatures L chain cm vs 0 (cm_signatures cm) 0) (\<lambda>tallied.
     check (\<not> sint tallied \<le> sint (voting_power_needed (vs_total_voting_power vs))) InsufficientPower)))))"

section \<open>Fetching a light block\<close>

text \<open>
  The retry loop of \<open>fetch_light_block_at_height\<close>. The list holds, for each round, the time elapsed when
  the round starts and the answer of the node in it; a list that ends before the loop does is \<open>None\<close>:
  the client is still waiting.
\<close>

fun await_commit :: "duration \<Rightarrow> (duration \<times> signed_header option) list \<Rightarrow> (light_error + signed_header) option" where
  "await_commit timeout_limit [] = None"
| "await_commit timeout_limit ((elapsed_time, answer) # rounds) =
    (if elapsed_time > timeout_limit then Some (Inl CommitTimeout)
     else case answer of
       Some sh \<Rightarrow> Some (Inr sh)
     | None \<Rightarrow> await_commit timeout_limit rounds)"

text \<open>The answers of the node to the calls for one height.\<close>

record rpc_answers =
  ra_status :: "light_error + node_status"
  ra_commit :: "(duration \<times> signed_header option) list"
  ra_validators :: "light_error + validator_info list"

definition light_block_of :: "'p light_env \<Rightarrow> signed_header \<Rightarrow> validator_info list \<Rightarrow> light_block" where
  "light_block_of L sh vals =
    (let proposer = List.find (\<lambda>v. vi_address v = bh_proposer_address (sh_header sh)) vals
     in \<lparr>lb_signed_header = sh, lb_validator_set = validator_set_new L vals proposer\<rparr>)"

definition fetch_light_block_at_height ::
  "env \<Rightarrow> 'p light_env \<Rightarrow> (height \<Rightarrow> rpc_answers) \<Rightarrow> u64 \<Rightarrow> duration \<Rightarrow> (light_error + light_block \<times> node_status) option" where
  "fetch_light_block_at_height E L rpc h timeout_limit =
    (case height_try_from E h of
       None \<Rightarrow> Some (Inl InvalidHeight)
     | Some h \<Rightarrow>
         (case ra_status (rpc h) of
            Inl e \<Rightarrow> Some (Inl e)
          | Inr status \<Rightarrow>
              (case await_commit timeout_limit (ra_commit (rpc h)) of
                 None \<Rightarrow> None
               | Some (Inl e) \<Rightarrow> Some (Inl e)
               | Some (Inr sh) \<Rightarrow>
                   Some (ebind (ra_validators (rpc h)) (\<lambda>vals. Inr (light_block_of L sh vals, status))))))"

definition fetch_light_block ::
  "env \<Rightarrow> 'p light_env \<Rightarrow> (light_error + node_status) \<Rightarrow> (height \<Rightarrow> rpc_answers) \<Rightarrow> duration
    \<Rightarrow> (light_error + light_block \<times> node_status) option" where
  "fetch_light_block E L status rpc timeout_limit =
    (case status of
       Inl e \<Rightarrow> Some (Inl e)
     | Inr st \<Rightarrow> fetch_light_block_at_height E L rpc (ns_latest_block_height st) timeout_limit)"

definition fetch_for ::
  "env \<Rightarrow> 'p light_env \<Rightarrow> (light_error + node_status) \<Rightarrow> (height \<Rightarrow> rpc_answers) \<Rightarrow> u64 option \<Rightarrow> duration
    \<Rightarrow> (light_error + light_block \<times> node_status) option" where
  "fetch_for E L status rpc height_opt timeout_limit =
    (case height_opt of
       Some h \<Rightarrow> fetch_light_block_at_height E L rpc h timeout_limit
     | None \<Rightarrow> fetch_light_block E L status rpc timeout_limit)"

text \<open>The command \<open>verify\<close>: the app hash it prints.\<close>

definition verify_command ::
  "env \<Rightarrow> 'p light_env \<Rightarrow> (light_error + node_status) \<Rightarrow> (height \<Rightarrow> rpc_answers) \<Rightarrow> u64 option \<Rightarrow> duration
    \<Rightarrow> (light_error + string) option" where
  "verify_command E L status rpc height_opt timeout_limit =
    map_option (\<lambda>r. ebind r (\<lambda>(lb, st).
      ebind (verify_light_block L (lb_signed_header lb) (lb_validator_set lb) (ns_network st)) (\<lambda>_.
      Inr (hex_encode E (bh_app_hash (sh_header (lb_signed_header lb)))))))
    (fetch_for E L status rpc height_opt timeout_limit)"

definition print_command ::
  "env \<Rightarrow> 'p light_env \<Rightarrow> (light_error + node_status) \<Rightarrow> (height \<Rightarrow> rpc_answers) \<Rightarrow> u64 option \<Rightarrow> duration
    \<Rightarrow> (light_error + light_block) option" where
  "print_command E L status rpc height_opt timeout_limit =
    map_option (\<lambda>r. ebind r (\<lambda>(lb, _). Inr lb)) (fetch_for E L status rpc height_opt timeout_limit)"

end
