(* ===== verification/Reconstruct.thy ===== *)
theory Reconstruct
  imports Light_Client
begin

text \<open>
  The command \<open>reconstruct\<close> of the publisher: \<open>crates/felidae-publish/src/commands/reconstruct.rs\<close>. It
  downloads the canonical leaves, verifies the light block of their height, compares the app hash with
  the one in the next block, rebuilds the canonical substore in a temporary store and compares its root,
  and checks the Merkle proof that ties the substore to the app hash. \<open>None\<close> is a call that still waits
  for the node.
\<close>

fun awaiting :: "('e + 'a) option \<Rightarrow> ('a \<Rightarrow> ('e + 'b) option) \<Rightarrow> ('e + 'b) option" where
  "awaiting None f = None"
| "awaiting (Some (Inl e)) f = Some (Inl e)"
| "awaiting (Some (Inr x)) f = f x"

definition compare_app_hash :: "env \<Rightarrow> leaves_proof \<Rightarrow> light_block \<Rightarrow> light_error + unit" where
  "compare_app_hash E proof lb =
    ebind (ok_or AppHashDecode (hex_decode E (lp_app_hash proof))) (\<lambda>proof_app_hash.
    check (bh_app_hash (sh_header (lb_signed_header lb)) = proof_app_hash) LightAppHashMismatch)"

text \<open>Polling for the next block: each round is one call of \<open>fetch_light_block_at_height\<close>.\<close>

definition max_attempts :: nat where "max_attempts = 60"

fun await_next_block ::
  "env \<Rightarrow> leaves_proof \<Rightarrow> nat \<Rightarrow> (light_error + light_block \<times> node_status) option list \<Rightarrow> (light_error + unit) option" where
  "await_next_block E proof attempts [] = None"
| "await_next_block E proof attempts (None # rounds) = None"
| "await_next_block E proof attempts (Some (Inr (lb, st)) # rounds) = Some (compare_app_hash E proof lb)"
| "await_next_block E proof attempts (Some (Inl e) # rounds) =
    (if Suc attempts \<ge> max_attempts then Some (Inl NextBlockTimeout)
     else await_next_block E proof (Suc attempts) rounds)"

definition put_leaves :: "env \<Rightarrow> (string \<times> string) list \<Rightarrow> store \<Rightarrow> store \<times> (light_error + unit)" where
  "put_leaves E =
    for_each (\<lambda>(key, value_hex) st.
      case hex_decode E value_hex of
        None \<Rightarrow> (st, Inl (LeafHex key))
      | Some value_bytes \<Rightarrow> (put_raw key value_bytes st, Inr ()))"

text \<open>The temporary store is opened on what its directory holds.\<close>

definition rebuild_canonical_root :: "env \<Rightarrow> contents \<Rightarrow> (string \<times> string) list \<Rightarrow> light_error + string" where
  "rebuild_canonical_root E temp_dir leaves =
    (let (st, r) = put_leaves E leaves (store_new temp_dir) in
     ebind r (\<lambda>_.
     let (st', c) = commit st in
     (case c of
        Inl e \<Rightarrow> Inl (StoreFailed e)
      | Inr _ \<Rightarrow> Inr (hex_encode E (root_hash E (Some Canonical) st')))))"

definition decode_proofs :: "env \<Rightarrow> 'p light_env \<Rightarrow> string list \<Rightarrow> light_error + 'p list" where
  "decode_proofs E L proofs =
    ecollect (map (\<lambda>proof_hex.
      ebind (ok_or ProofHex (hex_decode E proof_hex)) (\<lambda>b. ok_or ProofDecode (proof_decode L b))) proofs)"

definition verify_inclusion :: "env \<Rightarrow> 'p light_env \<Rightarrow> canonical_leaves_response \<Rightarrow> light_error + unit" where
  "verify_inclusion E L resp =
    ebind (ok_or AppHashDecode (hex_decode E (lp_app_hash (cl_proof resp)))) (\<lambda>app_hash_bytes.
    case lp_merkle_proof (cl_proof resp) of
      None \<Rightarrow> Inl NoMerkleProof
    | Some info \<Rightarrow>
        ebind (decode_proofs E L (mp_proof_bytes info)) (\<lambda>proofs.
        if \<not> 2 \<le> length proofs then Inl ProofTooShort
        else
          ebind (ok_or RepresentativeKeyMissing
            (map_option (\<lambda>leaf. case hex_decode E (snd leaf) of None \<Rightarrow> [] | Some b \<Rightarrow> b)
              (List.find (\<lambda>leaf. fst leaf = mp_representative_key info) (cl_leaves resp)))) (\<lambda>proof_value.
          ebind (ok_or RepresentativeKeyPrefix (strip_prefix ''canonical/'' (mp_representative_key info))) (\<lambda>canonical_key.
          check (verify_membership L proofs app_hash_bytes [''canonical'', canonical_key] proof_value) MembershipFailed))))"

definition reconstruct ::
  "env \<Rightarrow> 'p light_env \<Rightarrow> (light_error + canonical_leaves_response) \<Rightarrow> (height \<Rightarrow> rpc_answers)
    \<Rightarrow> (height \<Rightarrow> rpc_answers) list \<Rightarrow> contents \<Rightarrow> duration \<Rightarrow> (light_error + unit) option" where
  "reconstruct E L response rpc polls temp_dir timeout_limit =
    awaiting (Some response) (\<lambda>resp.
    awaiting (fetch_light_block_at_height E L rpc (cl_block_height resp) timeout_limit) (\<lambda>(lb, status).
    awaiting (Some (verify_light_block L (lb_signed_header lb) (lb_validator_set lb) (ns_network status))) (\<lambda>_.
    let next_block_height = cl_block_height resp + 1 in
    awaiting
      (if ns_latest_block_height status \<le> cl_block_height resp then
         await_next_block E (cl_proof resp) 0
           (map (\<lambda>poll. fetch_light_block_at_height E L poll next_block_height timeout_limit) polls)
       else
         awaiting (fetch_light_block_at_height E L rpc next_block_height timeout_limit) (\<lambda>(next_lb, _).
         Some (compare_app_hash E (cl_proof resp) next_lb))) (\<lambda>_.
    Some
      (ebind (rebuild_canonical_root E temp_dir (cl_leaves resp)) (\<lambda>reconstructed.
       ebind (check (reconstructed = lp_canonical_root_hash (cl_proof resp)) CanonicalRootMismatch) (\<lambda>_.
       verify_inclusion E L resp)))))))"

end
