(* ===== verification/Query_Facts.thy ===== *)
theory Query_Facts
  imports Query_Api Node
begin

text \<open>
  What the query interface answers on a well-formed snapshot: the reads do not fail, and the rows of a
  listing are those of the abstract views of the queues and of the canonical table.
\<close>

section \<open>The scope of a listing\<close>

text \<open>The names a listing for \<open>r\<close> covers: all names for the root, the strict subdomains for another.\<close>

definition listed_under :: "domain \<Rightarrow> domain \<Rightarrow> bool" where
  "listed_under r d =
    (domain_name r = fqdn_root \<or> fqdn_is_subdomain_of (domain_name d) (domain_name r) \<and> d \<noteq> r)"

lemma pod_display_root [simp]: "pod_display (PrefixOrderDomain fqdn_root) = ''.''"
  by (simp add: pod_display_def fqdn_labels_def fqdn_root_def)

lemma prefix_dot_pod [simp]: "prefix ''.'' (pod_display p)"
  by (simp add: pod_display_def)

lemma listing_prefix_iff:
  assumes "env_ok E" "fqdn_valid E (domain_name r)" "fqdn_valid E (pod_name p)"
  shows "prefix (delimited (pod_display (pod_of_domain r)) (if domain_name r \<noteq> fqdn_root then Some CHR ''.'' else None))
      (pod_display p) \<longleftrightarrow> listed_under r (domain_of_pod p)"
proof (cases "domain_name r = fqdn_root")
  case True
  then show ?thesis by (simp add: listed_under_def delimited_def pod_of_domain_def)
next
  case False
  have "p = pod_of_domain r \<longleftrightarrow> domain_of_pod p = r" by (cases r; cases p) (simp add: pod_of_domain_def domain_of_pod_def)
  with False pod_prefix_iff [OF assms(1), of "pod_of_domain r" p] assms(2,3) show ?thesis
    by (simp add: listed_under_def delimited_def)
qed

lemma listing_part_ok:
  assumes "env_ok E" "fqdn_valid E (domain_name r)"
  shows "part_ok (delimited (pod_display (pod_of_domain r)) (if domain_name r \<noteq> fqdn_root then Some CHR ''.'' else None))"
  using pod_display_part [OF assms(1), of "pod_of_domain r"] assms(2)
  by (auto simp: part_ok_delimited) (simp add: part_ok_def ascii_def)

section \<open>Listing votes\<close>

lemma votes_for_key_prefix_eq:
  assumes "queue_ok E Q s" "part_ok (delimited (key_to_string Q key) d)"
  obtains ix where
    "votes_for_key_prefix E Q key d s = Inr (map (\<lambda>(k, q, t).
       \<lparr>vote_party = q, vote_time = t, vote_key = projr (key_try_from Q k),
        vote_value = the (votes_view E Q s (k, q, t))\<rparr>) ix)"
    "distinct ix"
    "set ix = {(k, q, t). prefix (delimited (key_to_string Q key) d) k \<and> votes_view E Q s (k, q, t) \<noteq> None}"
proof -
  let ?p = "delimited (key_to_string Q key) d"
  obtain ix where ix: "prefix_stream (v_decode Q) Internal (votes_by_key_prefix (qp Q) ?p False) s =
      map (\<lambda>(k, q, t). Inr (votes_by_key_party_timestamp E (qp Q) k q t, the (votes_view E Q s (k, q, t)))) ix"
    "distinct ix"
    "set ix = {(k, q, t). prefix (votes_by_key_prefix (qp Q) ?p False)
       (votes_by_key_party_timestamp E (qp Q) k q t) \<and> votes_view E Q s (k, q, t) \<noteq> None}"
    by (rule vote_stream [OF assms(1) table_of_prefix(1)])
  have set: "set ix = {(k, q, t). prefix ?p k \<and> votes_view E Q s (k, q, t) \<noteq> None}"
    unfolding ix(3) by (simp add: inexact_prefix_iff [OF assms(2)])
  have "ebind (key_try_from Q k) f = f (projr (key_try_from Q k))"
    "parse_votes_by_key_party_timestamp E (qp Q) (votes_by_key_party_timestamp E (qp Q) k q t) = Inr (k, q, t)"
    if kt: "(k, q, t) \<in> set ix" for k q t and f :: "'a \<Rightarrow> error + ('a, 'b) vote"
  proof -
    from kt obtain v where v: "votes_view E Q s (k, q, t) = Some v" unfolding set by auto
    then obtain b where "vote_row E (qp Q) s (k, q, t) = Some b"
      using votes_view_Some [OF assms(1), of "(k, q, t)"] by auto
    then have "key_good Q k" by (rule vote_row_decodes [OF assms(1)])
    then show "ebind (key_try_from Q k) f = f (projr (key_try_from Q k))" by (auto simp: key_good_def)
    show "parse_votes_by_key_party_timestamp E (qp Q) (votes_by_key_party_timestamp E (qp Q) k q t) = Inr (k, q, t)"
      using view_parts(1) [OF assms(1) v] queue_okD(1) [OF assms(1)] by (intro parse_valid_keys) auto
  qed
  then have "votes_for_key_prefix E Q key d s = Inr (map (\<lambda>(k, q, t).
       \<lparr>vote_party = q, vote_time = t, vote_key = projr (key_try_from Q k),
        vote_value = the (votes_view E Q s (k, q, t))\<rparr>) ix)"
    unfolding votes_for_key_prefix_def read_votes_def ix(1) map_map
    by (intro ecollect_map_cong_Inr) (auto split: prod.splits)
  then show thesis using ix(2) set by (rule that)
qed

text \<open>The name a key of the oracle queue stands for.\<close>

lemma oracle_key_name:
  assumes "queue_ok E (oracle_queue E c) s"
    and "votes_view E (oracle_queue E c) s (k, q, t) \<noteq> None \<or> pending_view E (oracle_queue E c) s (k, t) \<noteq> None"
  obtains p where "k = pod_display p" "fqdn_valid E (pod_name p)" "pod_try_from E k = Inr p"
proof -
  have "key_good (oracle_queue E c) k"
    using assms(2) votes_view_Some [OF assms(1), of "(k, q, t)"] pending_view_Some [OF assms(1), of "(k, t)"]
      votes_okD(1) [OF queue_okD(4) [OF assms(1)]] pending_okD(1) [OF queue_okD(5) [OF assms(1)]]
    by blast
  then show thesis by (rule key_good_pod [OF queue_okD(1) [OF assms(1)]]) (rule that)
qed

lemma enrollment_votes_eq:
  assumes "chain_ok E s" "config E s = Inr c" "fqdn_valid E (domain_name r)"
  obtains vs where
    "(if domain_name r \<noteq> fqdn_root
      then votes_for_key_prefix E (oracle_queue E (o_voting (oracles c))) (pod_of_domain r) (Some CHR ''.'') s
      else votes_for_key_prefix E (oracle_queue E (o_voting (oracles c))) (pod_of_domain (Domain fqdn_root)) None s)
     = Inr vs" "distinct vs"
    "set vs = {\<lparr>vote_party = q, vote_time = t, vote_key = p, vote_value = v\<rparr> | p q t v.
       fqdn_valid E (pod_name p) \<and> listed_under r (domain_of_pod p) \<and>
       votes_view E (oracle_queue E (o_voting (oracles c))) s (pod_display p, q, t) = Some v}"
proof -
  let ?Q = "oracle_queue E (o_voting (oracles c))"
  let ?d = "if domain_name r \<noteq> fqdn_root then Some CHR ''.'' else None"
  have ok: "state_ok E s" using assms(1) by (simp add: chain_ok_def)
  note env = state_okD(6) [OF ok] and q = state_okD(1) [OF ok, of "o_voting (oracles c)"]
  have part: "part_ok (delimited (key_to_string ?Q (pod_of_domain r)) ?d)"
    using listing_part_ok [OF env assms(3)] by simp
  obtain ix where ix: "votes_for_key_prefix E ?Q (pod_of_domain r) ?d s = Inr (map (\<lambda>(k, q, t).
       \<lparr>vote_party = q, vote_time = t, vote_key = projr (pod_try_from E k),
        vote_value = the (votes_view E ?Q s (k, q, t))\<rparr>) ix)" "distinct ix"
    "set ix = {(k, q, t). prefix (delimited (pod_display (pod_of_domain r)) ?d) k \<and> votes_view E ?Q s (k, q, t) \<noteq> None}"
    by (rule votes_for_key_prefix_eq [OF q part, unfolded oracle_queue_sel])
  let ?f = "\<lambda>(k, q, t). \<lparr>vote_party = q, vote_time = t, vote_key = projr (pod_try_from E k),
        vote_value = the (votes_view E ?Q s (k, q, t))\<rparr>"
  have name: "\<exists>p. k = pod_display p \<and> fqdn_valid E (pod_name p) \<and> pod_try_from E k = Inr p"
    if "(k, q, t) \<in> set ix" for k q t
    using that oracle_key_name [OF q, of k q t] unfolding ix(3) by blast
  show thesis
  proof (rule that [of "map ?f ix"])
    show "(if domain_name r \<noteq> fqdn_root
      then votes_for_key_prefix E ?Q (pod_of_domain r) (Some CHR ''.'') s
      else votes_for_key_prefix E ?Q (pod_of_domain (Domain fqdn_root)) None s) = Inr (map ?f ix)"
      using ix(1) by (cases r) (auto split: if_splits)
    have "inj_on ?f (set ix)"
    proof (rule inj_onI)
      fix i j assume ij: "i \<in> set ix" "j \<in> set ix" "?f i = ?f j"
      obtain k q t k' q' t' where kk: "i = (k, q, t)" "j = (k', q', t')" by (cases i; cases j)
      obtain p p' where "k = pod_display p" "pod_try_from E k = Inr p" "k' = pod_display p'" "pod_try_from E k' = Inr p'"
        using name ij(1,2) unfolding kk by blast
      with ij(3) show "i = j" by (simp add: kk)
    qed
    then show "distinct (map ?f ix)" using ix(2) by (simp only: distinct_map)
    show "set (map ?f ix) = {\<lparr>vote_party = q, vote_time = t, vote_key = p, vote_value = v\<rparr> | p q t v.
       fqdn_valid E (pod_name p) \<and> listed_under r (domain_of_pod p) \<and> votes_view E ?Q s (pod_display p, q, t) = Some v}"
      (is "_ = ?S")
    proof (intro set_eqI iffI)
      fix x assume "x \<in> set (map ?f ix)"
      then obtain k q t where k: "(k, q, t) \<in> set ix" "x = ?f (k, q, t)" by auto
      obtain p where p: "k = pod_display p" "fqdn_valid E (pod_name p)" "pod_try_from E k = Inr p"
        using name [OF k(1)] by blast
      from k(1) p(1) have "listed_under r (domain_of_pod p)" "votes_view E ?Q s (pod_display p, q, t) \<noteq> None"
        using listing_prefix_iff [OF env assms(3) p(2)] by (auto simp: ix(3))
      then show "x \<in> ?S" using k(2) p by auto
    next
      fix x assume "x \<in> ?S"
      then obtain p q t v where x: "x = \<lparr>vote_party = q, vote_time = t, vote_key = p, vote_value = v\<rparr>"
        "fqdn_valid E (pod_name p)" "listed_under r (domain_of_pod p)"
        "votes_view E ?Q s (pod_display p, q, t) = Some v" by blast
      have "pod_try_from E (pod_display p) = Inr p" using pod_conv.conv [of E p] x(2) env by simp
      then have "x = ?f (pod_display p, q, t)" using x by simp
      moreover have "(pod_display p, q, t) \<in> set ix"
        using x(3,4) listing_prefix_iff [OF env assms(3) x(2)] by (simp add: ix(3))
      ultimately show "x \<in> set (map ?f ix)" unfolding set_map by (rule image_eqI)
    qed
  qed
qed

section \<open>Listing pending changes\<close>

lemma enrollment_pending_eq:
  assumes "chain_ok E s" "config E s = Inr c" "fqdn_valid E (domain_name r)"
  obtains ps where
    "(if domain_name r \<noteq> fqdn_root
      then pending_for_key_prefix E (oracle_queue E (o_voting (oracles c))) (pod_of_domain r) (Some CHR ''.'') s
      else pending_for_key_prefix E (oracle_queue E (o_voting (oracles c))) (pod_of_domain (Domain fqdn_root)) None s)
     = Inr ps" "distinct (map (\<lambda>(_, p, _). p) ps)"
    "set ps = {(t, p, v) | t p v. fqdn_valid E (pod_name p) \<and> listed_under r (domain_of_pod p) \<and>
       pending_view E (oracle_queue E (o_voting (oracles c))) s (pod_display p, t) = Some v}"
proof -
  let ?Q = "oracle_queue E (o_voting (oracles c))"
  let ?P = "pending_view E ?Q s"
  let ?d = "if domain_name r \<noteq> fqdn_root then Some CHR ''.'' else None"
  have ok: "state_ok E s" using assms(1) by (simp add: chain_ok_def)
  note env = state_okD(6) [OF ok] and q = state_okD(1) [OF ok, of "o_voting (oracles c)"]
  have part: "part_ok (delimited (key_to_string ?Q (pod_of_domain r)) ?d)"
    using listing_part_ok [OF env assms(3)] by simp
  obtain ix where ix: "pending_for_key_prefix E ?Q (pod_of_domain r) ?d s =
      Inr (map (\<lambda>(k, t). (t, projr (pod_try_from E k), the (?P (k, t)))) ix)" "distinct ix"
    "set ix = {(k, t). prefix (delimited (pod_display (pod_of_domain r)) ?d) k \<and> ?P (k, t) \<noteq> None}"
    by (rule pending_for_key_prefix_eq [OF q part, unfolded oracle_queue_sel])
  let ?f = "\<lambda>(k, t). (t, projr (pod_try_from E k), the (?P (k, t)))"
  have name: "\<exists>p. k = pod_display p \<and> fqdn_valid E (pod_name p) \<and> pod_try_from E k = Inr p"
    if "(k, t) \<in> set ix" for k t
    using that oracle_key_name [OF q, of k _ t] unfolding ix(3) by blast
  have one: "t = t'" if "?P (k, t) \<noteq> None" "?P (k, t') \<noteq> None" for k t t'
    using that pending_okD(4) [OF queue_okD(5) [OF q]] pending_view_Some [OF q] by blast
  show thesis
  proof (rule that [of "map ?f ix"])
    show "(if domain_name r \<noteq> fqdn_root
      then pending_for_key_prefix E ?Q (pod_of_domain r) (Some CHR ''.'') s
      else pending_for_key_prefix E ?Q (pod_of_domain (Domain fqdn_root)) None s) = Inr (map ?f ix)"
      using ix(1) by (cases r) (auto split: if_splits)
    have "inj_on (\<lambda>(k, t). projr (pod_try_from E k)) (set ix)"
    proof (rule inj_onI)
      fix i j assume ij: "i \<in> set ix" "j \<in> set ix"
        "(case i of (k, t) \<Rightarrow> projr (pod_try_from E k)) = (case j of (k, t) \<Rightarrow> projr (pod_try_from E k))"
      obtain k t k' t' where kk: "i = (k, t)" "j = (k', t')" by (cases i; cases j)
      have "k = k'" using name [OF ij(1) [unfolded kk]] name [OF ij(2) [unfolded kk]] ij(3) by (auto simp: kk)
      moreover have "t = t'" using one [of k t t'] ij(1,2) \<open>k = k'\<close> by (simp add: kk ix(3))
      ultimately show "i = j" by (simp add: kk)
    qed
    then have "distinct (map (\<lambda>(k, t). projr (pod_try_from E k)) ix)" using ix(2) by (simp only: distinct_map)
    then show "distinct (map (\<lambda>(_, p, _). p) (map ?f ix))" by (simp add: comp_def split_def)
    show "set (map ?f ix) = {(t, p, v) | t p v. fqdn_valid E (pod_name p) \<and> listed_under r (domain_of_pod p) \<and>
       ?P (pod_display p, t) = Some v}" (is "_ = ?S")
    proof (intro set_eqI iffI)
      fix x assume "x \<in> set (map ?f ix)"
      then obtain k t where k: "(k, t) \<in> set ix" "x = ?f (k, t)" by auto
      obtain p where p: "k = pod_display p" "fqdn_valid E (pod_name p)" "pod_try_from E k = Inr p"
        using name [OF k(1)] by blast
      from k(1) p(1) have "listed_under r (domain_of_pod p)" "?P (pod_display p, t) \<noteq> None"
        using listing_prefix_iff [OF env assms(3) p(2)] by (auto simp: ix(3))
      then show "x \<in> ?S" using k(2) p by auto
    next
      fix x assume "x \<in> ?S"
      then obtain t p v where x: "x = (t, p, v)" "fqdn_valid E (pod_name p)" "listed_under r (domain_of_pod p)"
        "?P (pod_display p, t) = Some v" by blast
      have "pod_try_from E (pod_display p) = Inr p" using pod_conv.conv [of E p] x(2) env by simp
      then have "x = ?f (pod_display p, t)" using x by simp
      moreover have "(pod_display p, t) \<in> set ix"
        using x(3,4) listing_prefix_iff [OF env assms(3) x(2)] by (simp add: ix(3))
      ultimately show "x \<in> set (map ?f ix)" unfolding set_map by (rule image_eqI)
    qed
  qed
qed

section \<open>Listing the canonical table\<close>

lemma canonical_hashes_eq:
  assumes "env_ok E" "canonical_ok E s" "contents_ok s" "fqdn_valid E (domain_name r)"
    and "canonical_view E s (Domain fqdn_root) = None"
  obtains ds where "canonical_subdomains_hashes E r s = Inr (map Inr ds)" "distinct (map fst ds)"
    "set ds = {(d, h). fqdn_valid E (domain_name d) \<and> canonical_view E s d = Some h \<and> (d = r \<or> listed_under r d)}"
proof -
  let ?d = "if domain_name r \<noteq> fqdn_root then Some CHR ''.'' else None"
  let ?p = "delimited (pod_display (pod_of_domain r)) ?d"
  let ?kbs = "vscan Canonical ?p s"
  let ?f = "\<lambda>(k, b). (domain_of_pod (projr (pod_try_from E k)), projr (bytes_decode E b))"
  have p: "?p = pod_display (pod_of_domain r) @ (if domain_name r \<noteq> fqdn_root then ''.'' else [])"
    by (simp add: delimited_def)
  have scan: "set ?kbs = {(k, b). prefix ?p k \<and> vget Canonical s k = Some b}" by (rule vs.set_scan [OF assms(3)])
  have dist: "distinct (map fst ?kbs)" using vs.sorted_scan [OF assms(3)] by (simp only: strict_sorted_iff)
  have row: "\<exists>d h. k = pod_display (pod_of_domain d) \<and> fqdn_valid E (domain_name d) \<and>
      pod_try_from E k = Inr (pod_of_domain d) \<and> bytes_decode E b = Inr h \<and> length h = 32 \<and> canonical_view E s d = Some h"
    if "vget Canonical s k = Some b" for k b
  proof -
    from that assms(2) obtain p h where ph: "k = pod_display p" "fqdn_valid E (pod_name p)" "b = bytes_encode E h"
      "length h = 32" unfolding canonical_ok_def by blast
    then have "bytes_decode E b = Inr h" using bytes_codec [OF assms(1)] by simp
    with ph that pod_conv.conv [of E p] assms(1) show ?thesis
      by (intro exI [of _ "domain_of_pod p"] exI [of _ h]) (simp add: canonical_view_def)
  qed
  have "canonical_strict_subdomains_hashes E r s = map (\<lambda>kb. Inr (?f kb)) ?kbs"
    unfolding canonical_strict_subdomains_hashes_def Let_def p [symmetric] prefix_stream_eq map_map
  proof (rule map_cong [OF refl], goal_cases)
    case (1 kb)
    obtain k b where kb: "kb = (k, b)" by (cases kb)
    with 1 have "vget Canonical s k = Some b" unfolding scan by simp
    then obtain d h where "pod_try_from E k = Inr (pod_of_domain d)" "bytes_decode E b = Inr h" "length h = 32"
      using row by blast
    then show ?case by (simp add: kb hash_of_bytes_def)
  qed
  then have strict: "canonical_strict_subdomains_hashes E r s = map Inr (map ?f ?kbs)" by (simp add: comp_def)
  have fkb: "\<exists>d h. ?f (k, b) = (d, h) \<and> k = pod_display (pod_of_domain d) \<and> fqdn_valid E (domain_name d) \<and>
      canonical_view E s d = Some h \<and> listed_under r d"
    if kb: "(k, b) \<in> set ?kbs" for k b
  proof -
    from kb have k: "prefix ?p k" "vget Canonical s k = Some b" unfolding scan by simp_all
    obtain d h where d: "k = pod_display (pod_of_domain d)" "fqdn_valid E (domain_name d)"
      "pod_try_from E k = Inr (pod_of_domain d)" "bytes_decode E b = Inr h" "canonical_view E s d = Some h"
      using row [OF k(2)] by blast
    moreover have "listed_under r d"
      using listing_prefix_iff [OF assms(1,4), of "pod_of_domain d"] d(1,2) k(1) by simp
    ultimately show ?thesis by auto
  qed
  have set: "set (map ?f ?kbs) = {(d, h). fqdn_valid E (domain_name d) \<and> canonical_view E s d = Some h \<and> listed_under r d}"
    (is "_ = ?S")
  proof (intro set_eqI iffI)
    fix x assume "x \<in> set (map ?f ?kbs)"
    then obtain k b where "(k, b) \<in> set ?kbs" "x = ?f (k, b)" by auto
    with fkb show "x \<in> ?S" by fastforce
  next
    fix x assume "x \<in> ?S"
    then obtain d h where x: "x = (d, h)" "fqdn_valid E (domain_name d)" "canonical_view E s d = Some h" "listed_under r d"
      by blast
    then obtain b where b: "vget Canonical s (pod_display (pod_of_domain d)) = Some b"
      using canonical_view_Some [OF assms(1,2), of d] by auto
    have "(pod_display (pod_of_domain d), b) \<in> set ?kbs"
      using listing_prefix_iff [OF assms(1,4), of "pod_of_domain d"] x(2,4) b unfolding scan by simp
    moreover from row [OF b] obtain d' h' where d': "pod_display (pod_of_domain d) = pod_display (pod_of_domain d')"
      "fqdn_valid E (domain_name d')" "pod_try_from E (pod_display (pod_of_domain d)) = Inr (pod_of_domain d')"
      "bytes_decode E b = Inr h'" "canonical_view E s d' = Some h'" by blast
    have "pod_of_domain d = pod_of_domain d'"
      by (rule pod_display_inj [OF assms(1)]) (use x(2) d'(1,2) in simp_all)
    with d' x have "?f (pod_display (pod_of_domain d), b) = x" by simp
    ultimately show "x \<in> set (map ?f ?kbs)" unfolding set_map by force
  qed
  have "inj_on (fst \<circ> ?f) (set ?kbs)"
  proof (rule inj_onI)
    fix i j assume ij: "i \<in> set ?kbs" "j \<in> set ?kbs" "(fst \<circ> ?f) i = (fst \<circ> ?f) j"
    obtain k b k' b' where kk: "i = (k, b)" "j = (k', b')" by (cases i; cases j)
    from fkb [OF ij(1) [unfolded kk]] fkb [OF ij(2) [unfolded kk]] ij(3) have "k = k'" by (auto simp: kk)
    moreover have "b = b'" using ij(1,2) \<open>k = k'\<close> unfolding kk scan by simp
    ultimately show "i = j" by (simp add: kk)
  qed
  moreover have "distinct ?kbs" using dist by (simp only: distinct_map)
  ultimately have dist': "distinct (map fst (map ?f ?kbs))" by (simp only: map_map distinct_map)
  let ?own = "case canonical_view E s r of None \<Rightarrow> [] | Some h \<Rightarrow> [(r, h)]"
  have "canonical_subdomains_hashes E r s = Inr (map Inr (?own @ map ?f ?kbs))"
    unfolding canonical_subdomains_hashes_def canonical_hash_eq [OF assms(1,2)] strict
    by (simp split: option.split)
  moreover have "\<not> listed_under r r" if "canonical_view E s r \<noteq> None"
    using that assms(5) by (cases r) (auto simp: listed_under_def)
  then have "r \<notin> set (map fst (map ?f ?kbs))" if "canonical_view E s r \<noteq> None"
    using that unfolding set_map [of fst] set by auto
  then have "distinct (map fst (?own @ map ?f ?kbs))"
    using dist' by (cases "canonical_view E s r") (simp_all only: option.case append_Nil append_Cons list.map
      distinct.simps fst_conv, simp)
  moreover have "set (?own @ map ?f ?kbs) =
      {(d, h). fqdn_valid E (domain_name d) \<and> canonical_view E s d = Some h \<and> (d = r \<or> listed_under r d)}"
    unfolding set_append set using assms(4) by (auto split: option.splits)
  ultimately show thesis by (rule that)
qed

section \<open>The streamed object\<close>

text \<open>What the chunks of a snapshot make: a JSON object from names to hashes.\<close>

definition object_text :: "env \<Rightarrow> (domain \<times> bytes) list \<Rightarrow> string" where
  "object_text E ds =
    ''{'' @ join '','' (map (\<lambda>(d, h). quoted (domain_display d) @ '':'' @ quoted (hex_encode E h)) ds) @ ''}''"

definition entry_text :: "env \<Rightarrow> domain \<times> bytes \<Rightarrow> string" where
  "entry_text E dh = quoted (domain_display (fst dh)) @ '':'' @ quoted (hex_encode E (snd dh))"

lemma object_text_eq: "object_text E ds = ''{'' @ join '','' (map (entry_text E) ds) @ ''}''"
  by (simp add: object_text_def entry_text_def [abs_def] split_def)

lemma snapshot_entry_Inr: "snapshot_entry E i (Inr x) = Inr ((if i = 0 then [] else '','') @ entry_text E x)"
  by (cases x) (simp add: snapshot_entry_def entry_text_def)

lemma join_comma: "join sep (x # xs) = x @ concat (map (\<lambda>y. sep @ y) xs)"
  by (induction xs arbitrary: x) auto

lemma later_entries:
  "map (\<lambda>(i, x). snapshot_entry E i x) (enumerate (Suc n) (map Inr ds)) = map Inr (map (\<lambda>d. '','' @ entry_text E d) ds)"
  by (induction ds arbitrary: n) (simp_all add: snapshot_entry_Inr)

lemma snapshot_chunks:
  "\<exists>chunks. Inr ''{'' # enumerate_map (snapshot_entry E) (map Inr ds) @ [Inr ''}''] = map Inr chunks \<and>
    concat chunks = object_text E ds"
proof (cases ds)
  case Nil
  then show ?thesis
    by (intro exI [of _ "[''{'', ''}'']"]) (simp add: enumerate_map_def object_text_def)
next
  case (Cons x xs)
  then show ?thesis
    by (intro exI [of _ "[''{''] @ (entry_text E x # map (\<lambda>d. '','' @ entry_text E d) xs) @ [''}'']"])
      (simp add: enumerate_map_def object_text_eq snapshot_entry_Inr later_entries join_comma comp_def
        del: append.simps(2) enumerate_simps(2), simp add: snapshot_entry_Inr later_entries comp_def)
qed

section \<open>The leaves\<close>

text \<open>The keys below \<open>canonical/\<close> are those of the canonical substore.\<close>

lemma leaves_eq:
  assumes "contents_ok s"
  shows "distinct (map fst (om_scan canonical_prefix (verifiable s)))"
    and "set (om_scan canonical_prefix (verifiable s)) = {(canonical_prefix @ k, b) | k b. vget Canonical s k = Some b}"
proof -
  have inv: "om_invar (verifiable s)" using assms by (simp add: contents_ok_def)
  show "distinct (map fst (om_scan canonical_prefix (verifiable s)))"
    using kv.sorted_scan [OF inv] by (simp only: strict_sorted_iff)
  show "set (om_scan canonical_prefix (verifiable s)) = {(canonical_prefix @ k, b) | k b. vget Canonical s k = Some b}"
    by (auto simp: kv.set_scan [OF inv] prefix_def vget_def canonical_prefix_def)
qed

lemma get_leaves_eq:
  assumes "chain_ok E s" "block_height E s = Inr h" "\<And>p. is_ok (proof_encode P p)"
  obtains mp where "get_leaves E P s = Inr
    \<lparr>cl_block_height = h,
     cl_leaves = map (\<lambda>(k, b). (k, hex_encode E b)) (om_scan canonical_prefix (verifiable s)),
     cl_proof = \<lparr>lp_canonical_root_hash = hex_encode E (root_hash_of E (Some Canonical) s),
       lp_app_hash = hex_encode E (root_hash_of E None s), lp_merkle_proof = mp\<rparr>\<rparr>"
proof -
  let ?leaves = "map (\<lambda>(k, b). (k, hex_encode E b)) (om_scan canonical_prefix (verifiable s))"
  obtain b where b: "om_get (verifiable s) (substore_prefix Internal ''current/block_height'') = Some b"
    "height_decode E b = Inr h"
    using assms(2) by (auto simp: block_height_def get_def res_simps split: option.splits)
  have all: "\<exists>bs. ecollect (map (\<lambda>p. ebind (proof_encode P p) (\<lambda>b. Inr (hex_encode E b))) ps) = Inr bs" for ps
  proof (induction ps)
    case (Cons p ps)
    obtain b where "proof_encode P p = Inr b" using assms(3) [of p] by (cases "proof_encode P p") auto
    with Cons show ?case by auto
  qed simp
  have "\<exists>mp. merkle_proof_of E P rep s = Inr mp" for rep
  proof (cases rep)
    case (Some k)
    show ?thesis
    proof (cases "get_with_proof P (as_bytes k) s")
      case (Inr r)
      obtain v ps where "r = (v, ps)" by (cases r)
      with Inr Some all [of ps] show ?thesis by (auto simp: merkle_proof_of_def)
    qed (simp add: merkle_proof_of_def Some)
  qed (simp add: merkle_proof_of_def)
  then obtain mp where "merkle_proof_of E P (representative_key ?leaves) s = Inr mp" by blast
  then show thesis using b by (intro that [of mp]) (simp add: get_leaves_def)
qed

end
