(* ===== verification/Props_Query.thy ===== *)
theory Props_Query
  imports Reconstruct Query_Facts Props_Chain
begin

text \<open>
  The properties of the query interface: what its listings hold, and that the canonical leaves it serves
  determine the canonical substore.
\<close>

section \<open>A sample snapshot\<close>

text \<open>A name with a pending change and a canonical hash.\<close>

definition sample_listed :: contents where
  "sample_listed = fst (apply_observation sample_env (pod_of_domain sample_subdomain, sample_vote_value) sample_pending)"

lemma sample_listed:
  "chain_ok sample_env sample_listed" "config sample_env sample_listed = Inr sample_config"
  "pending_view sample_env (oracle_queue sample_env c) sample_listed (sample_key, sample_time) = Some sample_vote_value"
  "canonical_view sample_env sample_listed sample_subdomain = Some (replicate 32 5)"
  "canonical_view sample_env sample_listed (Domain fqdn_root) = None"
  "block_height sample_env sample_listed = Inr 2"
proof -
  let ?kv = "(pod_of_domain sample_subdomain, sample_vote_value)"
  note eff = apply_observation_effect [OF sample_pending_state(1), of ?kv, folded sample_listed_def]
  have out: "same_outside ''oracle_voting/'' sample_block sample_pending"
    using queue_becomesD(2) [OF sample_pending] by simp
  have can: "vget Canonical sample_listed = [pod_display (pod_of_domain sample_subdomain) \<mapsto> bytes_encode sample_env (replicate 32 5)]"
    unfolding eff(5) using out by (simp add: same_outside_def sample_block_canonical sample_vote_value_def fun_eq_iff)
  have valid: "fqdn_valid sample_env (pod_name (pod_of_domain sample_subdomain))" by (simp add: sample_subdomain_def)
  show "chain_ok sample_env sample_listed"
    unfolding chain_ok_def canonical_ok_def can using eff(2) valid
    by (auto split: if_splits intro!: exI [of _ "pod_of_domain sample_subdomain"] exI [of _ "replicate 32 5"])
  have get: "get dec Internal k sample_listed = get dec Internal k sample_pending" for dec :: "bytes \<Rightarrow> error + 'a" and k
    by (simp add: get_eq eff(3))
  show "config sample_env sample_listed = Inr sample_config"
    using sample_pending_state(3) by (simp add: config_def get)
  show "block_height sample_env sample_listed = Inr 2"
    using reads_outside [OF out] sample_block_reads(2) by (simp add: block_height_def get)
  have "nget Internal sample_listed = nget Internal sample_pending"
    by (simp add: sample_listed_def apply_observation_def sample_vote_value_def store_simps)
  then have "same_queue ''oracle_voting/'' sample_pending sample_listed" by (simp add: same_queue_def eff(3))
  then have "pending_view sample_env (oracle_queue sample_env c) sample_listed =
      pending_view sample_env (oracle_queue sample_env c) sample_pending"
    using queue_ok_cong(3) [of "oracle_queue sample_env c" sample_pending sample_listed]
      state_okD(7) [OF eff(2)] state_okD(1) [OF sample_pending_state(1)] by simp
  moreover have "pending_view sample_env (oracle_queue sample_env c) sample_pending (sample_key, sample_time) = Some sample_vote_value"
    using sample_pending_views(4) views_any_config(2) [of sample_env c sample_pending "q_config (sample_queue 1)"]
    by (simp add: sample_queue_def)
  ultimately show "pending_view sample_env (oracle_queue sample_env c) sample_listed (sample_key, sample_time) = Some sample_vote_value"
    by simp
  show "canonical_view sample_env sample_listed sample_subdomain = Some (replicate 32 5)"
    by (simp add: canonical_view_def can bytes_codec)
  have "pod_display (pod_of_domain (Domain fqdn_root)) \<noteq> pod_display (pod_of_domain sample_subdomain)"
    by (simp add: pod_display_def pod_of_domain_def fqdn_labels_def fqdn_root_def sample_subdomain_def)
  then show "canonical_view sample_env sample_listed (Domain fqdn_root) = None"
    by (simp add: canonical_view_def can)
qed

section \<open>Listings\<close>

text \<open>C21: On a well-formed snapshot the two enrollment endpoints succeed. For the root they list every vote
  and every pending change of the oracle queue, for another name those of its strict subdomains: each
  vote with its oracle, time, name and hash, and each pending change once.\<close>

theorem enrollment_listings_are_exact:
  assumes "chain_ok E (committed st)" "config E (committed st) = Inr c" "fqdn_valid E (domain_name r)"
  shows "\<exists>vs ps. enrollment_votes_endpoint E r st = json_or_error EnrollmentVotesJson (Inr vs) \<and>
    enrollment_pending_endpoint E r st = json_or_error EnrollmentPendingJson (Inr ps) \<and>
    (let Q = oracle_queue E (o_voting (oracles c)) in
     set vs = {\<lparr>ov_oracle = q, ov_time = t, ov_domain = d, ov_hash = ovv_hash_observed v\<rparr> | q t d v.
       fqdn_valid E (domain_name d) \<and> listed_under r d \<and>
       votes_view E Q (committed st) (pod_display (pod_of_domain d), q, t) = Some v} \<and>
     distinct (map po_domain ps) \<and>
     set ps = {\<lparr>po_time = t, po_domain = d, po_hash = ovv_hash_observed v\<rparr> | t d v.
       fqdn_valid E (domain_name d) \<and> listed_under r d \<and>
       pending_view E Q (committed st) (pod_display (pod_of_domain d), t) = Some v})"
proof -
  let ?s = "committed st"
  let ?Q = "oracle_queue E (o_voting (oracles c))"
  have voting: "oracle_voting E ?s = Inr ?Q" by (simp add: oracle_voting_def assms(2))
  obtain vs where vs: "(if domain_name r \<noteq> fqdn_root
      then votes_for_key_prefix E ?Q (pod_of_domain r) (Some CHR ''.'') ?s
      else votes_for_key_prefix E ?Q (pod_of_domain (Domain fqdn_root)) None ?s) = Inr vs"
    "set vs = {\<lparr>vote_party = q, vote_time = t, vote_key = p, vote_value = v\<rparr> | p q t v.
       fqdn_valid E (pod_name p) \<and> listed_under r (domain_of_pod p) \<and> votes_view E ?Q ?s (pod_display p, q, t) = Some v}"
    by (rule enrollment_votes_eq [OF assms])
  obtain ps where ps: "(if domain_name r \<noteq> fqdn_root
      then pending_for_key_prefix E ?Q (pod_of_domain r) (Some CHR ''.'') ?s
      else pending_for_key_prefix E ?Q (pod_of_domain (Domain fqdn_root)) None ?s) = Inr ps"
    "distinct (map (\<lambda>(_, p, _). p) ps)"
    "set ps = {(t, p, v) | t p v. fqdn_valid E (pod_name p) \<and> listed_under r (domain_of_pod p) \<and>
       pending_view E ?Q ?s (pod_display p, t) = Some v}"
    by (rule enrollment_pending_eq [OF assms])
  let ?v = "\<lambda>v. \<lparr>ov_oracle = vote_party v, ov_time = vote_time v, ov_domain = domain_of_pod (vote_key v),
      ov_hash = ovv_hash_observed (vote_value v)\<rparr>"
  let ?p = "\<lambda>(t, key, value). \<lparr>po_time = t, po_domain = domain_of_pod key, po_hash = ovv_hash_observed value\<rparr>"
  have "enrollment_votes_endpoint E r st = json_or_error EnrollmentVotesJson (Inr (map ?v vs))"
    "enrollment_pending_endpoint E r st = json_or_error EnrollmentPendingJson (Inr (map ?p ps))"
    by (simp_all only: enrollment_votes_endpoint_def enrollment_pending_endpoint_def voting ebind.simps vs(1) ps(1))
  moreover have "set (map ?v vs) = {\<lparr>ov_oracle = q, ov_time = t, ov_domain = d, ov_hash = ovv_hash_observed v\<rparr> | q t d v.
       fqdn_valid E (domain_name d) \<and> listed_under r d \<and> votes_view E ?Q ?s (pod_display (pod_of_domain d), q, t) = Some v}"
    (is "_ = ?S")
  proof (intro set_eqI iffI)
    fix x assume "x \<in> set (map ?v vs)"
    then obtain p q t v where x: "x = \<lparr>ov_oracle = q, ov_time = t, ov_domain = domain_of_pod p, ov_hash = ovv_hash_observed v\<rparr>"
      "fqdn_valid E (pod_name p)" "listed_under r (domain_of_pod p)" "votes_view E ?Q ?s (pod_display p, q, t) = Some v"
      unfolding set_map vs(2) by auto
    show "x \<in> ?S"
      by (intro CollectI exI [of _ q] exI [of _ t] exI [of _ "domain_of_pod p"] exI [of _ v]) (simp add: x)
  next
    fix x assume "x \<in> ?S"
    then obtain q t d v where x: "x = \<lparr>ov_oracle = q, ov_time = t, ov_domain = d, ov_hash = ovv_hash_observed v\<rparr>"
      "fqdn_valid E (domain_name d)" "listed_under r d" "votes_view E ?Q ?s (pod_display (pod_of_domain d), q, t) = Some v"
      by blast
    have "\<lparr>vote_party = q, vote_time = t, vote_key = pod_of_domain d, vote_value = v\<rparr> \<in> set vs"
      using x(2-4) unfolding vs(2) by auto
    then show "x \<in> set (map ?v vs)" unfolding set_map by (rule rev_image_eqI) (simp add: x(1))
  qed
  moreover have "distinct (map po_domain (map ?p ps))"
  proof -
    have "map po_domain (map ?p ps) = map domain_of_pod (map (\<lambda>(_, p, _). p) ps)" by (simp add: comp_def split_def)
    then show ?thesis using ps(2) by (simp only: distinct_map [of domain_of_pod]) (simp add: inj_on_def)
  qed
  moreover have "set (map ?p ps) = {\<lparr>po_time = t, po_domain = d, po_hash = ovv_hash_observed v\<rparr> | t d v.
       fqdn_valid E (domain_name d) \<and> listed_under r d \<and> pending_view E ?Q ?s (pod_display (pod_of_domain d), t) = Some v}"
    (is "_ = ?S")
  proof (intro set_eqI iffI)
    fix x assume "x \<in> set (map ?p ps)"
    then obtain t p v where x: "x = \<lparr>po_time = t, po_domain = domain_of_pod p, po_hash = ovv_hash_observed v\<rparr>"
      "fqdn_valid E (pod_name p)" "listed_under r (domain_of_pod p)" "pending_view E ?Q ?s (pod_display p, t) = Some v"
      unfolding set_map ps(3) by auto
    show "x \<in> ?S"
      by (intro CollectI exI [of _ t] exI [of _ "domain_of_pod p"] exI [of _ v]) (simp add: x)
  next
    fix x assume "x \<in> ?S"
    then obtain t d v where x: "x = \<lparr>po_time = t, po_domain = d, po_hash = ovv_hash_observed v\<rparr>"
      "fqdn_valid E (domain_name d)" "listed_under r d" "pending_view E ?Q ?s (pod_display (pod_of_domain d), t) = Some v"
      by blast
    have "(t, pod_of_domain d, v) \<in> set ps" using x(2-4) unfolding ps(3) by auto
    then show "x \<in> set (map ?p ps)" unfolding set_map by (rule rev_image_eqI) (simp add: x(1))
  qed
  ultimately show ?thesis
    unfolding Let_def by (intro exI [of _ "map ?v vs"] exI [of _ "map ?p ps"] conjI)
qed

theorem enrollment_listings_are_exact_witness:
  "\<exists>ps. enrollment_pending_endpoint sample_env (Domain [''com'']) (store_new sample_listed) =
      json_or_error EnrollmentPendingJson (Inr ps) \<and>
    \<lparr>po_time = sample_time, po_domain = sample_subdomain, po_hash = Hash (replicate 32 5)\<rparr> \<in> set ps"
proof -
  have s: "chain_ok sample_env (committed (store_new sample_listed))"
    "config sample_env (committed (store_new sample_listed)) = Inr sample_config"
    using sample_listed(1,2) by (simp_all add: store_new_def)
  have r: "fqdn_valid sample_env (domain_name (Domain [''com'']))" by simp
  show ?thesis
    using enrollment_listings_are_exact [OF s(1,2) r] unfolding Let_def
  proof (elim exE conjE, goal_cases)
    case (1 vs ps)
    let ?c = "o_voting (oracles sample_config)"
    have key: "pod_display (pod_of_domain sample_subdomain) = sample_key" using sample_key [of 1] by (simp add: sample_queue_def sample_vote_def)
    have "listed_under (Domain [''com'']) sample_subdomain" "fqdn_valid sample_env (domain_name sample_subdomain)"
      by (simp_all add: listed_under_def sample_subdomain_def fqdn_is_subdomain_of_def suffix_def)
    moreover have "pending_view sample_env (oracle_queue sample_env ?c) (committed (store_new sample_listed))
        (pod_display (pod_of_domain sample_subdomain), sample_time) = Some sample_vote_value"
      unfolding key using sample_listed(3) by (simp add: store_new_def)
    moreover have "ovv_hash_observed sample_vote_value = Hash (replicate 32 5)" by (simp add: sample_vote_value_def)
    ultimately have "\<lparr>po_time = sample_time, po_domain = sample_subdomain, po_hash = Hash (replicate 32 5)\<rparr> \<in> set ps"
      unfolding 1(5)
      by (intro CollectI exI [of _ sample_time] exI [of _ sample_subdomain] exI [of _ sample_vote_value]) (simp only: simp_thms)
    with 1(2) show ?case by blast
  qed
qed

text \<open>C22: A snapshot of a well-formed state streams without an error, and its chunks make the JSON object that
  maps the name asked for, if it is canonical, and its canonical subdomains (every name for the root) to
  the hashes stored for them, each name once.\<close>

theorem snapshot_is_canonical_table:
  assumes "chain_ok E (committed st)" "fqdn_valid E (domain_name r)"
    and "canonical_view E (committed st) (Domain fqdn_root) = None"
  shows "\<exists>chunks ds. snapshot_endpoint E r st = json_or_error Chunks (Inr (map Inr chunks)) \<and>
    concat chunks = object_text E ds \<and> distinct (map fst ds) \<and>
    set ds = {(d, h). fqdn_valid E (domain_name d) \<and> canonical_view E (committed st) d = Some h \<and>
                (d = r \<or> listed_under r d)}"
proof -
  have ok: "state_ok E (committed st)" "canonical_ok E (committed st)" using assms(1) by (simp_all add: chain_ok_def)
  obtain ds where ds: "canonical_subdomains_hashes E r (committed st) = Inr (map Inr ds)" "distinct (map fst ds)"
    "set ds = {(d, h). fqdn_valid E (domain_name d) \<and> canonical_view E (committed st) d = Some h \<and> (d = r \<or> listed_under r d)}"
    by (rule canonical_hashes_eq [OF state_okD(6) [OF ok(1)] ok(2) state_okD(7) [OF ok(1)] assms(2,3)])
  obtain chunks where "Inr ''{'' # enumerate_map (snapshot_entry E) (map Inr ds) @ [Inr ''}''] = map Inr chunks"
    "concat chunks = object_text E ds" using snapshot_chunks [of E ds] by (elim exE conjE)
  with ds show ?thesis
    by (intro exI [of _ chunks] exI [of _ ds]) (simp add: snapshot_endpoint_def json_or_error_def)
qed

theorem snapshot_is_canonical_table_witness:
  "\<exists>chunks ds. snapshot_endpoint sample_env (Domain [''com'']) (store_new sample_listed) =
      json_or_error Chunks (Inr (map Inr chunks)) \<and>
    concat chunks = object_text sample_env ds \<and> (sample_subdomain, replicate 32 5) \<in> set ds"
proof -
  have s: "chain_ok sample_env (committed (store_new sample_listed))"
    "canonical_view sample_env (committed (store_new sample_listed)) (Domain fqdn_root) = None"
    using sample_listed(1,5) by (simp_all add: store_new_def)
  have r: "fqdn_valid sample_env (domain_name (Domain [''com'']))" by simp
  show ?thesis
    using snapshot_is_canonical_table [OF s(1) r s(2)]
  proof (elim exE conjE, goal_cases)
    case (1 chunks ds)
    have "listed_under (Domain [''com'']) sample_subdomain" "fqdn_valid sample_env (domain_name sample_subdomain)"
      by (simp_all add: listed_under_def sample_subdomain_def fqdn_is_subdomain_of_def suffix_def)
    then have "(sample_subdomain, replicate 32 5) \<in> set ds"
      unfolding 1(4) using sample_listed(4) by (simp add: store_new_def)
    with 1(1,2) show ?case by blast
  qed
qed

section \<open>The leaves\<close>

text \<open>The root of a substore is that of the entries under its prefix: the storage library keeps one tree for
  each substore.\<close>

definition substore_roots :: "env \<Rightarrow> bool" where
  "substore_roots E =
    (\<forall>p m m'. om_invar m \<longrightarrow> om_invar m' \<longrightarrow> om_scan (p @ ''/'') m = om_scan (p @ ''/'') m' \<longrightarrow>
      merkle_prefix_root E p m = merkle_prefix_root E p m')"

lemma put_leaves_eq:
  assumes "env_ok E"
  shows "put_leaves E (map (\<lambda>(k, b). (k, hex_encode E b)) kbs) st =
    (st\<lparr>pending := (pending st)\<lparr>verifiable := fold (\<lambda>(k, b). om_put k b) kbs (verifiable (pending st))\<rparr>\<rparr>, Inr ())"
proof (induction kbs arbitrary: st)
  case (Cons kb kbs)
  obtain k b where "kb = (k, b)" by (cases kb)
  with Cons show ?case by (simp add: put_leaves_def put_raw_def env_hex_decode [OF assms])
qed (simp add: put_leaves_def)

lemma om_invar_fold: "om_invar m \<Longrightarrow> om_invar (fold (\<lambda>(k, b). om_put k b) kbs m)"
  by (induction kbs arbitrary: m) (auto simp: om_invar_put)

lemma om_get_fold:
  "distinct (map fst kbs) \<Longrightarrow> om_get (fold (\<lambda>(k, b). om_put k b) kbs m) = om_get m ++ map_of kbs"
proof (induction kbs arbitrary: m)
  case (Cons kb kbs)
  obtain k b where kb: "kb = (k, b)" by (cases kb)
  have "map_of kbs k = None" using Cons.prems kb by (auto simp: map_of_eq_None_iff)
  then have "(om_get m)(k \<mapsto> b) ++ map_of kbs = om_get m ++ map_of (kb # kbs)"
    by (auto simp: kb fun_eq_iff map_add_def split: option.splits)
  moreover have "distinct (map fst kbs)" using Cons.prems by simp
  ultimately show ?case
    using Cons.IH [of "om_put k b m"] by (simp only: kb fold_Cons comp_apply prod.case om_get_put)
qed simp

lemma om_get_scan: "om_get (om_scan p m) k = (if prefix p k then om_get m k else None)"
  by (induction m) (auto simp: om_scan_def)

text \<open>C23: The leaves a node serves determine the canonical substore: put into an empty store they give
  exactly its canonical entries and nothing else, so the root of the rebuilt substore is the canonical root
  hash the node announced with them.\<close>

theorem leaves_rebuild_canonical_substore:
  assumes "chain_ok E s" "get_leaves E P s = Inr resp" "substore_roots E"
  shows "\<exists>st'. put_leaves E (cl_leaves resp) (store_new empty_contents) = (st', Inr ()) \<and>
    vget Canonical (pending st') = vget Canonical s \<and> vget Internal (pending st') = Map.empty \<and>
    hex_encode E (root_hash_of E (Some Canonical) (pending st')) = lp_canonical_root_hash (cl_proof resp)"
proof -
  have ok: "state_ok E s" using assms(1) by (simp add: chain_ok_def)
  note env = state_okD(6) [OF ok] and cok = state_okD(7) [OF ok]
  let ?kbs = "om_scan canonical_prefix (verifiable s)"
  let ?m = "fold (\<lambda>(k, b). om_put k b) ?kbs om_empty"
  let ?st = "(store_new empty_contents)\<lparr>pending := empty_contents\<lparr>verifiable := ?m\<rparr>\<rparr>"
  have resp: "cl_leaves resp = map (\<lambda>(k, b). (k, hex_encode E b)) ?kbs"
    "lp_canonical_root_hash (cl_proof resp) = hex_encode E (root_hash_of E (Some Canonical) s)"
    using assms(2) by (auto simp: get_leaves_def res_simps Let_def)
  have inv: "om_invar (verifiable s)" using cok by (simp add: contents_ok_def)
  have inv': "om_invar ?m" by (rule om_invar_fold) (simp add: om_invar_def)
  have get: "om_get ?m k = (if prefix canonical_prefix k then om_get (verifiable s) k else None)" for k
    using leaves_eq(1) [OF cok] by (simp add: om_get_fold om_get_scan)
  have pre: "prefix canonical_prefix (substore_display Canonical @ ''/'' @ k)"
    "\<not> prefix canonical_prefix (substore_display Internal @ ''/'' @ k)" for k by (simp_all add: canonical_prefix_def)
  have v: "vget sub (pending ?st) k = om_get ?m (substore_display sub @ ''/'' @ k)" for sub k by (simp add: vget_def)
  have views: "vget Canonical (pending ?st) = vget Canonical s" "vget Internal (pending ?st) = Map.empty"
    by (rule ext, simp only: v get pre if_True if_False vget_def [of Canonical s])+
  have "om_scan (substore_display Canonical @ ''/'') ?m = om_scan (substore_display Canonical @ ''/'') (verifiable s)"
    by (rule kv.scan_cong [OF inv' inv]) (simp only: get, simp add: canonical_prefix_def)
  then have "merkle_prefix_root E (substore_display Canonical) ?m = merkle_prefix_root E (substore_display Canonical) (verifiable s)"
    by (rule assms(3) [unfolded substore_roots_def, rule_format, OF inv' inv])
  moreover have "verifiable (pending ?st) = ?m" by simp
  ultimately have "root_hash_of E (Some Canonical) (pending ?st) = root_hash_of E (Some Canonical) s"
    by (simp only: root_hash_of_def option.case)
  moreover have "put_leaves E (cl_leaves resp) (store_new empty_contents) = (?st, Inr ())"
    unfolding resp(1) put_leaves_eq [OF env] by (simp add: store_new_def empty_contents_def)
  ultimately show ?thesis
    unfolding resp(2) by (intro exI [of _ ?st] conjI views) (simp_all only:)
qed

definition sample_prover :: "bytes prover" where
  "sample_prover = \<lparr>get_with_proof = (\<lambda>k s. Inr (None, [k])), proof_encode = Inr\<rparr>"

lemma substore_roots_sample: "substore_roots sample_env"
  by (simp add: substore_roots_def sample_env_def om_scan_def)

theorem leaves_rebuild_canonical_substore_witness:
  "\<exists>resp st'. get_leaves sample_env sample_prover sample_listed = Inr resp \<and>
    put_leaves sample_env (cl_leaves resp) (store_new empty_contents) = (st', Inr ()) \<and>
    vget Canonical (pending st') = vget Canonical sample_listed"
proof -
  obtain mp where "get_leaves sample_env sample_prover sample_listed = Inr mp"
    by (rule get_leaves_eq [OF sample_listed(1,6), of sample_prover]) (simp_all add: sample_prover_def)
  with leaves_rebuild_canonical_substore [OF sample_listed(1) this substore_roots_sample] show ?thesis by blast
qed

end
