(* ===== verification/Props_Publish.thy ===== *)
theory Props_Publish
  imports Reconstruct Query_Facts Sample_State
begin

text \<open>
  The properties of the publisher: when a light block is accepted, what an overflow of the voting power
  does to it, and how the reconstruction of the canonical table ends.
\<close>

section \<open>Accepting a light block\<close>

text \<open>A slot of the commit passes: it is not a vote for the block, or its signature verifies.\<close>

fun slot_valid :: "'p light_env \<Rightarrow> string \<Rightarrow> tm_commit \<Rightarrow> validator_set \<Rightarrow> nat \<times> commit_sig \<Rightarrow> bool" where
  "slot_valid L chain cm vs (i, BlockIdFlagCommit ts (Some sig)) =
     (\<exists>index cid b. validator_index_try_from L i = Some index \<and> tm_chain_id_try_from L chain = Some cid \<and>
        to_signable_bytes L cid (precommit_for cm (vs_validators vs ! i) index ts sig) = Some b \<and>
        signature_verify L (vi_pub_key (vs_validators vs ! i)) b sig)"
| "slot_valid L chain cm vs (i, BlockIdFlagCommit ts None) = False"
| "slot_valid L chain cm vs (i, _) = True"

text \<open>The power of the validators that voted for the block, and of all.\<close>

fun signed_power :: "validator_info list \<Rightarrow> commit_sig list \<Rightarrow> nat" where
  "signed_power (v # vals) (BlockIdFlagCommit ts sig # sigs) = unat (vi_power v) + signed_power vals sigs"
| "signed_power (v # vals) (s # sigs) = signed_power vals sigs"
| "signed_power vals sigs = 0"

definition total_power :: "validator_info list \<Rightarrow> nat" where
  "total_power vals = sum_list (map (\<lambda>v. unat (vi_power v)) vals)"

lemma signed_power_le: "signed_power vals sigs \<le> total_power vals"
  by (induction vals sigs rule: signed_power.induct) (auto simp: total_power_def)

lemma tally_signatures_iff:
  assumes "length (vs_validators vs) = idx + length sigs"
  shows "tally_signatures L chain cm vs idx sigs acc = Inr t \<longleftrightarrow>
    (\<forall>x \<in> set (enumerate idx sigs). slot_valid L chain cm vs x) \<and>
    t = acc + word_of_nat (signed_power (drop idx (vs_validators vs)) sigs)"
  using assms
proof (induction sigs arbitrary: idx acc)
  case Nil
  then show ?case by auto
next
  case (Cons s sigs)
  then have idx: "idx < length (vs_validators vs)" by simp
  then have d: "drop idx (vs_validators vs) = vs_validators vs ! idx # drop (Suc idx) (vs_validators vs)"
    by (simp add: Cons_nth_drop_Suc)
  have IH: "tally_signatures L chain cm vs (Suc idx) sigs acc' = Inr t \<longleftrightarrow>
    (\<forall>x \<in> set (enumerate (Suc idx) sigs). slot_valid L chain cm vs x) \<and>
    t = acc' + word_of_nat (signed_power (drop (Suc idx) (vs_validators vs)) sigs)" for acc'
    by (rule Cons.IH) (use Cons.prems in simp)
  show ?case
  proof (cases s)
    case (BlockIdFlagCommit ts sg)
    then show ?thesis
      by (cases sg) (auto simp: idx d IH res_simps)
  qed (simp_all add: idx d IH)
qed

lemma sint_word_of_nat: "n < 2 ^ 63 \<Longrightarrow> sint (word_of_nat n :: 64 word) = int n"
  by (simp add: sint_eq unsigned_of_nat take_bit_nat_eq_self)

lemma sdiv_third: "- int n sdiv 3 = - int (n div 3)"
  by (cases "n = 0") (simp_all add: signed_divide_int_def zdiv_int sgn_if)

lemma sint_minus_word:
  assumes "0 < m" "m < 2 ^ 62"
  shows "sint (- word_of_nat m :: 64 word) < 0"
proof -
  have "(word_of_nat (2 ^ 64 - m) :: 64 word) + word_of_nat m = word_of_nat (2 ^ 64)"
    using assms by (simp only: of_nat_add [symmetric]) simp
  also have "\<dots> = 0" by simp
  finally have w: "- word_of_nat m = (word_of_nat (2 ^ 64 - m) :: 64 word)" by (metis add.commute minus_unique)
  have "2 ^ 64 - m < (2 ^ 64 :: nat)" using assms(1) by simp
  then have "take_bit 64 (2 ^ 64 - m) = (2 ^ 64 - m)" by (simp only: take_bit_nat_eq_self)
  then have "unat (- word_of_nat m :: 64 word) = 2 ^ 64 - m" unfolding w by (simp only: unsigned_of_nat len_bit0 len_num1 mult_1_right) simp
  then show ?thesis using assms by (simp add: sint_eq)
qed

lemma needed_power:
  assumes "2 * n < 2 ^ 63"
  shows "sint (voting_power_needed (word_of_nat n)) = int (2 * n div 3)"
proof -
  have "(word_of_nat n * 2 :: 64 word) = word_of_nat (2 * n)" by simp
  then have "sint (word_of_nat n * 2 :: 64 word) = int (2 * n)" using sint_word_of_nat [OF assms] by (simp only:)
  then have "sint (word_of_nat n * 2 :: 64 word) sdiv 3 = int (2 * n div 3)"
    by (cases "n = 0") (simp_all add: signed_divide_int_def zdiv_int)
  then have "voting_power_needed (word_of_nat n) = word_of_nat (2 * n div 3)"
    by (simp only: voting_power_needed_def of_int_of_nat_eq)
  moreover have "2 * n div 3 < 2 ^ 63" using assms by linarith
  ultimately show ?thesis by (simp only: sint_word_of_nat)
qed

text \<open>C17: A light block is accepted exactly when the commit is one for its header with a slot for each
  validator, every vote for the block in it carries a signature that verifies over the precommit, and the
  validators that voted for the block hold more than two thirds of the power. (The total of a validator
  set is the sum of its powers, and the double of it fits in an \<open>i64\<close>.)\<close>

theorem light_block_accepted_iff:
  assumes "vs_total_voting_power vs = word_of_nat (total_power (vs_validators vs))"
    and "2 * total_power (vs_validators vs) < 2 ^ 63"
  shows "verify_light_block L sh vs chain = Inr () \<longleftrightarrow>
    length (vs_validators vs) = length (cm_signatures (sh_commit sh)) \<and>
    bh_height (sh_header sh) = cm_height (sh_commit sh) \<and>
    header_hash L (sh_header sh) = bi_hash (cm_block_id (sh_commit sh)) \<and>
    (\<forall>x \<in> set (enumerate 0 (cm_signatures (sh_commit sh))). slot_valid L chain (sh_commit sh) vs x) \<and>
    2 * total_power (vs_validators vs) < 3 * signed_power (vs_validators vs) (cm_signatures (sh_commit sh))"
proof (cases "length (vs_validators vs) = length (cm_signatures (sh_commit sh))")
  case True
  let ?S = "signed_power (vs_validators vs) (cm_signatures (sh_commit sh))"
  let ?T = "total_power (vs_validators vs)"
  have "?S \<le> ?T" by (rule signed_power_le)
  then have "sint (word_of_nat ?S :: 64 word) = int ?S" using assms(2) by (intro sint_word_of_nat) linarith
  moreover have "sint (voting_power_needed (vs_total_voting_power vs)) = int (2 * ?T div 3)"
    unfolding assms(1) by (rule needed_power [OF assms(2)])
  moreover have "\<not> int ?S \<le> int (2 * ?T div 3) \<longleftrightarrow> 2 * ?T < 3 * ?S" by linarith
  ultimately have enough: "\<not> sint (word_of_nat ?S :: 64 word) \<le> sint (voting_power_needed (vs_total_voting_power vs))
      \<longleftrightarrow> 2 * ?T < 3 * ?S" by (simp only:)
  have tally: "tally_signatures L chain (sh_commit sh) vs 0 (cm_signatures (sh_commit sh)) 0 = Inr t \<longleftrightarrow>
      (\<forall>x \<in> set (enumerate 0 (cm_signatures (sh_commit sh))). slot_valid L chain (sh_commit sh) vs x) \<and>
      t = word_of_nat ?S" for t
    using tally_signatures_iff [of vs 0 "cm_signatures (sh_commit sh)" L chain "sh_commit sh" 0 t] True
    by (simp only: drop_0 add_0 simp_thms)
  show ?thesis
    unfolding verify_light_block_def Let_def ebind_Inr_iff check_Inr tally
    using True enough by auto
qed (simp add: verify_light_block_def check_def)

definition sample_light :: "bytes light_env" where
  "sample_light =
    \<lparr>header_hash = (\<lambda>h. bh_app_hash h), validator_index_try_from = Some, tm_chain_id_try_from = Some,
     to_signable_bytes = (\<lambda>cid pv. Some (as_bytes cid @ bi_hash (the (pv_block_id pv)))),
     signature_verify = (\<lambda>pk b sig. sig = pk_to_bytes pk @ b),
     validator_set_new = (\<lambda>vals p. \<lparr>vs_validators = vals, vs_proposer = p,
       vs_total_voting_power = word_of_nat (sum_list (map (\<lambda>v. unat (vi_power v)) vals))\<rparr>),
     proof_decode = Some, verify_membership = (\<lambda>ps root path v. True)\<rparr>"

definition sample_validators :: "power list \<Rightarrow> validator_set" where
  "sample_validators ps = validator_set_new sample_light
    (map (\<lambda>p. \<lparr>vi_address = [1], vi_pub_key = Ed25519 [7], vi_power = p\<rparr>) ps) None"

definition sample_header :: "commit_sig list \<Rightarrow> signed_header" where
  "sample_header sigs =
    \<lparr>sh_header = \<lparr>bh_height = 5, bh_app_hash = [9], bh_proposer_address = [1], bh_rest = []\<rparr>,
     sh_commit = \<lparr>cm_height = 5, cm_round = 0, cm_block_id = BlockId [9] [], cm_signatures = sigs\<rparr>\<rparr>"

definition sample_slot :: commit_sig where
  "sample_slot = BlockIdFlagCommit 0 (Some ([7] @ as_bytes ''felidae'' @ [9]))"

text \<open>Three of four equal validators are enough; two of three are not.\<close>

theorem light_block_accepted_iff_witness:
  "verify_light_block sample_light (sample_header [sample_slot, sample_slot, BlockIdFlagAbsent, sample_slot])
     (sample_validators [1, 1, 1, 1]) ''felidae'' = Inr () \<and>
   verify_light_block sample_light (sample_header [sample_slot, sample_slot, BlockIdFlagAbsent])
     (sample_validators [1, 1, 1]) ''felidae'' \<noteq> Inr ()"
proof -
  have total: "vs_total_voting_power (sample_validators ps) = word_of_nat (total_power (vs_validators (sample_validators ps)))" for ps
    by (simp add: sample_validators_def sample_light_def total_power_def comp_def)
  have small: "2 * total_power (vs_validators (sample_validators [1, 1, 1, 1])) < 2 ^ 63"
    "2 * total_power (vs_validators (sample_validators [1, 1, 1])) < 2 ^ 63"
    by (simp_all add: sample_validators_def sample_light_def total_power_def)
  show ?thesis
    unfolding light_block_accepted_iff [OF total small(1)] light_block_accepted_iff [OF total small(2)]
    by (simp add: sample_validators_def sample_light_def sample_header_def sample_slot_def total_power_def precommit_for_def)
qed

text \<open>The bound that is computed from a total power of \<open>2 ^ 62\<close> or more, where the double wraps.\<close>

lemma needed_power_wraps:
  assumes "2 ^ 62 \<le> unat T" "unat T < 2 ^ 63"
  shows "voting_power_needed T = - word_of_nat ((2 ^ 64 - 2 * unat T) div 3)"
proof -
  have "unat (T * 2) = 2 * unat T" using assms(2) by (simp add: unat_word_ariths)
  then have "sint (T * 2) = 2 * int (unat T) - 18446744073709551616" using assms(1) by (simp add: sint_eq)
  moreover have "2 * unat T \<le> 2 ^ 64" using assms(2) by simp
  then have "int (2 ^ 64 - 2 * unat T) = 2 ^ 64 - 2 * int (unat T)"
    by (simp only: of_nat_diff of_nat_mult of_nat_power of_nat_numeral)
  ultimately have "sint (T * 2) = - int (2 ^ 64 - 2 * unat T)" by simp
  then have "voting_power_needed T = word_of_int (- int ((2 ^ 64 - 2 * unat T) div 3))"
    by (simp only: voting_power_needed_def sdiv_third)
  then show ?thesis by (simp only: of_int_minus of_int_of_nat_eq)
qed

lemma needed_power_negative:
  assumes "unat T < 2 ^ 63"
  shows "sint (voting_power_needed T) < 0 \<longleftrightarrow> 2 ^ 62 \<le> unat T \<and> unat T < 2 ^ 63 - 1"
proof (cases "2 ^ 62 \<le> unat T")
  case False
  then have "2 * unat T < 2 ^ 63" by simp
  from needed_power [OF this] have "0 \<le> sint (voting_power_needed T)" by simp
  with False show ?thesis by simp
next
  case True
  let ?m = "(2 ^ 64 - 2 * unat T) div 3"
  note wraps = needed_power_wraps [OF True assms]
  show ?thesis
  proof (cases "unat T < 2 ^ 63 - 1")
    case below: True
    have "0 < ?m" "?m < 2 ^ 62" using True below by auto
    then show ?thesis unfolding wraps using True below by (simp only: sint_minus_word simp_thms)
  next
    case False
    then have "unat T = 2 ^ 63 - 1" using assms by linarith
    then have "?m = 0" by simp
    then show ?thesis unfolding wraps using False by simp
  qed
qed

text \<open>C34: For a total power of at least \<open>2 ^ 62\<close> and at most \<open>2 ^ 63 - 2\<close>, and for no other that fits in an
  \<open>i64\<close>, the double of it wraps and the power needed is negative; a commit of the right height, block and
  length that nobody signed is then accepted, and only then. (The largest \<open>i64\<close> itself doubles to \<open>-2\<close>, the
  third of which is zero. The arithmetic wraps as it does in a release build.)\<close>

theorem light_block_power_overflow:
  assumes "length (vs_validators vs) = length (cm_signatures (sh_commit sh))"
    and "bh_height (sh_header sh) = cm_height (sh_commit sh)"
    and "header_hash L (sh_header sh) = bi_hash (cm_block_id (sh_commit sh))"
    and "\<forall>s \<in> set (cm_signatures (sh_commit sh)). s = BlockIdFlagAbsent"
    and "unat (vs_total_voting_power vs) < 2 ^ 63"
  defines "wraps \<equiv> 2 ^ 62 \<le> unat (vs_total_voting_power vs) \<and> unat (vs_total_voting_power vs) < 2 ^ 63 - 1"
  shows "(sint (voting_power_needed (vs_total_voting_power vs)) < 0 \<longleftrightarrow> wraps) \<and>
    (verify_light_block L sh vs chain = Inr () \<longleftrightarrow> wraps)"
proof -
  have none: "signed_power vals sigs = 0" if "\<forall>s \<in> set sigs. s = BlockIdFlagAbsent" for vals sigs
    using that by (induction vals sigs rule: signed_power.induct) auto
  have "\<forall>x \<in> set (enumerate 0 (cm_signatures (sh_commit sh))). slot_valid L chain (sh_commit sh) vs x"
    using assms(4) nth_mem by (fastforce simp: in_set_enumerate_eq)
  then have "tally_signatures L chain (sh_commit sh) vs 0 (cm_signatures (sh_commit sh)) 0 = Inr 0"
    using tally_signatures_iff [of vs 0 "cm_signatures (sh_commit sh)" L chain "sh_commit sh" 0 0] assms(1)
      none [OF assms(4)] by simp
  then have "verify_light_block L sh vs chain = Inr () \<longleftrightarrow> sint (voting_power_needed (vs_total_voting_power vs)) < 0"
    using assms(1-3) by (simp add: verify_light_block_def check_def not_le)
  with needed_power_negative [OF assms(5)] show ?thesis unfolding wraps_def by simp
qed

text \<open>At \<open>2 ^ 62\<close> and at \<open>2 ^ 63 - 2\<close> the unsigned commit is accepted, one below and one above it is not.\<close>

theorem light_block_power_overflow_witness:
  "verify_light_block sample_light (sample_header [BlockIdFlagAbsent]) (sample_validators [2 ^ 62]) ''felidae'' = Inr () \<and>
   verify_light_block sample_light (sample_header [BlockIdFlagAbsent]) (sample_validators [2 ^ 63 - 2]) ''felidae'' = Inr () \<and>
   verify_light_block sample_light (sample_header [BlockIdFlagAbsent]) (sample_validators [2 ^ 62 - 1]) ''felidae'' \<noteq> Inr () \<and>
   verify_light_block sample_light (sample_header [BlockIdFlagAbsent]) (sample_validators [2 ^ 63 - 1]) ''felidae'' \<noteq> Inr ()"
proof -
  have accepted: "verify_light_block sample_light (sample_header [BlockIdFlagAbsent]) (sample_validators [p]) ''felidae'' = Inr ()
      \<longleftrightarrow> 2 ^ 62 \<le> unat p \<and> unat p < 2 ^ 63 - 1" if p: "unat p < 2 ^ 63" for p
    using light_block_power_overflow [of "sample_validators [p]" "sample_header [BlockIdFlagAbsent]" sample_light] p
    by (simp add: sample_validators_def sample_light_def sample_header_def)
  show ?thesis by (simp add: accepted)
qed

section \<open>The reconstruction\<close>

lemma put_leaves_staged: "staged (fst (put_leaves E leaves st)) = staged st"
proof (induction leaves arbitrary: st)
  case (Cons leaf leaves)
  obtain k v where leaf: "leaf = (k, v)" by (cases leaf)
  show ?case
  proof (cases "hex_decode E v")
    case (Some b)
    then have "put_leaves E (leaf # leaves) st = put_leaves E leaves (put_raw k b st)" by (simp add: put_leaves_def leaf)
    with Cons.IH [of "put_raw k b st"] show ?thesis by (simp add: put_raw_def)
  qed (simp add: put_leaves_def leaf)
qed (simp add: put_leaves_def)

lemma rebuild_fails: "rebuild_canonical_root E tmp leaves \<noteq> Inr root"
proof -
  obtain st r where st: "put_leaves E leaves (store_new tmp) = (st, r)" by (cases "put_leaves E leaves (store_new tmp)")
  have "staged st = None" using put_leaves_staged [of E leaves "store_new tmp"] st by (simp add: store_new_def)
  then have "commit st = (st, Inl NoStagedBatch)" by (simp add: commit_def)
  then show ?thesis by (cases r) (simp_all add: rebuild_canonical_root_def st)
qed

lemma awaiting_Some_Inr: "awaiting r f = Some (Inr y) \<longleftrightarrow> (\<exists>x. r = Some (Inr x) \<and> f x = Some (Inr y))"
  by (cases "(r, f)" rule: awaiting.cases) auto

text \<open>C40: The command \<open>reconstruct\<close> never succeeds, whatever the node and the query server answer: it
  commits the temporary store without preparing the commit, and no batch is staged.\<close>

theorem reconstruct_never_succeeds:
  "reconstruct E L response rpc polls temp_dir timeout_limit \<noteq> Some (Inr ())"
  by (auto simp: reconstruct_def Let_def awaiting_Some_Inr res_simps rebuild_fails)

end
