(* ===== verification/Oracle.thy ===== *)
theory Oracle
  imports Sign Chain_State
begin

text \<open>
  The clients that make transactions: the oracle library (\<open>crates/felidae-oracle/src/lib.rs\<close>), zone
  inference and the observation of a domain (\<open>crates/felidae/src/cli/oracle/zone.rs\<close>,
  \<open>cli/oracle.rs\<close>), and the admin library (\<open>crates/felidae-admin/src/lib.rs\<close>). What the packages they
  use compute (PKCS#8, \<open>serde_json\<close>, base64url, the public suffix list) are the fields of \<open>client_env\<close>;
  what the network answers is data.
\<close>

section \<open>Text\<close>

text \<open>The UTF-8 encodings of the Unicode white space characters, which \<open>str::trim\<close> removes at both ends.\<close>

definition whitespace :: "string list" where
  "whitespace = map (map char_of)
    ([[9], [10], [11], [12], [13], [32], [0xC2, 0x85], [0xC2, 0xA0], [0xE1, 0x9A, 0x80],
      [0xE2, 0x80, 0xA8], [0xE2, 0x80, 0xA9], [0xE2, 0x80, 0xAF], [0xE2, 0x81, 0x9F], [0xE3, 0x80, 0x80]] @
     map (\<lambda>n. [0xE2, 0x80, n]) [0x80 ..< 0x8B :: nat])"

fun trim_front :: "nat \<Rightarrow> string list \<Rightarrow> string \<Rightarrow> string" where
  "trim_front 0 ws s = s"
| "trim_front (Suc n) ws s =
    (case List.find (\<lambda>w. prefix w s) ws of None \<Rightarrow> s | Some w \<Rightarrow> trim_front n ws (drop (length w) s))"

definition trim :: "string \<Rightarrow> string" where
  "trim s =
    (let s' = trim_front (length s) whitespace s
     in rev (trim_front (length s') (map rev whitespace) (rev s')))"

section \<open>Enrollments\<close>

datatype enrollment =
    Sigstore (trusted_root: json) (claims: "(string \<times> string) list") (sigstore_max_age: u64)
  | Sigsum (signers: "string list") (threshold: u32) (policy: string) (sigsum_max_age: u64) (cas_url: string)
      (logs: "(string \<times> string) list")

record client_env =
  keypair_decode :: "bytes \<Rightarrow> keypair option"
  keypair_encode :: "keypair \<Rightarrow> bytes option"
  enrollment_from_str :: "string \<Rightarrow> enrollment option"
  enrollment_to_value :: "enrollment \<Rightarrow> json option"
  canonical_json :: "json \<Rightarrow> bytes option"
  base64_url_decode :: "string \<Rightarrow> bytes option"
  ed25519_verifying_key :: "bytes \<Rightarrow> bool"
  parse_domain_name :: "string \<Rightarrow> (string \<times> string option) option"

datatype enrollment_error =
    TrustedRootNotObject | ClaimsEmpty | ClaimOidEmpty | ClaimValueEmpty string
  | ThresholdZero | ThresholdAboveSigners | PolicyBase64 | KeyBase64 | KeyLength32 | KeyInvalid | LogKeyBase64

datatype client_error =
    SignFailed sign_error
  | AuthFailed error
  | FqdnInvalid
  | HexInvalid
  | BlockHeightOutOfRange u64
  | InvalidSigningKey
  | EnrollmentJson
  | EnrollmentCanonicalization
  | InvalidEnrollment enrollment_error
  | InvalidTimeout

text \<open>A \<open>for\<close> loop whose body fails early with \<open>?\<close>.\<close>

fun check_each :: "('a \<Rightarrow> 'e + unit) \<Rightarrow> 'a list \<Rightarrow> 'e + unit" where
  "check_each f [] = Inr ()"
| "check_each f (x # xs) = ebind (f x) (\<lambda>_. check_each f xs)"

definition is_object :: "json \<Rightarrow> bool" where
  "is_object j = (case j of JObject kvs \<Rightarrow> True | _ \<Rightarrow> False)"

definition check_claim :: "string \<times> string \<Rightarrow> enrollment_error + unit" where
  "check_claim c =
    (case c of (oid, value) \<Rightarrow>
      ebind (check (trim oid \<noteq> []) ClaimOidEmpty) (\<lambda>_.
      check (trim value \<noteq> []) (ClaimValueEmpty oid)))"

definition check_signer :: "client_env \<Rightarrow> string \<Rightarrow> enrollment_error + unit" where
  "check_signer C key =
    ebind (ok_or KeyBase64 (base64_url_decode C key)) (\<lambda>key_bytes.
    ebind (check (length key_bytes = 32) KeyLength32) (\<lambda>_.
    check (ed25519_verifying_key C key_bytes) KeyInvalid))"

definition check_log :: "client_env \<Rightarrow> string \<times> string \<Rightarrow> enrollment_error + unit" where
  "check_log C log = ebind (ok_or LogKeyBase64 (base64_url_decode C (fst log))) (\<lambda>_. Inr ())"

fun validate_enrollment :: "client_env \<Rightarrow> enrollment \<Rightarrow> enrollment_error + unit" where
  "validate_enrollment C (Sigstore root cls age) =
    ebind (check (is_object root) TrustedRootNotObject) (\<lambda>_.
    ebind (check (cls \<noteq> []) ClaimsEmpty) (\<lambda>_.
    check_each check_claim cls))"
| "validate_enrollment C (Sigsum keys thr pol age url lgs) =
    ebind (check (thr \<noteq> 0) ThresholdZero) (\<lambda>_.
    ebind (check (\<not> unat thr > length keys) ThresholdAboveSigners) (\<lambda>_.
    ebind (ok_or PolicyBase64 (base64_url_decode C pol)) (\<lambda>_.
    ebind (check_each (check_signer C) keys) (\<lambda>_.
    check_each (check_log C) lgs))))"

definition map_err :: "('e \<Rightarrow> 'f) \<Rightarrow> 'e + 'a \<Rightarrow> 'f + 'a" where
  "map_err f r = (case r of Inl e \<Rightarrow> Inl (f e) | Inr x \<Rightarrow> Inr x)"

text \<open>The observed hash of the text of an enrollment: an empty one is no enrollment.\<close>

definition hash_enrollment :: "env \<Rightarrow> client_env \<Rightarrow> string \<Rightarrow> client_error + hash_observed" where
  "hash_enrollment E C enrollment =
    (if enrollment \<noteq> [] then
       ebind (ok_or EnrollmentJson (enrollment_from_str C enrollment)) (\<lambda>en.
       ebind (map_err InvalidEnrollment (validate_enrollment C en)) (\<lambda>_.
       ebind (ok_or EnrollmentJson (enrollment_to_value C en)) (\<lambda>value.
       ebind (ok_or EnrollmentCanonicalization (canonical_json C value)) (\<lambda>canonicalized.
       Inr (Hash (sha256 E canonicalized))))))
     else Inr NotFound)"

section \<open>Witnessing\<close>

definition decode_signing_key :: "client_env \<Rightarrow> bytes \<Rightarrow> client_error + keypair" where
  "decode_signing_key C b = ok_or InvalidSigningKey (keypair_decode C b)"

text \<open>The end both libraries share: sign, authenticate the result, encode as hex.\<close>

definition sign_and_check :: "env \<Rightarrow> keypair \<Rightarrow> transaction \<Rightarrow> client_error + string" where
  "sign_and_check E kp tx =
    ebind (map_err SignFailed (transaction_sign_to_proto E (keypair_sign_with E kp) tx)) (\<lambda>tx.
    ebind (map_err AuthFailed (authenticated_from_proto E tx)) (\<lambda>_.
    Inr (hex_encode E tx)))"

definition witness ::
  "env \<Rightarrow> client_env \<Rightarrow> string \<Rightarrow> string \<Rightarrow> string \<Rightarrow> u64 \<Rightarrow> string \<Rightarrow> string \<Rightarrow> string \<Rightarrow> client_error + string" where
  "witness E C signing_key chain app_hash_hex height_value domain_text zone_text enrollment =
    ebind (ok_or InvalidSigningKey (hex_decode E signing_key)) (\<lambda>key_bytes.
    ebind (decode_signing_key C key_bytes) (\<lambda>keypair.
    ebind (hash_enrollment E C enrollment) (\<lambda>hash_observed.
    ebind (ok_or FqdnInvalid (fqdn_from_str E domain_text)) (\<lambda>d.
    ebind (ok_or FqdnInvalid (fqdn_from_str E zone_text)) (\<lambda>z.
    ebind (ok_or HexInvalid (hex_decode E app_hash_hex)) (\<lambda>hash_bytes.
    ebind (ok_or HexInvalid (app_hash_try_from E hash_bytes)) (\<lambda>a.
    ebind (ok_or (BlockHeightOutOfRange height_value) (height_try_from E height_value)) (\<lambda>h.
    sign_and_check E keypair
      (builder_build
        (builder_observe (keypair_public_key E keypair)
          \<lparr>ob_domain = Domain d, ob_zone = Zone z, ob_blockstamp = Blockstamp h a, ob_hash_observed = hash_observed\<rparr>
          (builder_new (ChainId chain))))))))))))"

section \<open>Reconfiguring\<close>

definition default_not_before_grace_period :: duration where
  "default_not_before_grace_period = from_secs 300"

text \<open>\<open>Time\<close> plus and minus a \<open>Duration\<close> fail outside the years a \<open>Time\<close> can hold.\<close>

definition time_in_range :: "int \<Rightarrow> time option" where
  "time_in_range t = (if time_ok t then Some t else None)"

definition admin_reconfigure ::
  "env \<Rightarrow> client_env \<Rightarrow> time \<Rightarrow> bytes \<Rightarrow> string \<Rightarrow> duration \<Rightarrow> duration option \<Rightarrow> config \<Rightarrow> client_error + string" where
  "admin_reconfigure E C now signing_key chain timeout_limit not_before_grace cfg =
    ebind (decode_signing_key C signing_key) (\<lambda>keypair.
    let grace = (case not_before_grace of None \<Rightarrow> default_not_before_grace_period | Some g \<Rightarrow> g) in
    ebind (ok_or InvalidTimeout (time_in_range (now - int grace))) (\<lambda>not_before.
    ebind (ok_or InvalidTimeout (time_in_range (not_before + int grace))) (\<lambda>not_after.
    ebind (ok_or InvalidTimeout (time_in_range (not_after + int timeout_limit))) (\<lambda>not_after.
    sign_and_check E keypair
      (builder_build
        (builder_reconfigure (keypair_public_key E keypair) not_before not_after cfg (builder_new (ChainId chain))))))))"

section \<open>Inferring the zone\<close>

datatype zone_error = DomainParse | NoRootDomain | ZoneParse

definition ends_with :: "string \<Rightarrow> char \<Rightarrow> bool" where
  "ends_with s c = (s \<noteq> [] \<and> last s = c)"

text \<open>\<open>parse_domain_name\<close> answers the public suffix of a name and its registrable domain, if it has one.\<close>

definition infer_zone :: "env \<Rightarrow> client_env \<Rightarrow> fqdn \<Rightarrow> zone_error + fqdn" where
  "infer_zone E C d =
    (let domain_str = trim_end_matches CHR ''.'' (fqdn_display d) in
     ebind (ok_or DomainParse (parse_domain_name C domain_str)) (\<lambda>(tld, root_opt).
     ebind (ok_or NoRootDomain root_opt) (\<lambda>root.
     let zone_str = (if domain_str = root then tld else root);
         fqdn_str = (if ends_with zone_str CHR ''.'' then zone_str else zone_str @ ''.'')
     in ok_or ZoneParse (fqdn_from_str E fqdn_str))))"

section \<open>Observing a domain\<close>

datatype observe_error =
    KeypairFile | KeypairHex | KeypairParse | RequestFailed | UnexpectedStatus nat | BodyText
  | LatestBlock | HeightZero | KeypairEncode | WitnessFailed client_error | TxHex | BroadcastFailed
  | TransactionRejected | ZoneFailed zone_error

text \<open>The answer to a GET request: its status and its body.\<close>

record http_answer =
  ha_status :: nat
  ha_text :: "string option"

record latest_block =
  lt_height :: height
  lt_app_hash :: app_hash
  lt_chain_id :: string

definition enrollment_url :: "fqdn \<Rightarrow> string" where
  "enrollment_url d =
    ''https://'' @ trim_end_matches CHR ''.'' (trim_start_matches CHR ''.'' (fqdn_display d)) @
    ''/.well-known/webcat/enrollment.json''"

definition load_keypair :: "env \<Rightarrow> client_env \<Rightarrow> string option \<Rightarrow> observe_error + keypair" where
  "load_keypair E C key_file =
    ebind (ok_or KeypairFile key_file) (\<lambda>keyhex.
    ebind (ok_or KeypairHex (hex_decode E (trim keyhex))) (\<lambda>keybytes.
    ok_or KeypairParse (keypair_decode C keybytes)))"

text \<open>\<open>error_for_status\<close> makes the statuses from 400 to 599 an error that carries its status.\<close>

definition enrollment_of :: "http_answer option \<Rightarrow> observe_error + string option" where
  "enrollment_of answer =
    ebind (ok_or RequestFailed answer) (\<lambda>a.
    if 400 \<le> ha_status a \<and> ha_status a < 600 then
      (if ha_status a = 404 \<or> ha_status a = 410 then Inr None else Inl (UnexpectedStatus (ha_status a)))
    else ebind (ok_or BodyText (ha_text a)) (\<lambda>text. Inr (Some text)))"

definition last_block_height :: "latest_block \<Rightarrow> observe_error + u64" where
  "last_block_height b = (if lt_height b > 0 then Inr (lt_height b - 1) else Inl HeightZero)"

definition observe_domain ::
  "env \<Rightarrow> client_env \<Rightarrow> string option \<Rightarrow> (string \<Rightarrow> http_answer option) \<Rightarrow> latest_block option
    \<Rightarrow> (bytes \<Rightarrow> bool option) \<Rightarrow> string option \<Rightarrow> fqdn \<Rightarrow> fqdn \<Rightarrow> observe_error + unit" where
  "observe_domain E C key_file http_get latest broadcast chain d z =
    ebind (load_keypair E C key_file) (\<lambda>keypair.
    ebind (enrollment_of (http_get (enrollment_url d))) (\<lambda>enrollment_string.
    ebind (ok_or LatestBlock latest) (\<lambda>block.
    ebind (last_block_height block) (\<lambda>height_value.
    ebind (ok_or KeypairEncode (keypair_encode C keypair)) (\<lambda>key_bytes.
    ebind (map_err WitnessFailed
      (witness E C (hex_encode E key_bytes)
        (case chain of Some c \<Rightarrow> c | None \<Rightarrow> lt_chain_id block)
        (hex_encode E (lt_app_hash block)) height_value (fqdn_display d) (fqdn_display z)
        (case enrollment_string of None \<Rightarrow> [] | Some text \<Rightarrow> text))) (\<lambda>tx.
    ebind (ok_or TxHex (hex_decode E tx)) (\<lambda>tx_bytes.
    ebind (ok_or BroadcastFailed (broadcast tx_bytes)) (\<lambda>accepted.
    check accepted TransactionRejected))))))))"

text \<open>The command \<open>observe\<close>: the zone given, or the one inferred.\<close>

definition observe_command ::
  "env \<Rightarrow> client_env \<Rightarrow> string option \<Rightarrow> (string \<Rightarrow> http_answer option) \<Rightarrow> latest_block option
    \<Rightarrow> (bytes \<Rightarrow> bool option) \<Rightarrow> string option \<Rightarrow> fqdn \<Rightarrow> fqdn option \<Rightarrow> observe_error + unit" where
  "observe_command E C key_file http_get latest broadcast chain d zone_opt =
    ebind (case zone_opt of Some z \<Rightarrow> Inr z | None \<Rightarrow> map_err ZoneFailed (infer_zone E C d)) (\<lambda>z.
    observe_domain E C key_file http_get latest broadcast chain d z)"

end
