(* ===== verification/Oracle_Server.thy ===== *)
theory Oracle_Server
  imports Oracle
begin

text \<open>
  The HTTP server of an oracle: \<open>crates/felidae/src/cli/oracle/server.rs\<close>. A request to observe a domain
  carries a proof of work on a challenge the server issued for it. The clock is an input; where the secret
  of the challenges comes from is in \<open>Server_Start\<close>.
\<close>

section \<open>Decimal numbers\<close>

definition show_u64 :: "u64 \<Rightarrow> string" where
  "show_u64 w = (case dropWhile (\<lambda>c. c = CHR ''0'') (decimal 20 (unat w)) of [] \<Rightarrow> ''0'' | s \<Rightarrow> s)"

section \<open>Proof of work\<close>

record pow_token =
  pt_challenge :: string
  pt_nonce :: u64
  pt_timestamp :: u64

definition generate_pow_challenge :: "env \<Rightarrow> string \<Rightarrow> u64 \<Rightarrow> string \<Rightarrow> string" where
  "generate_pow_challenge E domain_text timestamp secret =
    hex_encode E (sha256 E (as_bytes (domain_text @ '':'' @ show_u64 timestamp @ '':'' @ secret)))"

definition byte_bits :: "u8 \<Rightarrow> bool list" where
  "byte_bits b = map (bit b) [7, 6, 5, 4, 3, 2, 1, 0]"

definition byte_leading_zeros :: "u8 \<Rightarrow> nat" where
  "byte_leading_zeros b = length (takeWhile (\<lambda>x. \<not> x) (byte_bits b))"

text \<open>The loop over the hash, with its \<open>u8\<close> counter, which wraps in a release build.\<close>

fun leading_zeros_loop :: "bytes \<Rightarrow> u8 \<Rightarrow> u8" where
  "leading_zeros_loop [] acc = acc"
| "leading_zeros_loop (b # bs) acc =
    (if b = 0 then leading_zeros_loop bs (acc + 8) else acc + word_of_nat (byte_leading_zeros b))"

definition abs_diff :: "u64 \<Rightarrow> u64 \<Rightarrow> u64" where
  "abs_diff a b = (if a < b then b - a else a - b)"

definition pow_hash :: "env \<Rightarrow> pow_token \<Rightarrow> bytes" where
  "pow_hash E token = sha256 E (as_bytes (pt_challenge token @ show_u64 (pt_nonce token)))"

definition validate_pow_token :: "env \<Rightarrow> u64 \<Rightarrow> pow_token \<Rightarrow> string \<Rightarrow> string \<Rightarrow> u8 \<Rightarrow> bool" where
  "validate_pow_token E now token domain_text secret difficulty =
    (let expected_challenge = generate_pow_challenge E domain_text (pt_timestamp token) secret in
     if expected_challenge \<noteq> pt_challenge token then False
     else if abs_diff now (pt_timestamp token) > 5 * 60 then False
     else if leading_zeros_loop (pow_hash E token) 0 < difficulty then False
     else True)"

section \<open>The handlers\<close>

record app_state =
  as_pow_secret :: string
  as_pow_difficulty :: u8

datatype server_status = ServerOk | ServerBadRequest | ServerForbidden | ServerInternalError

datatype server_message =
    DomainParameterRequired | InvalidPowToken | InvalidDomain | ZoneInferenceFailed zone_error
  | ObservationFailed observe_error | ObservationSubmitted

record observe_response =
  osr_success :: bool
  osr_message :: server_message
  osr_tx_hash :: "string option"

record pow_challenge_response =
  pcr_challenge :: string
  pcr_timestamp :: u64
  pcr_difficulty :: u8

record observe_request =
  osq_domain :: string
  osq_pow_token :: pow_token

definition refusal :: "server_status \<Rightarrow> server_message \<Rightarrow> server_status \<times> observe_response" where
  "refusal status m = (status, \<lparr>osr_success = False, osr_message = m, osr_tx_hash = None\<rparr>)"

definition handle_pow_challenge ::
  "env \<Rightarrow> app_state \<Rightarrow> u64 \<Rightarrow> (string \<rightharpoonup> string) \<Rightarrow> (server_status \<times> observe_response) + pow_challenge_response" where
  "handle_pow_challenge E state now params =
    ebind (ok_or (refusal ServerBadRequest DomainParameterRequired) (params ''domain'')) (\<lambda>domain_text.
    Inr \<lparr>pcr_challenge = generate_pow_challenge E domain_text now (as_pow_secret state), pcr_timestamp = now,
         pcr_difficulty = as_pow_difficulty state\<rparr>)"

definition normalized_domain :: "string \<Rightarrow> string" where
  "normalized_domain d = trim_end_matches CHR ''.'' (trim d)"

text \<open>\<open>observe\<close> is \<open>observe_domain\<close> with the node, chain and key of the server.\<close>

definition handle_observe ::
  "env \<Rightarrow> client_env \<Rightarrow> app_state \<Rightarrow> u64 \<Rightarrow> (fqdn \<Rightarrow> fqdn \<Rightarrow> observe_error + unit) \<Rightarrow> observe_request
    \<Rightarrow> (server_status \<times> observe_response) + observe_response" where
  "handle_observe E C state now observe req =
    (if \<not> validate_pow_token E now (osq_pow_token req) (normalized_domain (osq_domain req))
           (as_pow_secret state) (as_pow_difficulty state)
     then Inl (refusal ServerForbidden InvalidPowToken)
     else case fqdn_from_str E (osq_domain req) of
       None \<Rightarrow> Inl (refusal ServerBadRequest InvalidDomain)
     | Some d \<Rightarrow>
         (case infer_zone E C d of
            Inl e \<Rightarrow> Inl (refusal ServerBadRequest (ZoneInferenceFailed e))
          | Inr z \<Rightarrow>
              (case observe d z of
                 Inr _ \<Rightarrow> Inr \<lparr>osr_success = True, osr_message = ObservationSubmitted, osr_tx_hash = None\<rparr>
               | Inl e \<Rightarrow> Inl (refusal ServerInternalError (ObservationFailed e)))))"

end
