(* ===== verification/Client_Facts.thy ===== *)
theory Client_Facts
  imports Oracle_Server Props_Data
begin

text \<open>
  Facts about the clients: a transaction of one action signed by its own actor always passes the check of
  the libraries and authenticates to itself; the validation of an enrollment; the names a zone is
  inferred from; leading zero bits.
\<close>

section \<open>Signing one action\<close>

lemma sign_and_check_eq:
  assumes "env_ok E" "ecdsa_correct E" "transaction_ok E tx"
    and "tx_signatures (transaction_to_proto E tx) = [PSignature (keypair_public_key E kp) []]"
  obtains buf where "sign_and_check E kp tx = Inr (hex_encode E buf)"
    "authenticated_from_proto E buf = Inr (transaction_norm tx)"
proof -
  let ?p = "transaction_to_proto E tx" and ?sw = "keypair_sign_with E kp"
  have "\<forall>sg \<in> set (tx_signatures ?p). can_sign ?sw (tx_hash E ?p) sg"
    by (simp add: assms(4) can_sign_def keypair_sign_with_def)
  then have "\<exists>p. sign_all E ?sw ?p = Inr p" unfolding sign_all_Inr by blast
  then obtain buf where buf: "transaction_sign_to_proto E ?sw tx = Inr buf"
    by (auto simp: transaction_sign_to_proto_def sign_to_proto_def)
  have auth: "authenticated_from_proto E buf = Inr (transaction_norm tx)"
    by (rule signed_authenticates [OF assms(1,3) keypair_signer_sound [OF assms(2)] buf])
  have "sign_and_check E kp tx = Inr (hex_encode E buf)"
    by (simp add: sign_and_check_def map_err_def buf auth)
  then show thesis using auth by (rule that)
qed

lemma observe_signature:
  "tx_signatures (transaction_to_proto E (builder_build (builder_observe pk ob (builder_new c)))) = [PSignature pk []]"
  by (simp add: tx_signatures_def transaction_to_proto_def builder_build_def builder_observe_def builder_action_def
      builder_new_def action_signatures_def observe_to_proto_def signature_of_oracle_identity_def signature_unsigned_def)

lemma reconfigure_signature:
  "tx_signatures (transaction_to_proto E (builder_build (builder_reconfigure pk t t' cfg (builder_new c)))) = [PSignature pk []]"
  by (simp add: tx_signatures_def transaction_to_proto_def builder_build_def builder_reconfigure_def builder_action_def
      builder_new_def action_signatures_def reconfigure_to_proto_def signature_of_admin_def signature_unsigned_def)

lemma map_err_Inr [res_simps]: "map_err f r = Inr x \<longleftrightarrow> r = Inr x"
  by (cases r) (simp_all add: map_err_def)

text \<open>Documented behaviour of SHA-256: a digest has 32 bytes.\<close>

definition sha256_length :: "env \<Rightarrow> bool" where
  "sha256_length E = (\<forall>b. length (sha256 E b) = 32)"

lemma hash_enrollment_ok: "sha256_length E \<Longrightarrow> hash_enrollment E C en = Inr h \<Longrightarrow> hash_observed_ok h"
  by (auto simp: hash_enrollment_def sha256_length_def res_simps split: if_splits)

lemma witness_observation:
  assumes "env_ok E" "ecdsa_correct E" "sha256_length E"
    and "hex_decode E key = Some kb" "keypair_decode C kb = Some kp" "hash_enrollment E C en = Inr hash"
    and "fqdn_from_str E dtext = Some d" "fqdn_from_str E ztext = Some z" "hex_decode E ah = Some a" "h \<le> i64_max"
  obtains buf where "witness E C key chain ah h dtext ztext en = Inr (hex_encode E buf)"
    "authenticated_from_proto E buf = Inr \<lparr>tx_chain_id = ChainId chain,
       tx_actions = [Observe \<lparr>obs_observation = \<lparr>ob_domain = Domain d, ob_zone = Zone z,
           ob_blockstamp = Blockstamp h a, ob_hash_observed = hash\<rparr>,
         obs_oracle = OracleIdentity (keypair_public_key E kp)\<rparr>]\<rparr>"
proof -
  let ?ob = "\<lparr>ob_domain = Domain d, ob_zone = Zone z, ob_blockstamp = Blockstamp h a, ob_hash_observed = hash\<rparr>"
  let ?tx = "builder_build (builder_observe (keypair_public_key E kp) ?ob (builder_new (ChainId chain)))"
  have tx: "?tx = \<lparr>tx_chain_id = ChainId chain,
       tx_actions = [Observe \<lparr>obs_observation = ?ob, obs_oracle = OracleIdentity (keypair_public_key E kp)\<rparr>]\<rparr>"
    by (simp add: builder_build_def builder_observe_def builder_action_def builder_new_def)
  have "observation_ok E ?ob"
    using env_fqdn_from_str_valid [OF assms(1)] assms(7,8,10) hash_enrollment_ok [OF assms(3,6)]
    by (simp add: observation_ok_def)
  then have ok: "transaction_ok E ?tx" by (simp add: tx transaction_ok_def)
  obtain buf where buf: "sign_and_check E kp ?tx = Inr (hex_encode E buf)"
    "authenticated_from_proto E buf = Inr (transaction_norm ?tx)"
    by (rule sign_and_check_eq [OF assms(1,2) ok observe_signature])
  have "witness E C key chain ah h dtext ztext en = Inr (hex_encode E buf)"
    using assms(4-10) buf(1) env_app_hash [OF assms(1)] env_height [OF assms(1)]
    by (simp add: witness_def decode_signing_key_def)
  moreover have "transaction_norm ?tx = ?tx" by (simp add: tx transaction_norm_def)
  ultimately show thesis using buf(2) unfolding tx by (intro that) simp_all
qed

lemma witness_needs:
  assumes "env_ok E" "witness E C key chain ah h dtext ztext en = Inr tx"
  obtains kb kp hash d z a where "hex_decode E key = Some kb" "keypair_decode C kb = Some kp"
    "hash_enrollment E C en = Inr hash" "fqdn_from_str E dtext = Some d" "fqdn_from_str E ztext = Some z"
    "hex_decode E ah = Some a" "h \<le> i64_max"
  using assms(2) env_height [OF assms(1), of h]
  by (auto simp: witness_def decode_signing_key_def res_simps split: if_splits)

section \<open>Enrollments\<close>

lemma check_each_Inr: "check_each f xs = Inr u \<longleftrightarrow> (\<forall>x \<in> set xs. f x = Inr ())"
  by (induction xs) (auto simp: res_simps)

section \<open>Leading zeros\<close>

lemma byte_bits_zero: "(\<forall>x \<in> set (byte_bits b). \<not> x) \<longleftrightarrow> b = 0"
proof
  assume z: "\<forall>x \<in> set (byte_bits b). \<not> x"
  have "\<not> bit b n" for n
  proof (cases "n < 8")
    case True
    then have "n \<in> {0, 1, 2, 3, 4, 5, 6, 7}" by auto
    with z show ?thesis by (auto simp: byte_bits_def)
  next
    case False
    then show ?thesis using bit_imp_le_length [of b n] by auto
  qed
  then show "b = 0" by (simp add: bit_eq_iff)
qed (auto simp: byte_bits_def)

lemma length_byte_bits [simp]: "length (byte_bits b) = 8"
  by (simp add: byte_bits_def)

definition leading_zero_bits :: "bytes \<Rightarrow> nat" where
  "leading_zero_bits bs = length (takeWhile (\<lambda>x. \<not> x) (concat (map byte_bits bs)))"

lemma leading_zeros_loop_eq: "leading_zeros_loop bs acc = acc + word_of_nat (leading_zero_bits bs)"
proof (induction bs arbitrary: acc)
  case (Cons b bs)
  show ?case
  proof (cases "b = 0")
    case True
    then have z: "\<forall>x \<in> set (byte_bits b). \<not> x" by (simp add: byte_bits_zero)
    have "leading_zero_bits (b # bs) = 8 + leading_zero_bits bs"
      unfolding leading_zero_bits_def list.map concat.simps
      by (subst takeWhile_append2, erule bspec [OF z], simp)
    then show ?thesis using True Cons.IH [of "acc + 8"] by (simp add: algebra_simps)
  next
    case False
    then obtain x where "x \<in> set (byte_bits b)" "x" using byte_bits_zero by blast
    then have "leading_zero_bits (b # bs) = byte_leading_zeros b"
      by (simp add: leading_zero_bits_def byte_leading_zeros_def takeWhile_append1)
    then show ?thesis using False by simp
  qed
qed (simp add: leading_zero_bits_def)

end
