(* ===== verification/Props_Clients.thy ===== *)
theory Props_Clients
  imports Client_Facts Props_Chain
begin

text \<open>
  The properties of the clients: what an oracle submits, the zone it infers, the proof of work it asks
  for, and the reconfiguration an admin makes.
\<close>

section \<open>Observations\<close>

text \<open>Documented behaviour of PKCS#8: an encoded key pair decodes to itself.\<close>

definition pkcs8_correct :: "client_env \<Rightarrow> bool" where
  "pkcs8_correct C = (\<forall>kp b. keypair_encode C kp = Some b \<longrightarrow> keypair_decode C b = Some kp)"

text \<open>C18: When the observation of a domain succeeds, the node has accepted a transaction that authenticates
  to one observation of the domain in its zone by the oracle's own key, stamped with the height before the
  latest block and the app hash in that block; it reports the hash of the enrollment fetched, and reports
  that there is none exactly when the site answered 404 or 410 or sent an empty document.\<close>

theorem observe_domain_submits_what_it_saw:
  assumes "env_ok E" "ecdsa_correct E" "sha256_length E" "pkcs8_correct C"
    and "fqdn_valid E d" "fqdn_valid E z"
    and "observe_domain E C key_file http_get latest broadcast chain d z = Inr ()"
  shows "\<exists>kp block answer hash tx_bytes. load_keypair E C key_file = Inr kp \<and> latest = Some block \<and>
    0 < lt_height block \<and> http_get (enrollment_url d) = Some answer \<and> broadcast tx_bytes = Some True \<and>
    authenticated_from_proto E tx_bytes = Inr
      \<lparr>tx_chain_id = ChainId (case chain of Some c \<Rightarrow> c | None \<Rightarrow> lt_chain_id block),
       tx_actions = [Observe \<lparr>obs_observation = \<lparr>ob_domain = Domain d, ob_zone = Zone z,
           ob_blockstamp = Blockstamp (lt_height block - 1) (lt_app_hash block), ob_hash_observed = hash\<rparr>,
         obs_oracle = OracleIdentity (keypair_public_key E kp)\<rparr>]\<rparr> \<and>
    (hash = NotFound \<longleftrightarrow> ha_status answer = 404 \<or> ha_status answer = 410 \<or> ha_text answer = Some []) \<and>
    (hash \<noteq> NotFound \<longrightarrow> (\<exists>text. ha_text answer = Some text \<and> hash_enrollment E C text = Inr hash))"
proof -
  let ?chain = "\<lambda>block. case chain of Some c \<Rightarrow> c | None \<Rightarrow> lt_chain_id block"
  obtain kp en block h kb tx tx_bytes where o: "load_keypair E C key_file = Inr kp"
    "enrollment_of (http_get (enrollment_url d)) = Inr en" "latest = Some block"
    "last_block_height block = Inr h" "keypair_encode C kp = Some kb"
    "witness E C (hex_encode E kb) (?chain block) (hex_encode E (lt_app_hash block)) h (fqdn_display d) (fqdn_display z)
      (case en of None \<Rightarrow> [] | Some text \<Rightarrow> text) = Inr tx"
    "hex_decode E tx = Some tx_bytes" "broadcast tx_bytes = Some True"
    using assms(7) by (auto simp: observe_domain_def res_simps)
  have h: "0 < lt_height block" "h = lt_height block - 1"
    using o(4) by (auto simp: last_block_height_def split: if_splits)
  let ?text = "case en of None \<Rightarrow> [] | Some text \<Rightarrow> text"
  have kb: "keypair_decode C kb = Some kp" using assms(4) o(5) by (auto simp: pkcs8_correct_def)
  obtain hash where hash: "hash_enrollment E C ?text = Inr hash" "h \<le> i64_max"
    by (rule witness_needs [OF assms(1) o(6)]) blast
  obtain buf where buf: "tx = hex_encode E buf" "authenticated_from_proto E buf = Inr
      \<lparr>tx_chain_id = ChainId (?chain block),
       tx_actions = [Observe \<lparr>obs_observation = \<lparr>ob_domain = Domain d, ob_zone = Zone z,
           ob_blockstamp = Blockstamp h (lt_app_hash block), ob_hash_observed = hash\<rparr>,
         obs_oracle = OracleIdentity (keypair_public_key E kp)\<rparr>]\<rparr>"
    by (rule witness_observation [OF assms(1-3) env_hex_decode [OF assms(1)] kb hash(1)
          env_fqdn_from_str [OF assms(1,5)] env_fqdn_from_str [OF assms(1,6)] env_hex_decode [OF assms(1), of "lt_app_hash block"] hash(2),
          where chain = "?chain block"])
      (use o(6) in auto)
  have "tx_bytes = buf" using o(7) by (simp add: buf(1) env_hex_decode [OF assms(1)])
  obtain answer where answer: "http_get (enrollment_url d) = Some answer"
    using o(2) by (auto simp: enrollment_of_def res_simps)
  have none: "hash = NotFound \<longleftrightarrow> ?text = []"
    using hash(1) by (auto simp: hash_enrollment_def res_simps split: if_splits)
  have en: "en = None \<and> (ha_status answer = 404 \<or> ha_status answer = 410) \<or>
      \<not> (400 \<le> ha_status answer \<and> ha_status answer < 600) \<and> en = ha_text answer \<and> en \<noteq> None"
    using o(2) by (auto simp: enrollment_of_def answer res_simps split: if_splits)
  then have "hash = NotFound \<longleftrightarrow> ha_status answer = 404 \<or> ha_status answer = 410 \<or> ha_text answer = Some []"
    unfolding none by auto
  moreover have "hash \<noteq> NotFound \<longrightarrow> (\<exists>text. ha_text answer = Some text \<and> hash_enrollment E C text = Inr hash)"
    using en hash(1) unfolding none by auto
  ultimately show ?thesis
    using o(1,3,8) h buf(2) answer \<open>tx_bytes = buf\<close>
    by (intro exI [of _ kp] exI [of _ block] exI [of _ answer] exI [of _ hash] exI [of _ tx_bytes]) simp
qed

definition sample_client :: client_env where
  "sample_client =
    \<lparr>keypair_decode = (\<lambda>b. Some (KeyPair b)), keypair_encode = (\<lambda>kp. Some (kp_signing_key kp)),
     enrollment_from_str = (\<lambda>s. Some (Sigstore (JObject []) [(''2.5.29.17'', s)] 60)),
     enrollment_to_value = (\<lambda>en. Some JNull), canonical_json = (\<lambda>j. Some [1]),
     base64_url_decode = (\<lambda>s. Some []), ed25519_verifying_key = (\<lambda>b. True),
     parse_domain_name = (\<lambda>s. let ls = split_on CHR ''.'' s in
       if length ls < 2 then None
       else Some (join ''.'' (drop (length ls - 1) ls), Some (join ''.'' (drop (length ls - 2) ls))))\<rparr>"

lemma sample_client_ok: "sha256_length sample_env" "pkcs8_correct sample_client"
  by (auto simp: sha256_length_def pkcs8_correct_def sample_env_def sample_digest_def sample_client_def min_def)

lemma sample_keypair [simp]:
  "keypair_encode sample_client (KeyPair b) = Some b" "keypair_decode sample_client b = Some (KeyPair b)"
  by (simp_all add: sample_client_def)

lemma sample_trim: "trim ''01'' = ''01''"
  by code_simp

lemma sample_key_file: "load_keypair sample_env sample_client (Some ''01'') = Inr (KeyPair [1])"
  by (simp add: load_keypair_def sample_trim) (simp add: sample_env_def sample_hex_value_def)

definition sample_block_answer :: latest_block where
  "sample_block_answer = \<lparr>lt_height = 5, lt_app_hash = [9], lt_chain_id = ''felidae''\<rparr>"

theorem observe_domain_submits_what_it_saw_witness:
  "\<exists>tx_bytes. authenticated_from_proto sample_env tx_bytes = Inr
      \<lparr>tx_chain_id = ChainId ''felidae'',
       tx_actions = [Observe \<lparr>obs_observation = \<lparr>ob_domain = sample_subdomain, ob_zone = sample_zone,
           ob_blockstamp = Blockstamp 4 [9], ob_hash_observed = NotFound\<rparr>,
         obs_oracle = OracleIdentity (keypair_public_key sample_env (KeyPair [1]))\<rparr>]\<rparr>"
proof -
  let ?get = "\<lambda>url. Some \<lparr>ha_status = 404, ha_text = None\<rparr>"
  let ?d = "[''www'', ''example'', ''com'']" and ?z = "[''com'']"
  have en: "hash_enrollment sample_env sample_client [] = Inr NotFound" by (simp add: hash_enrollment_def)
  have key: "keypair_decode sample_client [1] = Some (KeyPair [1])" by simp
  have four: "(4 :: u64) \<le> i64_max" by (simp add: i64_max_def)
  obtain buf where buf: "witness sample_env sample_client (hex_encode sample_env [1]) ''felidae''
      (hex_encode sample_env [9]) 4 (fqdn_display ?d) (fqdn_display ?z) [] = Inr (hex_encode sample_env buf)"
    by (rule witness_observation [OF env_ok_sample ecdsa_correct_sample sample_client_ok(1)
          env_hex_decode [OF env_ok_sample] key en env_fqdn_from_str [OF env_ok_sample sample_names(1)]
          env_fqdn_from_str [OF env_ok_sample sample_names(3)] env_hex_decode [OF env_ok_sample, of "[9]"] four,
          where chain = "''felidae''"]) blast
  have "observe_domain sample_env sample_client (Some ''01'') ?get (Some sample_block_answer) (\<lambda>b. Some True) None ?d ?z = Inr ()"
    using buf by (simp add: observe_domain_def sample_key_file enrollment_of_def last_block_height_def sample_block_answer_def
        map_err_def env_hex_decode [OF env_ok_sample])
  from observe_domain_submits_what_it_saw [OF env_ok_sample ecdsa_correct_sample sample_client_ok sample_names(1,3) this]
  show ?thesis
  proof (elim exE conjE, goal_cases)
    case (1 kp block answer hash tx_bytes)
    have "kp = KeyPair [1]" "block = sample_block_answer" using 1(1,2) by (simp_all add: sample_key_file)
    moreover have "hash = NotFound" using 1(4,7) by auto
    ultimately show ?case
      using 1(6) by (intro exI [of _ tx_bytes]) (simp add: sample_block_answer_def sample_subdomain_def sample_zone_def)
  qed
qed

section \<open>Zones\<close>

text \<open>Documented behaviour of the public suffix list: the suffix of a name is made of its last labels, and its
  registrable domain has one label more.\<close>

definition public_suffixes :: "client_env \<Rightarrow> bool" where
  "public_suffixes C =
    (\<forall>ls t r. (\<forall>l \<in> set ls. label_ok l) \<and> parse_domain_name C (join ''.'' ls) = Some (t, Some r) \<longrightarrow>
      (\<exists>pre l sfx. ls = pre @ l # sfx \<and> sfx \<noteq> [] \<and> t = join ''.'' sfx \<and> r = join ''.'' (l # sfx)))"

lemma display_join: "d \<noteq> [] \<Longrightarrow> fqdn_display d = join ''.'' d @ ''.''"
  by (induction "''.''" d rule: join.induct) (auto simp: fqdn_display_def)

lemma last_join:
  assumes "d \<noteq> []" "\<forall>l \<in> set d. label_ok l"
  shows "join ''.'' d \<noteq> [] \<and> last (join ''.'' d) \<noteq> CHR ''.''"
  using assms
proof (induction "''.''" d rule: join.induct)
  case (2 l)
  then have l: "l \<noteq> []" "CHR ''.'' \<notin> set l" by (simp_all add: label_ok_def)
  then have "last l \<noteq> CHR ''.''" using last_in_set [of l] by metis
  with l(1) show ?case by simp
qed auto

lemma trim_display:
  assumes "\<forall>l \<in> set d. label_ok l"
  shows "trim_end_matches CHR ''.'' (fqdn_display d) = join ''.'' d"
proof (cases "d = []")
  case False
  have "dropWhile (\<lambda>x. x = c) (rev s) = rev s" if "s \<noteq> []" "last s \<noteq> c" for c :: char and s
    using that by (cases s rule: rev_cases) auto
  with last_join [OF False assms] show ?thesis by (simp add: trim_end_matches_def display_join [OF False])
qed (simp add: fqdn_display_def trim_end_matches_def)

lemma zone_text:
  assumes "env_ok E" "fqdn_valid E z" "z \<noteq> []"
  shows "(if ends_with (join ''.'' z) CHR ''.'' then join ''.'' z else join ''.'' z @ ''.'') = fqdn_display z"
  using last_join [OF assms(3)] env_label_ok [OF assms(1,2)] by (simp add: ends_with_def display_join [OF assms(3)])

text \<open>C28: A zone that is inferred is always a strict ancestor of the name, and not the root: the guard of the
  chain on the zone of an observation passes, and the registered domain the limit is counted for is the
  one label below the zone.\<close>

theorem inferred_zone_is_strict_ancestor:
  assumes "env_ok E" "public_suffixes C" "fqdn_valid E d" "infer_zone E C d = Inr z"
  shows "z \<noteq> fqdn_root \<and> fqdn_valid E z \<and> fqdn_is_subdomain_of d z \<and> d \<noteq> z \<and>
    (\<exists>l. registered_domain d z = Inr (PrefixOrderDomain (l # z)))"
proof -
  have labels: "\<forall>l \<in> set d. label_ok l" using env_label_ok [OF assms(1,3)] by blast
  obtain t r where tr: "parse_domain_name C (join ''.'' d) = Some (t, Some r)"
    "fqdn_from_str E (let zs = (if join ''.'' d = r then t else r) in if ends_with zs CHR ''.'' then zs else zs @ ''.'') = Some z"
    using assms(4) by (auto simp: infer_zone_def trim_display [OF labels] res_simps Let_def)
  obtain pre l sfx where d: "d = pre @ l # sfx" "sfx \<noteq> []" "t = join ''.'' sfx" "r = join ''.'' (l # sfx)"
    using assms(2) tr(1) labels unfolding public_suffixes_def by blast
  have parts: "split_on CHR ''.'' (join ''.'' ls) = ls" if "ls \<noteq> []" "set ls \<subseteq> set d" for ls
    using that labels by (intro split_on_join) (auto simp: label_ok_def)
  have same: "join ''.'' d = r \<longleftrightarrow> pre = []"
  proof
    assume "join ''.'' d = r"
    then have "d = l # sfx" using parts [of d] parts [of "l # sfx"] d by auto
    then show "pre = []" using d(1) by simp
  qed (simp add: d)
  let ?z = "if pre = [] then sfx else l # sfx"
  have z: "?z = drop (if pre = [] then 1 else length pre) d" by (simp add: d(1))
  have valid: "fqdn_valid E ?z" unfolding z by (rule env_fqdn_drop [OF assms(1,3)])
  have ne: "?z \<noteq> []" using d(2) by simp
  have "(if join ''.'' d = r then t else r) = join ''.'' ?z" unfolding same by (simp add: d(3,4))
  then have "fqdn_from_str E (fqdn_display ?z) = Some z"
    using tr(2) zone_text [OF assms(1) valid ne] by (simp only: Let_def)
  then have zz: "z = ?z" using env_fqdn_from_str [OF assms(1) valid] by simp
  have sub: "fqdn_is_subdomain_of d z" "d \<noteq> z" unfolding zz by (auto simp: d(1) fqdn_is_subdomain_of_def suffix_def)
  show ?thesis
    using registered_below_zone [OF sub] sub valid ne unfolding zz fqdn_root_def by blast
qed

lemma public_suffixes_sample: "public_suffixes sample_client"
  unfolding public_suffixes_def
proof (intro allI impI, elim conjE)
  fix ls :: "string list" and t r
  assume ok: "\<forall>l \<in> set ls. label_ok l" and p: "parse_domain_name sample_client (join ''.'' ls) = Some (t, Some r)"
  show "\<exists>pre l sfx. ls = pre @ l # sfx \<and> sfx \<noteq> [] \<and> t = join ''.'' sfx \<and> r = join ''.'' (l # sfx)"
  proof (cases "ls = []")
    case False
    then have "split_on CHR ''.'' (join ''.'' ls) = ls" using ok by (intro split_on_join) (auto simp: label_ok_def)
    then have l: "2 \<le> length ls" "t = join ''.'' (drop (length ls - 1) ls)" "r = join ''.'' (drop (length ls - 2) ls)"
      using p by (auto simp: sample_client_def Let_def split: if_splits)
    obtain pre a b where "ls = pre @ [a, b]"
      using l(1) by (metis append.assoc append_Cons append_Nil length_append_singleton length_0_conv le_zero_eq
          not_less_eq_eq numeral_2_eq_2 rev_exhaust list.size(3))
    then show ?thesis using l(2,3) by (intro exI [of _ pre] exI [of _ a] exI [of _ "[b]"]) simp
  next
    case True
    with p show ?thesis by (simp add: sample_client_def)
  qed
qed

theorem inferred_zone_is_strict_ancestor_witness:
  "fqdn_is_subdomain_of [''www'', ''example'', ''com''] [''example'', ''com'']"
proof -
  have d: "fqdn_valid sample_env [''www'', ''example'', ''com'']" by simp
  have "infer_zone sample_env sample_client [''www'', ''example'', ''com''] = Inr [''example'', ''com'']"
    by (simp add: infer_zone_def sample_client_def fqdn_display_def trim_end_matches_def ends_with_def Let_def)
      (simp add: sample_env_def sample_fqdn_parse_def label_ok_def ascii_def)
  from inferred_zone_is_strict_ancestor [OF env_ok_sample public_suffixes_sample d this] show ?thesis by blast
qed

section \<open>Proof of work\<close>

lemma abs_diff_eq: "unat (abs_diff a b) = nat \<bar>int (unat a) - int (unat b)\<bar>"
proof (cases "a < b")
  case True
  then have "unat (b - a) = unat b - unat a" by (intro unat_sub) simp
  moreover have "unat a < unat b" using True by (simp add: word_less_nat_alt)
  ultimately show ?thesis using True by (simp only: abs_diff_def if_True; linarith)
next
  case False
  then have "unat (a - b) = unat a - unat b" by (intro unat_sub) simp
  moreover have "unat b \<le> unat a" using False by (simp add: word_less_nat_alt)
  ultimately show ?thesis using False by (simp only: abs_diff_def if_False; linarith)
qed

text \<open>C38: A token is accepted exactly when its challenge is the one made for the domain, the token's time and
  the secret, its time is at most five minutes away from now on either side, and the hash of challenge and
  nonce starts with enough zero bits. The number of zero bits is counted in a \<open>u8\<close>: a hash of zeros only
  counts as having none.\<close>

theorem pow_token_accepted_iff:
  "validate_pow_token E now token domain_text secret difficulty \<longleftrightarrow>
    pt_challenge token = generate_pow_challenge E domain_text (pt_timestamp token) secret \<and>
    \<bar>int (unat now) - int (unat (pt_timestamp token))\<bar> \<le> 300 \<and>
    unat difficulty \<le> leading_zero_bits (pow_hash E token) mod 256"
proof -
  have "abs_diff now (pt_timestamp token) > 5 * 60 \<longleftrightarrow> 300 < unat (abs_diff now (pt_timestamp token))"
    by (simp add: word_less_nat_alt)
  then have age: "\<not> abs_diff now (pt_timestamp token) > 5 * 60 \<longleftrightarrow>
      \<bar>int (unat now) - int (unat (pt_timestamp token))\<bar> \<le> 300"
    unfolding abs_diff_eq by linarith
  have "unat (leading_zeros_loop (pow_hash E token) 0) = leading_zero_bits (pow_hash E token) mod 256"
    by (simp add: leading_zeros_loop_eq unsigned_of_nat take_bit_eq_mod)
  then have work: "\<not> leading_zeros_loop (pow_hash E token) 0 < difficulty \<longleftrightarrow>
      unat difficulty \<le> leading_zero_bits (pow_hash E token) mod 256"
    by (simp only: word_less_nat_alt not_less)
  show ?thesis unfolding validate_pow_token_def Let_def using age work by auto
qed

text \<open>The server issues challenges for the text of the domain as it comes, but checks them against the
  normalized text: a challenge for a name with a final dot is always refused.\<close>

lemma challenge_for_dotted_name_is_refused:
  assumes "handle_pow_challenge E state now params = Inr ch" "params ''domain'' = Some d"
    and "pt_challenge token = pcr_challenge ch" "pt_timestamp token = pcr_timestamp ch"
    and "generate_pow_challenge E (normalized_domain d) now (as_pow_secret state) \<noteq>
         generate_pow_challenge E d now (as_pow_secret state)"
  shows "handle_observe E C state now' obs \<lparr>osq_domain = d, osq_pow_token = token\<rparr>
    = Inl (refusal ServerForbidden InvalidPowToken)"
proof -
  have ch: "pcr_challenge ch = generate_pow_challenge E d now (as_pow_secret state)" "pcr_timestamp ch = now"
    using assms(1,2) by (auto simp: handle_pow_challenge_def)
  have "\<not> validate_pow_token E now' token (normalized_domain d) (as_pow_secret state) (as_pow_difficulty state)"
    using assms(3-5) ch by (simp add: validate_pow_token_def)
  then show ?thesis by (simp add: handle_observe_def)
qed

section \<open>Reconfigurations\<close>

text \<open>With a readable key the admin library makes a transaction that authenticates to exactly the
  reconfiguration asked for (its numbers as they are stored), signed by the admin's own key and valid from
  the grace period before now until the timeout after now; it fails only when one of these times cannot be
  represented.\<close>

theorem admin_reconfiguration_window:
  assumes "env_ok E" "ecdsa_correct E" "keypair_decode C key = Some kp" "time_ok now"
  shows "\<exists>buf. let g = (case grace of None \<Rightarrow> from_secs 300 | Some g \<Rightarrow> g) in
    admin_reconfigure E C now key chain limit grace cfg =
      (if time_ok (now - int g) \<and> time_ok (now + int limit) then Inr (hex_encode E buf) else Inl InvalidTimeout) \<and>
    (time_ok (now - int g) \<and> time_ok (now + int limit) \<longrightarrow>
      authenticated_from_proto E buf = Inr \<lparr>tx_chain_id = ChainId chain,
        tx_actions = [Reconfigure \<lparr>re_config = config_norm cfg, re_not_before = now - int g,
          re_not_after = now + int limit, re_admin = Admin (keypair_public_key E kp)\<rparr>]\<rparr>)"
proof -
  let ?g = "case grace of None \<Rightarrow> from_secs 300 | Some g \<Rightarrow> g"
  let ?tx = "builder_build (builder_reconfigure (keypair_public_key E kp) (now - int ?g) (now + int limit) cfg
      (builder_new (ChainId chain)))"
  have tx: "?tx = \<lparr>tx_chain_id = ChainId chain,
        tx_actions = [Reconfigure \<lparr>re_config = cfg, re_not_before = now - int ?g,
          re_not_after = now + int limit, re_admin = Admin (keypair_public_key E kp)\<rparr>]\<rparr>"
    by (simp add: builder_build_def builder_reconfigure_def builder_action_def builder_new_def)
  have step: "admin_reconfigure E C now key chain limit grace cfg =
      (if time_ok (now - int ?g) \<and> time_ok (now + int limit) then sign_and_check E kp ?tx else Inl InvalidTimeout)"
    using assms(3,4)
    by (cases grace) (simp_all add: admin_reconfigure_def decode_signing_key_def time_in_range_def Let_def default_not_before_grace_period_def)
  show ?thesis
  proof (cases "time_ok (now - int ?g) \<and> time_ok (now + int limit)")
    case True
    then have ok: "transaction_ok E ?tx" by (simp add: tx transaction_ok_def reconfigure_ok_def)
    obtain buf where "sign_and_check E kp ?tx = Inr (hex_encode E buf)"
      "authenticated_from_proto E buf = Inr (transaction_norm ?tx)"
      by (rule sign_and_check_eq [OF assms(1,2) ok reconfigure_signature])
    with True step show ?thesis
      unfolding Let_def tx by (intro exI [of _ buf]) (simp add: transaction_norm_def reconfigure_norm_def)
  qed (use step in \<open>auto simp: Let_def\<close>)
qed

theorem admin_reconfiguration_window_witness:
  "\<exists>buf. admin_reconfigure sample_env sample_client sample_time [1] ''felidae'' 0 None sample_config = Inr (hex_encode sample_env buf) \<and>
    authenticated_from_proto sample_env buf = Inr \<lparr>tx_chain_id = ChainId ''felidae'',
      tx_actions = [Reconfigure \<lparr>re_config = sample_config, re_not_before = sample_time - 300000000000,
        re_not_after = sample_time, re_admin = Admin (keypair_public_key sample_env (KeyPair [1]))\<rparr>]\<rparr>"
proof -
  have t: "time_ok (sample_time - 300000000000)" by (simp add: time_ok_def sample_time_def unix_timestamp_def)
  have g: "int (from_secs 300) = 300000000000" by (simp add: from_secs_def nanos_per_sec_def)
  have key: "keypair_decode sample_client [1] = Some (KeyPair [1])" by simp
  show ?thesis
    using admin_reconfiguration_window [OF env_ok_sample ecdsa_correct_sample key sample_time_ok(1),
        of None "''felidae''" 0 sample_config]
    by (simp add: Let_def g t)
qed

end
