(* ===== verification/Machine.thy ===== *)
theory Machine
  imports Oracle
begin

text \<open>
  The machine a command runs on, as far as the commands see it: files and directories, the random
  generator, and what has been printed. A path is the list of its components, the first of an absolute
  one \<open>''/''\<close>; all names the code joins are single components. The system may refuse to write a path
  (\<open>denied\<close>); the other failures of \<open>std::fs\<close> are a missing file or parent, and a file where a directory
  is needed or the other way round. \<open>entropy\<close> lists the secrets the generator will give.
\<close>

type_synonym path = "string list"

datatype io_error = FileNotFound | NotADirectory | IsADirectory | PermissionDenied | InvalidData

record machine =
  files :: "path \<rightharpoonup> bytes"
  dirs :: "path set"
  denied :: "path set"
  entropy :: "nat \<Rightarrow> bytes"
  drawn :: nat
  printed :: "string list"

section \<open>Operations\<close>

definition read_file :: "path \<Rightarrow> machine \<Rightarrow> io_error + bytes" where
  "read_file p m =
    (case files m p of Some b \<Rightarrow> Inr b
     | None \<Rightarrow> Inl (if p \<in> dirs m then IsADirectory else FileNotFound))"

definition read_to_string :: "path \<Rightarrow> machine \<Rightarrow> io_error + string" where
  "read_to_string p m = ebind (read_file p m) (\<lambda>b. ok_or InvalidData (from_utf8 b))"

definition path_exists :: "path \<Rightarrow> machine \<Rightarrow> bool" where
  "path_exists p m = (files m p \<noteq> None \<or> p \<in> dirs m)"

definition parent_ok :: "path \<Rightarrow> machine \<Rightarrow> bool" where
  "parent_ok p m = (butlast p = [] \<or> butlast p \<in> dirs m)"

definition write_file :: "path \<Rightarrow> bytes \<Rightarrow> machine \<Rightarrow> machine \<times> (io_error + unit)" where
  "write_file p b m =
    (if p \<in> denied m then (m, Inl PermissionDenied)
     else if p \<in> dirs m then (m, Inl IsADirectory)
     else if \<not> parent_ok p m then (m, Inl FileNotFound)
     else (m\<lparr>files := (files m)(p \<mapsto> b)\<rparr>, Inr ()))"

definition write_text :: "path \<Rightarrow> string \<Rightarrow> machine \<Rightarrow> machine \<times> (io_error + unit)" where
  "write_text p s = write_file p (as_bytes s)"

definition copy_file :: "path \<Rightarrow> path \<Rightarrow> machine \<Rightarrow> machine \<times> (io_error + unit)" where
  "copy_file src dst m = lift_res m (read_file src m) (\<lambda>b. write_file dst b m)"

text \<open>\<open>create_dir_all\<close> goes down from the top and makes what is missing.\<close>

definition create_dir :: "path \<Rightarrow> machine \<Rightarrow> machine \<times> (io_error + unit)" where
  "create_dir p m =
    (if p = [] \<or> p \<in> dirs m then (m, Inr ())
     else if files m p \<noteq> None then (m, Inl NotADirectory)
     else if p \<in> denied m then (m, Inl PermissionDenied)
     else (m\<lparr>dirs := insert p (dirs m)\<rparr>, Inr ()))"

definition create_dir_all :: "path \<Rightarrow> machine \<Rightarrow> machine \<times> (io_error + unit)" where
  "create_dir_all p = for_each create_dir (prefixes p)"

definition draw :: "machine \<Rightarrow> bytes \<times> machine" where
  "draw m = (entropy m (drawn m), m\<lparr>drawn := Suc (drawn m)\<rparr>)"

definition println :: "string \<Rightarrow> machine \<Rightarrow> machine" where
  "println s m = m\<lparr>printed := printed m @ [s]\<rparr>"

text \<open>An input or output error of a step becomes the error of the command.\<close>

definition io :: "(io_error \<Rightarrow> 'e) \<Rightarrow> machine \<times> (io_error + 'a) \<Rightarrow> machine \<times> ('e + 'a)" where
  "io f r = (fst r, map_err f (snd r))"

lemma io_simps [simp]: "io f (m, Inr x) = (m, Inr x)" "io f (m, Inl e) = (m, Inl (f e))"
  by (simp_all add: io_def map_err_def)

lemma map_err_simps [simp]: "map_err f (Inr x) = Inr x" "map_err f (Inl e) = Inl (f e)"
  by (simp_all add: map_err_def)

text \<open>\<open>Path::display\<close>.\<close>

definition path_display :: "path \<Rightarrow> string" where
  "path_display p =
    (case p of [] \<Rightarrow> [] | c # cs \<Rightarrow> if c = ''/'' then ''/'' @ join ''/'' cs else join ''/'' p)"

section \<open>A store of files\<close>

text \<open>What the commands rely on: a write that succeeds is read back and leaves every other path as it was.\<close>

locale file_store =
  fixes fetch :: "path \<Rightarrow> 'm \<Rightarrow> io_error + bytes"
    and save :: "path \<Rightarrow> bytes \<Rightarrow> 'm \<Rightarrow> 'm \<times> (io_error + unit)"
    and present :: "'m \<Rightarrow> path set"
  assumes fetch_save: "save p b m = (m', Inr ()) \<Longrightarrow> fetch p m' = Inr b"
    and fetch_other: "save p b m = (m', r) \<Longrightarrow> q \<noteq> p \<Longrightarrow> fetch q m' = fetch q m"
    and failed_save: "save p b m = (m', Inl e) \<Longrightarrow> m' = m"
    and present_fetch: "q \<in> present m \<longleftrightarrow> (\<exists>b. fetch q m = Inr b)"
begin

lemma save_present: "save p b m = (m', Inr ()) \<Longrightarrow> present m' = insert p (present m)"
  using fetch_save [of p b m m'] fetch_other [of p b m m'] by (auto simp: present_fetch) (metis Inr_not_Inl)+

text \<open>Writing a list of files at distinct paths: each is fetch back, and nothing else has changed.\<close>

lemma save_all:
  assumes "for_each (\<lambda>(p, b). save p b) ps m = (m', Inr ())" "distinct (map fst ps)"
  shows "\<And>p b. (p, b) \<in> set ps \<Longrightarrow> fetch p m' = Inr b"
    and "\<And>q. q \<notin> fst ` set ps \<Longrightarrow> fetch q m' = fetch q m"
proof -
  have "(\<forall>(p, b) \<in> set ps. fetch p m' = Inr b) \<and> (\<forall>q. q \<notin> fst ` set ps \<longrightarrow> fetch q m' = fetch q m)"
    using assms
  proof (induction ps arbitrary: m)
    case (Cons x ps)
    obtain p b where x: "x = (p, b)" by (cases x)
    obtain m1 r where w: "save p b m = (m1, r)" by (cases "save p b m")
    with Cons.prems x have r: "r = Inr ()" by (cases r) auto
    with Cons x w have IH: "\<forall>(p, b) \<in> set ps. fetch p m' = Inr b"
      "\<forall>q. q \<notin> fst ` set ps \<longrightarrow> fetch q m' = fetch q m1" by auto
    have "p \<notin> fst ` set ps" using Cons.prems(2) x by (simp add: image_iff)
    with IH(2) have "fetch p m' = fetch p m1" by blast
    moreover have "fetch p m1 = Inr b" using w r fetch_save by simp
    ultimately have "fetch p m' = Inr b" by simp
    then show ?case using IH x fetch_other [OF w] by auto
  qed simp
  then show "\<And>p b. (p, b) \<in> set ps \<Longrightarrow> fetch p m' = Inr b"
    and "\<And>q. q \<notin> fst ` set ps \<Longrightarrow> fetch q m' = fetch q m" by auto
qed

end

interpretation disk: file_store read_file write_file "\<lambda>m. dom (files m)"
  by unfold_locales (auto simp: read_file_def write_file_def dom_def split: if_splits option.splits)

lemma read_to_string_ascii:
  "write_text p s m = (m', Inr ()) \<Longrightarrow> ascii s \<Longrightarrow> read_to_string p m' = Inr s"
  unfolding write_text_def
  by (drule disk.fetch_save) (simp add: read_to_string_def from_utf8_as_bytes)

section \<open>Numbers as text\<close>

text \<open>\<open>format!\<close> of an unsigned integer: \<open>{}\<close> is radix 10, \<open>{:x}\<close> radix 16.\<close>

definition digit :: "nat \<Rightarrow> char" where
  "digit d = char_of (if d < 10 then 48 + d else 87 + d)"

function radix_display :: "nat \<Rightarrow> nat \<Rightarrow> string" where
  "radix_display b n = (if n < b \<or> b < 2 then [digit n] else radix_display b (n div b) @ [digit (n mod b)])"
  by auto
termination
  by (relation "measure snd") auto

declare radix_display.simps [simp del]

abbreviation nat_display :: "nat \<Rightarrow> string" where
  "nat_display \<equiv> radix_display 10"

lemma of_char_digit: "d < 16 \<Longrightarrow> of_char (digit d) = (if d < 10 then 48 + d else 87 + d :: nat)"
proof -
  assume "d < 16"
  then have "(if d < 10 then 48 + d else 87 + d) mod 256 = (if d < 10 then 48 + d else 87 + d)" by simp
  then show ?thesis unfolding digit_def of_char_of .
qed

lemma digit_inj: "a < 16 \<Longrightarrow> b < 16 \<Longrightarrow> digit a = digit b \<longleftrightarrow> a = b"
proof
  assume ab: "a < 16" "b < 16" and eq: "digit a = digit b"
  have "(if a < 10 then 48 + a else 87 + a) = (if b < 10 then 48 + b else 87 + b)"
    unfolding of_char_digit [OF ab(1), symmetric] of_char_digit [OF ab(2), symmetric] eq ..
  then show "a = b" using ab by (simp split: if_splits)
qed simp

lemma radix_display_not_Nil [simp]: "radix_display b n \<noteq> []"
  by (subst radix_display.simps) simp

lemma radix_display_inj:
  assumes "2 \<le> b" "b \<le> 16"
  shows "radix_display b n = radix_display b m \<longleftrightarrow> n = m"
proof
  show "radix_display b n = radix_display b m \<Longrightarrow> n = m"
    using assms
  proof (induction b n arbitrary: m rule: radix_display.induct)
    case (1 b n)
    then have b: "\<not> b < 2" "b \<le> 16" by auto
    show ?case
    proof (cases "n < b \<or> m < b")
      case True
      with 1 b show ?thesis
        by (auto simp: radix_display.simps [of b n] radix_display.simps [of b m] digit_inj
            append_eq_Cons_conv Cons_eq_append_conv split: if_splits)
    next
      case False
      have "n mod b < 16" "m mod b < 16"
        using b mod_less_divisor [of b n] mod_less_divisor [of b m] by linarith+
      with 1(2) b False have "radix_display b (n div b) = radix_display b (m div b)" "n mod b = m mod b"
        by (simp_all add: digit_inj radix_display.simps [of b n] radix_display.simps [of b m])
      with 1(1) False b have "n div b = m div b" by auto
      with \<open>n mod b = m mod b\<close> show ?thesis by (metis div_mult_mod_eq)
    qed
  qed
qed simp

section \<open>A directory of one's own\<close>

text \<open>
  \<open>workspace d m\<close>: the system lets the program work in \<open>d\<close>. Nothing above or below \<open>d\<close> is refused, no
  file stands above or at \<open>d\<close>, and below it files have a dot in their name and directories none, so that
  no file stands where the program wants a directory.
\<close>

abbreviation dotted :: "string \<Rightarrow> bool" where
  "dotted c \<equiv> CHR ''.'' \<in> set c"

definition workspace :: "path \<Rightarrow> machine \<Rightarrow> bool" where
  "workspace d m =
    (\<forall>p. prefix p d \<or> prefix d p \<longrightarrow>
      p \<notin> denied m \<and> (files m p \<noteq> None \<longrightarrow> strict_prefix d p \<and> dotted (last p)) \<and>
      (p \<in> dirs m \<and> strict_prefix d p \<longrightarrow> \<not> dotted (last p)))"

lemma create_dir_workspace:
  assumes "workspace d m" "prefix p d \<or> (\<exists>cs. p = d @ cs \<and> (\<forall>c \<in> set cs. \<not> dotted c))"
  obtains m' where "create_dir p m = (m', Inr ())" "workspace d m'" "p = [] \<or> p \<in> dirs m'"
    "m' = m\<lparr>dirs := dirs m'\<rparr>" "dirs m \<subseteq> dirs m'"
proof -
  have p: "prefix p d \<or> prefix d p" "strict_prefix d p \<longrightarrow> \<not> dotted (last p)"
    using assms(2) by (auto simp: strict_prefix_def prefix_def)
  have "files m p = None" "p \<notin> denied m"
    using assms(1) p unfolding workspace_def by blast+
  then consider "p = [] \<or> p \<in> dirs m" "create_dir p m = (m, Inr ())"
    | "create_dir p m = (m\<lparr>dirs := insert p (dirs m)\<rparr>, Inr ())"
    by (cases "p = [] \<or> p \<in> dirs m") (simp_all add: create_dir_def)
  then show thesis
  proof cases
    case 1
    then show thesis using assms(1) by (intro that [of m]) auto
  next
    case 2
    have "workspace d (m\<lparr>dirs := insert p (dirs m)\<rparr>)"
      using assms(1) p by (auto simp: workspace_def)
    with 2 show thesis by (intro that) auto
  qed
qed

lemma create_dirs_workspace:
  assumes "workspace d m" "\<forall>p \<in> set ps. prefix p d \<or> (\<exists>cs. p = d @ cs \<and> (\<forall>c \<in> set cs. \<not> dotted c))"
  shows "\<exists>m'. for_each create_dir ps m = (m', Inr ()) \<and> workspace d m' \<and> set ps \<subseteq> insert [] (dirs m') \<and>
    m' = m\<lparr>dirs := dirs m'\<rparr> \<and> dirs m \<subseteq> dirs m'"
  using assms
proof (induction ps arbitrary: m)
  case (Cons p ps)
  obtain m1 where m1: "create_dir p m = (m1, Inr ())" "workspace d m1" "p = [] \<or> p \<in> dirs m1"
    "m1 = m\<lparr>dirs := dirs m1\<rparr>" "dirs m \<subseteq> dirs m1"
    using create_dir_workspace [OF Cons.prems(1), of p] Cons.prems(2) by auto
  obtain m2 where m2: "for_each create_dir ps m1 = (m2, Inr ())" "workspace d m2" "set ps \<subseteq> insert [] (dirs m2)"
    "m2 = m1\<lparr>dirs := dirs m2\<rparr>" "dirs m1 \<subseteq> dirs m2"
    using Cons.IH [OF m1(2)] Cons.prems(2) by auto
  have "m2 = m\<lparr>dirs := dirs m2\<rparr>" by (subst m2(4), subst m1(4)) simp
  then show ?case using m1 m2 by (intro exI [of _ m2]) auto
qed simp

lemma create_dir_all_workspace:
  assumes "workspace d m" "\<forall>c \<in> set cs. \<not> dotted c"
  obtains m' where "create_dir_all (d @ cs) m = (m', Inr ())" "workspace d m'"
    "d @ cs = [] \<or> d @ cs \<in> dirs m'" "m' = m\<lparr>dirs := dirs m'\<rparr>" "dirs m \<subseteq> dirs m'"
proof -
  have "\<forall>p \<in> set (prefixes (d @ cs)). prefix p d \<or> (\<exists>cs. p = d @ cs \<and> (\<forall>c \<in> set cs. \<not> dotted c))"
    using assms(2) set_mono_prefix [of _ cs] by (auto simp: prefix_append) blast
  from create_dirs_workspace [OF assms(1) this] obtain m' where
    "create_dir_all (d @ cs) m = (m', Inr ())" "workspace d m'" "set (prefixes (d @ cs)) \<subseteq> insert [] (dirs m')"
    "m' = m\<lparr>dirs := dirs m'\<rparr>" "dirs m \<subseteq> dirs m'" by (auto simp: create_dir_all_def)
  then show thesis by (intro that [of m']) auto
qed

lemma write_file_workspace:
  assumes "workspace d m" "d @ cs = [] \<or> d @ cs \<in> dirs m" "dotted f"
  shows "write_file (d @ cs @ [f]) b m = (m\<lparr>files := (files m)(d @ cs @ [f] \<mapsto> b)\<rparr>, Inr ())"
    and "workspace d (m\<lparr>files := (files m)(d @ cs @ [f] \<mapsto> b)\<rparr>)"
proof -
  let ?p = "d @ cs @ [f]"
  have s: "strict_prefix d ?p" "last ?p = f" "butlast ?p = d @ cs"
    by (auto simp: strict_prefix_def prefix_def butlast_append)
  then have "?p \<notin> denied m" "?p \<notin> dirs m"
    using assms(1,3) unfolding workspace_def by (metis prefix_order.less_imp_le)+
  then show "write_file ?p b m = (m\<lparr>files := (files m)(?p \<mapsto> b)\<rparr>, Inr ())"
    using assms(2) s(3) by (simp add: write_file_def parent_ok_def)
  show "workspace d (m\<lparr>files := (files m)(?p \<mapsto> b)\<rparr>)"
    using assms(1,3) s by (auto simp: workspace_def)
qed

end
