(* ===== verification/Deploy_Network.thy ===== *)
theory Deploy_Network
  imports Machine
begin

text \<open>
  The plan of a network: \<open>crates/felidae-deployer/src/ports.rs\<close>, \<open>node.rs\<close> and the parts of
  \<open>network.rs\<close> that compute without touching the machine. Port numbers are 16-bit words; their
  arithmetic wraps, as it does in a release build (a debug build panics).
\<close>

type_synonym u16 = "16 word"

section \<open>Ports\<close>

definition DEFAULT_COMETBFT_P2P_PORT :: u16 where "DEFAULT_COMETBFT_P2P_PORT = 26656"
definition DEFAULT_COMETBFT_RPC_PORT :: u16 where "DEFAULT_COMETBFT_RPC_PORT = 26657"
definition DEFAULT_FELIDAE_ABCI_PORT :: u16 where "DEFAULT_FELIDAE_ABCI_PORT = 26658"
definition DEFAULT_FELIDAE_QUERY_PORT :: u16 where "DEFAULT_FELIDAE_QUERY_PORT = 8080"
definition DEFAULT_FELIDAE_ORACLE_PORT :: u16 where "DEFAULT_FELIDAE_ORACLE_PORT = 8081"
definition DEFAULT_PORT_OFFSET :: u16 where "DEFAULT_PORT_OFFSET = 100"

lemmas default_ports = DEFAULT_COMETBFT_P2P_PORT_def DEFAULT_COMETBFT_RPC_PORT_def DEFAULT_FELIDAE_ABCI_PORT_def
  DEFAULT_FELIDAE_QUERY_PORT_def DEFAULT_FELIDAE_ORACLE_PORT_def DEFAULT_PORT_OFFSET_def

record port_allocation_strategy =
  cometbft_p2p_base :: u16
  cometbft_rpc_base :: u16
  felidae_abci_base :: u16
  felidae_query_base :: u16
  felidae_oracle_base :: u16
  node_offset :: u16

record node_ports =
  cometbft_p2p :: u16
  cometbft_rpc :: u16
  felidae_abci :: u16
  felidae_query :: u16
  felidae_oracle :: u16

definition default_strategy :: port_allocation_strategy where
  "default_strategy =
    \<lparr>cometbft_p2p_base = DEFAULT_COMETBFT_P2P_PORT, cometbft_rpc_base = DEFAULT_COMETBFT_RPC_PORT,
     felidae_abci_base = DEFAULT_FELIDAE_ABCI_PORT, felidae_query_base = DEFAULT_FELIDAE_QUERY_PORT,
     felidae_oracle_base = DEFAULT_FELIDAE_ORACLE_PORT, node_offset = DEFAULT_PORT_OFFSET\<rparr>"

definition allocate :: "port_allocation_strategy \<Rightarrow> nat \<Rightarrow> node_ports" where
  "allocate s node_index =
    (let offset = (word_of_nat node_index :: u16) * node_offset s in
     \<lparr>cometbft_p2p = cometbft_p2p_base s + offset, cometbft_rpc = cometbft_rpc_base s + offset,
      felidae_abci = felidae_abci_base s + offset, felidae_query = felidae_query_base s + offset,
      felidae_oracle = felidae_oracle_base s + offset\<rparr>)"

section \<open>Nodes\<close>

datatype node_role = ValidatorRole | SentryRole | FullNodeRole

fun is_validator :: "node_role \<Rightarrow> bool" where
  "is_validator ValidatorRole = True"
| "is_validator r = False"

fun dir_prefix :: "node_role \<Rightarrow> string" where
  "dir_prefix ValidatorRole = ''validator''"
| "dir_prefix SentryRole = ''sentry''"
| "dir_prefix FullNodeRole = ''fullnode''"

record webcat_node =
  node_name :: string
  node_role :: node_role
  node_ports :: node_ports
  home_dir :: path
  bind_address :: string
  node_id :: "string option"

definition node_new :: "string \<Rightarrow> node_role \<Rightarrow> node_ports \<Rightarrow> path \<Rightarrow> webcat_node" where
  "node_new name role ports home =
    \<lparr>node_name = name, node_role = role, node_ports = ports, home_dir = home, bind_address = ''127.0.0.1'',
     node_id = None\<rparr>"

definition cometbft_home :: "webcat_node \<Rightarrow> path" where
  "cometbft_home n = home_dir n @ [''cometbft'']"

definition cometbft_config_dir :: "webcat_node \<Rightarrow> path" where
  "cometbft_config_dir n = cometbft_home n @ [''config'']"

definition cometbft_data_dir :: "webcat_node \<Rightarrow> path" where
  "cometbft_data_dir n = cometbft_home n @ [''data'']"

definition felidae_home :: "webcat_node \<Rightarrow> path" where
  "felidae_home n = home_dir n @ [''felidae'']"

definition node_key_path :: "webcat_node \<Rightarrow> path" where
  "node_key_path n = cometbft_config_dir n @ [''node_key.json'']"

definition priv_validator_key_path :: "webcat_node \<Rightarrow> path" where
  "priv_validator_key_path n = cometbft_config_dir n @ [''priv_validator_key.json'']"

definition priv_validator_state_path :: "webcat_node \<Rightarrow> path" where
  "priv_validator_state_path n = cometbft_data_dir n @ [''priv_validator_state.json'']"

definition config_toml_path :: "webcat_node \<Rightarrow> path" where
  "config_toml_path n = cometbft_config_dir n @ [''config.toml'']"

definition genesis_path :: "webcat_node \<Rightarrow> path" where
  "genesis_path n = cometbft_config_dir n @ [''genesis.json'']"

definition admin_key_path :: "webcat_node \<Rightarrow> path" where
  "admin_key_path n = felidae_home n @ [''admin_key.pkcs8.hex'']"

definition oracle_key_path :: "webcat_node \<Rightarrow> path" where
  "oracle_key_path n = felidae_home n @ [''oracle_key.pkcs8.hex'']"

definition port_display :: "u16 \<Rightarrow> string" where
  "port_display p = nat_display (unat p)"

definition socket_address :: "webcat_node \<Rightarrow> u16 \<Rightarrow> string" where
  "socket_address n port = bind_address n @ '':'' @ port_display port"

definition p2p_listen_address :: "webcat_node \<Rightarrow> string" where
  "p2p_listen_address n = ''tcp://'' @ socket_address n (cometbft_p2p (node_ports n))"

definition rpc_listen_address :: "webcat_node \<Rightarrow> string" where
  "rpc_listen_address n = ''tcp://'' @ socket_address n (cometbft_rpc (node_ports n))"

definition abci_address :: "webcat_node \<Rightarrow> string" where
  "abci_address n = socket_address n (felidae_abci (node_ports n))"

definition persistent_peer_address :: "webcat_node \<Rightarrow> string option" where
  "persistent_peer_address n =
    map_option (\<lambda>id. id @ ''@'' @ socket_address n (cometbft_p2p (node_ports n))) (node_id n)"

section \<open>The network\<close>

datatype platform = Local | Docker | Kubernetes

record network_config =
  nc_chain_id :: string
  num_validators :: nat
  use_sentries :: bool
  nc_platform :: platform
  directory :: path
  port_strategy :: port_allocation_strategy
  timeout_commit :: string

definition default_network_config :: network_config where
  "default_network_config =
    \<lparr>nc_chain_id = ''felidae-test'', num_validators = 1, use_sentries = False, nc_platform = Local,
     directory = [''/'', ''tmp'', ''felidae-network''], port_strategy = default_strategy, timeout_commit = ''1s''\<rparr>"

record network =
  net_config :: network_config
  nodes :: "webcat_node list"

text \<open>One of the two loops of \<open>Network::new\<close>: \<open>n\<close> nodes of a role, from the node index \<open>start\<close> on.\<close>

definition make_nodes :: "network_config \<Rightarrow> string \<Rightarrow> node_role \<Rightarrow> nat \<Rightarrow> nat \<Rightarrow> webcat_node list" where
  "make_nodes c label role start n =
    map (\<lambda>i. let name = label @ nat_display i in
           node_new name role (allocate (port_strategy c) (start + i)) (directory c @ [name])) [0..<n]"

definition network_new :: "network_config \<Rightarrow> network" where
  "network_new c =
    \<lparr>net_config = c,
     nodes = make_nodes c ''validator-'' ValidatorRole 0 (num_validators c) @
       (if use_sentries c then make_nodes c ''sentry-'' SentryRole (num_validators c) (num_validators c) else [])\<rparr>"

definition validators :: "network \<Rightarrow> webcat_node list" where
  "validators net = filter (\<lambda>n. node_role n = ValidatorRole) (nodes net)"

definition sentries :: "network \<Rightarrow> webcat_node list" where
  "sentries net = filter (\<lambda>n. node_role n = SentryRole) (nodes net)"

definition full_nodes :: "network \<Rightarrow> webcat_node list" where
  "full_nodes net = filter (\<lambda>n. node_role n = FullNodeRole) (nodes net)"

definition required_ports_of :: "webcat_node \<Rightarrow> (u16 \<times> string) list" where
  "required_ports_of n =
    (let ps = node_ports n in
     [(cometbft_p2p ps, node_name n @ '' CometBFT P2P''), (cometbft_rpc ps, node_name n @ '' CometBFT RPC''),
      (felidae_abci ps, node_name n @ '' Felidae ABCI''), (felidae_query ps, node_name n @ '' Felidae Query'')] @
     (if is_validator (node_role n) then [(felidae_oracle ps, node_name n @ '' Felidae Oracle'')] else []))"

definition collect_required_ports :: "network \<Rightarrow> (u16 \<times> string) list" where
  "collect_required_ports net = concat (map required_ports_of (nodes net))"

text \<open>\<open>can_bind\<close> says whether a port of the machine is free. The listener is dropped at once, so the
  ports are tried one by one.\<close>

definition check_ports_available :: "(u16 \<Rightarrow> bool) \<Rightarrow> (u16 \<times> string) list \<Rightarrow> (u16 \<times> string) list + unit" where
  "check_ports_available can_bind ports =
    (let unavailable = filter (\<lambda>(port, description). \<not> can_bind port) ports
     in if unavailable \<noteq> [] then Inl unavailable else Inr ())"

definition network_check_ports :: "(u16 \<Rightarrow> bool) \<Rightarrow> network \<Rightarrow> (u16 \<times> string) list + unit" where
  "network_check_ports can_bind net = check_ports_available can_bind (collect_required_ports net)"

section \<open>Documents\<close>

text \<open>A line of a document ends before a line feed.\<close>

definition lines :: "string list \<Rightarrow> string" where
  "lines ls = join [char_of (10 :: nat)] ls"

text \<open>The entry of one process: its name, its command, the process it starts after and the working
  directory.\<close>

definition process_entry :: "string \<Rightarrow> string \<Rightarrow> path option \<Rightarrow> string option \<Rightarrow> string" where
  "process_entry name command working_dir depends =
    lines
      ([''  '' @ name @ '':'', ''    command: '' @ command] @
       (case working_dir of None \<Rightarrow> [] | Some p \<Rightarrow> [''    working_dir: '' @ path_display p]) @
       (case depends of None \<Rightarrow> []
        | Some d \<Rightarrow> [''    depends_on:'', ''      '' @ d @ '':'', ''        condition: process_started'']) @
       [''    availability:'', ''      restart: on_failure'', ''      max_restarts: 3''])"

definition node_processes :: "string \<Rightarrow> path option \<Rightarrow> webcat_node \<Rightarrow> string list" where
  "node_processes felidae working_dir n =
    (let cometbft_name = node_name n @ ''-cometbft''; felidae_name = node_name n @ ''-felidae'';
         felidae_dir = path_display (felidae_home n) in
     [process_entry cometbft_name (''cometbft start --home '' @ path_display (cometbft_home n)) None None,
      process_entry felidae_name
        (felidae @ '' start --abci-bind '' @ abci_address n @ '' --query-bind '' @
          socket_address n (felidae_query (node_ports n)) @ '' --homedir '' @ felidae_dir)
        working_dir (Some cometbft_name)] @
     (if is_validator (node_role n) then
       [process_entry (node_name n @ ''-oracle'')
         (felidae @ '' oracle server --bind '' @ socket_address n (felidae_oracle (node_ports n)) @
           '' --node http://'' @ socket_address n (cometbft_rpc (node_ports n)) @ '' --homedir '' @ felidae_dir)
         working_dir (Some felidae_name)]
      else []))"

definition process_compose_config :: "string \<Rightarrow> path option \<Rightarrow> network \<Rightarrow> string" where
  \<open>process_compose_config felidae working_dir net =
    lines
      [''version: "0.5"'', [], ''# Process-compose configuration for felidae network'',
       ''# Generated by felidae-deployer'', [], ''log_level: info'', [], ''processes:'',
       join [char_of (10 :: nat), char_of (10 :: nat)] (concat (map (node_processes felidae working_dir) (nodes net))),
       []]\<close>

text \<open>\<open>config.toml\<close> of a node.\<close>

definition config_toml :: "webcat_node \<Rightarrow> string \<Rightarrow> string \<Rightarrow> string" where
  \<open>config_toml n persistent_peers commit_timeout =
    lines
      [''# This is a TOML config file.'',
       ''# For more information, see https://github.com/toml-lang/toml'',
       [],
       ''proxy_app = "tcp://'' @ abci_address n @ ''"'',
       ''moniker = "'' @ node_name n @ ''"'',
       ''fast_sync = true'',
       ''db_backend = "goleveldb"'',
       ''db_dir = "data"'',
       ''log_level = "info"'',
       ''log_format = "plain"'',
       ''genesis_file = "config/genesis.json"'',
       ''priv_validator_key_file = "config/priv_validator_key.json"'',
       ''priv_validator_state_file = "data/priv_validator_state.json"'',
       ''priv_validator_laddr = ""'',
       ''node_key_file = "config/node_key.json"'',
       ''abci = "socket"'',
       ''filter_peers = false'',
       [],
       ''[rpc]'',
       ''laddr = "'' @ rpc_listen_address n @ ''"'',
       ''cors_allowed_origins = []'',
       ''cors_allowed_methods = ["HEAD", "GET", "POST"]'',
       ''cors_allowed_headers = ["Origin", "Accept", "Content-Type", "X-Requested-With", "X-Server-Time"]'',
       ''grpc_laddr = ""'',
       ''grpc_max_open_connections = 900'',
       ''unsafe = false'',
       ''max_open_connections = 900'',
       ''max_subscription_clients = 100'',
       ''max_subscriptions_per_client = 5'',
       ''experimental_subscription_buffer_size = 200'',
       ''experimental_websocket_write_buffer_size = 200'',
       ''experimental_close_on_slow_client = false'',
       ''timeout_broadcast_tx_commit = "10s"'',
       ''max_body_bytes = 1000000'',
       ''max_header_bytes = 1048576'',
       ''tls_cert_file = ""'',
       ''tls_key_file = ""'',
       ''pprof_laddr = ""'',
       [],
       ''[p2p]'',
       ''laddr = "'' @ p2p_listen_address n @ ''"'',
       ''external_address = ""'',
       ''seeds = ""'',
       ''persistent_peers = "'' @ persistent_peers @ ''"'',
       ''upnp = false'',
       ''addr_book_file = "config/addrbook.json"'',
       ''addr_book_strict = false'',
       ''max_num_inbound_peers = 40'',
       ''max_num_outbound_peers = 10'',
       ''unconditional_peer_ids = ""'',
       ''persistent_peers_max_dial_period = "0s"'',
       ''flush_throttle_timeout = "100ms"'',
       ''max_packet_msg_payload_size = 1024'',
       ''send_rate = 5120000'',
       ''recv_rate = 5120000'',
       ''pex = true'',
       ''seed_mode = false'',
       ''private_peer_ids = ""'',
       ''allow_duplicate_ip = true'',
       ''handshake_timeout = "20s"'',
       ''dial_timeout = "3s"'',
       [],
       ''[mempool]'',
       ''version = "v0"'',
       ''recheck = true'',
       ''broadcast = true'',
       ''wal_dir = ""'',
       ''size = 5000'',
       ''max_txs_bytes = 1073741824'',
       ''cache_size = 10000'',
       ''keep-invalid-txs-in-cache = false'',
       ''max_tx_bytes = 1048576'',
       ''max_batch_bytes = 0'',
       [],
       ''[statesync]'',
       ''enable = false'',
       ''rpc_servers = ""'',
       ''trust_height = 0'',
       ''trust_hash = ""'',
       ''trust_period = "168h0m0s"'',
       ''discovery_time = "15s"'',
       ''temp_dir = ""'',
       ''chunk_request_timeout = "10s"'',
       ''chunk_fetchers = "4"'',
       [],
       ''[consensus]'',
       ''wal_file = "data/cs.wal/wal"'',
       ''timeout_propose = "3s"'',
       ''timeout_propose_delta = "500ms"'',
       ''timeout_prevote = "1s"'',
       ''timeout_prevote_delta = "500ms"'',
       ''timeout_precommit = "1s"'',
       ''timeout_precommit_delta = "500ms"'',
       ''timeout_commit = "'' @ commit_timeout @ ''"'',
       ''double_sign_check_height = 0'',
       ''skip_timeout_commit = false'',
       ''create_empty_blocks = true'',
       ''create_empty_blocks_interval = "0s"'',
       ''peer_gossip_sleep_duration = "100ms"'',
       ''peer_query_maj23_sleep_duration = "2s"'',
       [],
       ''[storage]'',
       ''discard_abci_responses = false'',
       [],
       ''[tx_index]'',
       ''indexer = "kv"'',
       ''psql-conn = ""'',
       [],
       ''[instrumentation]'',
       ''prometheus = false'',
       ''prometheus_listen_addr = ":26660"'',
       ''max_open_connections = 3'',
       ''namespace = "cometbft"'',
       []]\<close>

end
