(* ===== verification/Key_Commands.thy ===== *)
theory Key_Commands
  imports Machine
begin

text \<open>
  The commands that keep key files: \<open>init\<close> and \<open>identity\<close> of \<open>crates/felidae/src/cli/admin.rs\<close> and
  \<open>cli/oracle.rs\<close>, the admin commands \<open>config\<close> and \<open>template\<close>, and the key converter of
  \<open>cli/debug/key_convert.rs\<close>. The storage directory of an application, base64 and JSON texts are the
  fields of \<open>host_env\<close>; \<open>SecretKey::random\<close> is a draw from the machine. Warnings on standard error are
  not modelled.
\<close>

record broadcast_tx_result =
  bt_code :: u32
  bt_log :: string
  bt_hash :: string

record host_env =
  project_dir :: "string \<Rightarrow> path option"
  config_pretty :: "config \<Rightarrow> string option"
  broadcast_response_from_str :: "string \<Rightarrow> broadcast_tx_result option"
  base64_encode :: "bytes \<Rightarrow> string"
  base64_decode :: "string \<Rightarrow> bytes option"

datatype command_error =
    NoStorageDirectory | Io io_error | KeypairExists path | KeypairEncoding
  | KeypairUnreadable path | KeypairBadHex path | KeypairBadPkcs8 path
  | ConfigUnreadable path | ConfigUnparsable path | ReconfigureFailed client_error
  | NodeUnreachable | NodeStatus nat | NodeBody | NodeResponse | Rejected string | TemplateJson
  | StdinUnreadable | InvalidBase64 | InvalidHex | WrongKeyLength nat

section \<open>Key files\<close>

text \<open>The two roles differ in the application their directory belongs to, the name of their key file and
  what they are called.\<close>

datatype key_role = AdminKey | OracleKey

fun role_name :: "key_role \<Rightarrow> string" where
  "role_name AdminKey = ''admin''"
| "role_name OracleKey = ''oracle''"

fun key_application :: "key_role \<Rightarrow> string" where
  "key_application AdminKey = ''felidae-admin''"
| "key_application OracleKey = ''felidae-oracle''"

fun key_file_name :: "key_role \<Rightarrow> string" where
  "key_file_name AdminKey = ''admin_key.pkcs8.hex''"
| "key_file_name OracleKey = ''oracle_key.pkcs8.hex''"

definition key_dir :: "host_env \<Rightarrow> key_role \<Rightarrow> path option \<Rightarrow> command_error + path" where
  "key_dir H r homedir =
    (case homedir of Some h \<Rightarrow> Inr h | None \<Rightarrow> ok_or NoStorageDirectory (project_dir H (key_application r)))"

definition keypath :: "host_env \<Rightarrow> key_role \<Rightarrow> path option \<Rightarrow> machine \<Rightarrow> machine \<times> (command_error + path)" where
  "keypath H r homedir m =
    lift_res m (key_dir H r homedir) (\<lambda>dir.
    andthen (io Io (create_dir_all dir m)) (\<lambda>_ m. (m, Inr (dir @ [key_file_name r]))))"

text \<open>The admin command's own path of the oracle key, which does not create the directory.\<close>

definition oracle_keypath :: "host_env \<Rightarrow> path option \<Rightarrow> command_error + path" where
  "oracle_keypath H homedir = ebind (key_dir H OracleKey homedir) (\<lambda>dir. Inr (dir @ [key_file_name OracleKey]))"

definition keypair_at :: "env \<Rightarrow> client_env \<Rightarrow> path \<Rightarrow> machine \<Rightarrow> command_error + keypair" where
  "keypair_at E C p m =
    ebind (map_err (\<lambda>_. KeypairUnreadable p) (read_to_string p m)) (\<lambda>keyhex.
    ebind (ok_or (KeypairBadHex p) (hex_decode E (trim keyhex))) (\<lambda>keybytes.
    ok_or (KeypairBadPkcs8 p) (keypair_decode C keybytes)))"

definition keypair ::
  "env \<Rightarrow> client_env \<Rightarrow> host_env \<Rightarrow> key_role \<Rightarrow> path option \<Rightarrow> machine \<Rightarrow> machine \<times> (command_error + keypair)" where
  "keypair E C H r homedir m =
    andthen (keypath H r homedir m) (\<lambda>p m. lift_res m (keypair_at E C p m) (\<lambda>kp. (m, Inr kp)))"

definition load_pubkey_from_keypair ::
  "env \<Rightarrow> client_env \<Rightarrow> path \<Rightarrow> machine \<Rightarrow> command_error + bytes" where
  "load_pubkey_from_keypair E C p m = ebind (keypair_at E C p m) (\<lambda>kp. Inr (keypair_public_key E kp))"

definition key_init ::
  "env \<Rightarrow> client_env \<Rightarrow> host_env \<Rightarrow> key_role \<Rightarrow> path option \<Rightarrow> machine \<Rightarrow> machine \<times> (command_error + unit)" where
  "key_init E C H r homedir m =
    andthen (keypath H r homedir m) (\<lambda>p m.
    if path_exists p m then (m, Inl (KeypairExists p))
    else (case draw m of (secret, m) \<Rightarrow>
      lift_res m (ok_or KeypairEncoding (keypair_encode C (KeyPair secret))) (\<lambda>pkcs8.
      io Io (write_text p (hex_encode E pkcs8)
        (println (''Writing new '' @ role_name r @ '' keypair to: '' @ path_display p) m)))))"

definition key_identity ::
  "env \<Rightarrow> client_env \<Rightarrow> host_env \<Rightarrow> key_role \<Rightarrow> path option \<Rightarrow> machine \<Rightarrow> machine \<times> (command_error + unit)" where
  "key_identity E C H r homedir m =
    andthen (keypair E C H r homedir m) (\<lambda>kp m.
      (println (hex_encode E (keypair_public_key E kp)) m, Inr ()))"

section \<open>Submitting a configuration\<close>

text \<open>\<open>rpc_get\<close> answers a GET request at a path of the node with a query; \<open>None\<close> is a request that got no
  answer.\<close>

definition broadcast_reconfiguration ::
  "host_env \<Rightarrow> (string \<Rightarrow> (string \<times> string) list \<Rightarrow> http_answer option) \<Rightarrow> string \<Rightarrow> command_error + unit" where
  "broadcast_reconfiguration H rpc_get tx =
    ebind (ok_or NodeUnreachable (rpc_get ''/broadcast_tx_sync'' [(''tx'', ''0x'' @ tx)])) (\<lambda>a.
    ebind (check (\<not> (400 \<le> ha_status a \<and> ha_status a < 600)) (NodeStatus (ha_status a))) (\<lambda>_.
    ebind (ok_or NodeBody (ha_text a)) (\<lambda>response_text.
    ebind (ok_or NodeResponse (broadcast_response_from_str H response_text)) (\<lambda>result.
    check (bt_code result = 0) (Rejected (bt_log result))))))"

definition config_from_file :: "env \<Rightarrow> path \<Rightarrow> machine \<Rightarrow> command_error + config" where
  "config_from_file E p m =
    ebind (map_err (\<lambda>_. ConfigUnreadable p) (read_file p m)) (\<lambda>config_bytes.
    ok_or (ConfigUnparsable p) (Option.bind (json_from_slice E config_bytes) (config_from_json E)))"

definition admin_config ::
  "env \<Rightarrow> client_env \<Rightarrow> host_env \<Rightarrow> (string \<Rightarrow> (string \<times> string) list \<Rightarrow> http_answer option) \<Rightarrow> time
    \<Rightarrow> path \<Rightarrow> string \<Rightarrow> duration \<Rightarrow> duration \<Rightarrow> path option \<Rightarrow> machine \<Rightarrow> machine \<times> (command_error + unit)" where
  "admin_config E C H rpc_get now p chain signature_timeout not_before_grace homedir m =
    andthen (keypair E C H AdminKey homedir m) (\<lambda>kp m.
    lift_res m (config_from_file E p m) (\<lambda>cfg.
    lift_res m (ok_or KeypairEncoding (keypair_encode C kp)) (\<lambda>key.
    lift_res m (map_err ReconfigureFailed
      (admin_reconfigure E C now key chain signature_timeout (Some not_before_grace) cfg)) (\<lambda>tx.
    (m, broadcast_reconfiguration H rpc_get tx)))))"

section \<open>The configuration template\<close>

text \<open>A key that cannot be read leaves the placeholder in the template.\<close>

definition template_admin :: "command_error + bytes \<Rightarrow> config \<Rightarrow> config" where
  "template_admin pubkey cfg =
    (case pubkey of Inl e \<Rightarrow> cfg | Inr b \<Rightarrow> cfg\<lparr>admins := (admins cfg)\<lparr>a_authorized := [Admin b]\<rparr>\<rparr>)"

definition template_oracle :: "command_error + bytes \<Rightarrow> config \<Rightarrow> config" where
  "template_oracle pubkey cfg =
    (case pubkey of Inl e \<Rightarrow> cfg
     | Inr b \<Rightarrow> cfg\<lparr>oracles := (oracles cfg)\<lparr>o_authorized := [\<lparr>or_identity = b, or_endpoint = ''127.0.0.1''\<rparr>]\<rparr>\<rparr>)"

definition admin_template ::
  "env \<Rightarrow> client_env \<Rightarrow> host_env \<Rightarrow> bool \<Rightarrow> path option \<Rightarrow> path option \<Rightarrow> path option \<Rightarrow> machine
    \<Rightarrow> machine \<times> (command_error + unit)" where
  "admin_template E C H read_local_keys admin_pubkey oracle_pubkey homedir m =
    andthen
      (case admin_pubkey of Some p \<Rightarrow> (m, Inr (Some p))
       | None \<Rightarrow> if read_local_keys then andthen (keypath H AdminKey homedir m) (\<lambda>p m. (m, Inr (Some p)))
                 else (m, Inr None)) (\<lambda>admin_keypath m.
    lift_res m
      (case oracle_pubkey of Some p \<Rightarrow> Inr (Some p)
       | None \<Rightarrow> if read_local_keys then ebind (oracle_keypath H homedir) (\<lambda>p. Inr (Some p)) else Inr None)
      (\<lambda>oracle_path.
    let load = (\<lambda>f p_opt cfg. case p_opt of None \<Rightarrow> cfg | Some p \<Rightarrow> f (load_pubkey_from_keypair E C p m) cfg);
        template = load template_oracle oracle_path (load template_admin admin_keypath (config_template 0))
    in lift_res m (ok_or TemplateJson (config_pretty H template)) (\<lambda>json. (println json m, Inr ()))))"

section \<open>Converting keys\<close>

datatype key_format = Cometbft | Felidae

fun decode_input :: "env \<Rightarrow> host_env \<Rightarrow> string \<Rightarrow> key_format \<Rightarrow> command_error + bytes" where
  "decode_input E H input Cometbft = ok_or InvalidBase64 (base64_decode H input)"
| "decode_input E H input Felidae = ok_or InvalidHex (hex_decode E input)"

fun encode_output :: "env \<Rightarrow> host_env \<Rightarrow> bytes \<Rightarrow> key_format \<Rightarrow> string" where
  "encode_output E H b Cometbft = base64_encode H b"
| "encode_output E H b Felidae = hex_encode E b"

text \<open>\<open>stdin\<close> is the text on standard input, read when no key is given.\<close>

definition convert_key ::
  "env \<Rightarrow> host_env \<Rightarrow> string option \<Rightarrow> key_format \<Rightarrow> key_format \<Rightarrow> string option \<Rightarrow> machine
    \<Rightarrow> machine \<times> (command_error + unit)" where
  "convert_key E H stdin from_format to_format key m =
    lift_res m (case key of Some k \<Rightarrow> Inr k | None \<Rightarrow> ok_or StdinUnreadable stdin) (\<lambda>input.
    lift_res m (decode_input E H (trim input) from_format) (\<lambda>raw_bytes.
    lift_res m (check (length raw_bytes = 32) (WrongKeyLength (length raw_bytes))) (\<lambda>_.
    (println (encode_output E H raw_bytes to_format) m, Inr ()))))"

end
