(* ===== verification/Deploy_Files.thy ===== *)
theory Deploy_Files
  imports Deploy_Network Key_Commands
begin

text \<open>
  Creating a network on the machine: the rest of \<open>crates/felidae-deployer/src/network.rs\<close> and the command
  \<open>cli/create_network.rs\<close>. JSON values are built as the code builds them; their text, Ed25519 keys and
  the clock are the fields of \<open>deploy_env\<close>. Random keys are draws from the machine.
\<close>

record deploy_env = host_env +
  ed25519_public :: "bytes \<Rightarrow> bytes"
  hex_encode_upper :: "bytes \<Rightarrow> string"
  json_pretty :: "json \<Rightarrow> string option"
  config_to_json :: "config \<Rightarrow> json option"
  network_pretty :: "network \<Rightarrow> string option"
  network_from_str :: "string \<Rightarrow> network option"
  genesis_time :: string

datatype deploy_error =
    DeployIo io_error | JsonText | JsonParse path | GenesisNotObject path | Pkcs8Encoding
  | KeyFile command_error | NotDirectory path | DirectoryNotEmpty path
  | NetworkJson | MissingBinaries "string list" | PortsUnavailable "(u16 \<times> string) list"
  | StartFailed string | CtrlcHandler | ComposeMissing path | ComposeFailed | BuildFailed | NoTempDir

section \<open>JSON values\<close>

text \<open>
  \<open>json!\<close> inserts the entries of an object one by one into a map ordered by key. Indexing: \<open>v[k]\<close> is
  \<open>null\<close> where there is no such entry; \<open>v[k] = x\<close> panics unless \<open>v\<close> is an object or \<open>null\<close>.
\<close>

definition json_object :: "(string \<times> json) list \<Rightarrow> json" where
  "json_object kvs = JObject (fold (\<lambda>(k, v). om_put k v) kvs om_empty)"

definition json_index :: "string \<Rightarrow> json \<Rightarrow> json" where
  "json_index k v = (case json_get k v of None \<Rightarrow> JNull | Some x \<Rightarrow> x)"

fun json_set :: "string \<Rightarrow> json \<Rightarrow> json \<Rightarrow> json option" where
  "json_set k x (JObject kvs) = Some (JObject (om_put k x kvs))"
| "json_set k x JNull = Some (JObject [(k, x)])"
| "json_set k x v = None"

section \<open>Keys\<close>

definition node_key_document :: "deploy_env \<Rightarrow> bytes \<Rightarrow> bytes \<Rightarrow> json" where
  "node_key_document D secret pub =
    json_object [(''priv_key'', json_object
      [(''type'', JString ''tendermint/PrivKeyEd25519''), (''value'', JString (base64_encode D (secret @ pub)))])]"

text \<open>The result is the text of the document and the id of the node.\<close>

definition generate_node_key ::
  "env \<Rightarrow> deploy_env \<Rightarrow> machine \<Rightarrow> machine \<times> (deploy_error + string \<times> string)" where
  "generate_node_key E D m =
    (case draw m of (secret, m) \<Rightarrow>
      let pub = ed25519_public D secret; nid = hex_encode E (take 20 (sha256 E pub))
      in lift_res m (ok_or JsonText (json_pretty D (node_key_document D secret pub))) (\<lambda>text. (m, Inr (text, nid))))"

definition priv_validator_document :: "deploy_env \<Rightarrow> string \<Rightarrow> bytes \<Rightarrow> bytes \<Rightarrow> json" where
  "priv_validator_document D address secret pub =
    json_object
      [(''address'', JString address),
       (''pub_key'', json_object
         [(''type'', JString ''tendermint/PubKeyEd25519''), (''value'', JString (base64_encode D pub))]),
       (''priv_key'', json_object
         [(''type'', JString ''tendermint/PrivKeyEd25519''), (''value'', JString (base64_encode D (secret @ pub)))])]"

definition generate_priv_validator_key ::
  "env \<Rightarrow> deploy_env \<Rightarrow> machine \<Rightarrow> machine \<times> (deploy_error + string)" where
  "generate_priv_validator_key E D m =
    (case draw m of (secret, m) \<Rightarrow>
      let pub = ed25519_public D secret; address = hex_encode_upper D (take 20 (sha256 E pub))
      in lift_res m (ok_or JsonText (json_pretty D (priv_validator_document D address secret pub))) (\<lambda>text.
         (m, Inr text)))"

definition write_key_file :: "path \<Rightarrow> string \<Rightarrow> machine \<Rightarrow> machine \<times> (deploy_error + unit)" where
  "write_key_file p text m = io DeployIo (write_text p text m)"

definition generate_felidae_keys ::
  "env \<Rightarrow> client_env \<Rightarrow> webcat_node \<Rightarrow> machine \<Rightarrow> machine \<times> (deploy_error + unit)" where
  "generate_felidae_keys E C n m =
    (case draw m of (admin_secret, m) \<Rightarrow>
      lift_res m (ok_or Pkcs8Encoding (keypair_encode C (KeyPair admin_secret))) (\<lambda>admin_pkcs8.
      case draw m of (oracle_secret, m) \<Rightarrow>
      lift_res m (ok_or Pkcs8Encoding (keypair_encode C (KeyPair oracle_secret))) (\<lambda>oracle_pkcs8.
      andthen (write_key_file (admin_key_path n) (hex_encode E admin_pkcs8) m) (\<lambda>_ m.
      write_key_file (oracle_key_path n) (hex_encode E oracle_pkcs8) m))))"

section \<open>A node\<close>

definition priv_validator_state :: string where
  \<open>priv_validator_state = lines [''{'', ''  "height": "0",'', ''  "round": 0,'', ''  "step": 0'', ''}'']\<close>

definition initialize_validator ::
  "env \<Rightarrow> client_env \<Rightarrow> deploy_env \<Rightarrow> webcat_node \<Rightarrow> machine \<Rightarrow> machine \<times> (deploy_error + unit)" where
  "initialize_validator E C D n m =
    andthen (generate_priv_validator_key E D m) (\<lambda>priv_validator_key m.
    andthen (write_key_file (priv_validator_key_path n) priv_validator_key m) (\<lambda>_ m.
    andthen (write_key_file (priv_validator_state_path n) priv_validator_state m) (\<lambda>_ m.
    generate_felidae_keys E C n m)))"

definition initialize_node ::
  "env \<Rightarrow> client_env \<Rightarrow> deploy_env \<Rightarrow> webcat_node \<Rightarrow> machine \<Rightarrow> machine \<times> (deploy_error + webcat_node)" where
  "initialize_node E C D n m =
    andthen (io DeployIo (create_dir_all (cometbft_config_dir n) m)) (\<lambda>_ m.
    andthen (io DeployIo (create_dir_all (cometbft_data_dir n) m)) (\<lambda>_ m.
    andthen (io DeployIo (create_dir_all (felidae_home n) m)) (\<lambda>_ m.
    andthen (generate_node_key E D m) (\<lambda>(node_key_json, nid) m.
    let n = n\<lparr>node_id := Some nid\<rparr> in
    andthen (write_key_file (node_key_path n) node_key_json m) (\<lambda>_ m.
    andthen (if is_validator (node_role n) then initialize_validator E C D n m else (m, Inr ())) (\<lambda>_ m.
    (m, Inr n)))))))"

text \<open>A loop that replaces every element by what its body makes of it.\<close>

fun update_each :: "('x \<Rightarrow> 's \<Rightarrow> 's \<times> ('e + 'y)) \<Rightarrow> 'x list \<Rightarrow> 's \<Rightarrow> 's \<times> ('e + 'y list)" where
  "update_each f [] s = (s, Inr [])"
| "update_each f (x # xs) s =
     andthen (f x s) (\<lambda>y s. andthen (update_each f xs s) (\<lambda>ys s. (s, Inr (y # ys))))"

section \<open>The genesis document\<close>

definition json_file :: "env \<Rightarrow> path \<Rightarrow> machine \<Rightarrow> deploy_error + json" where
  "json_file E p m =
    ebind (map_err DeployIo (read_to_string p m)) (\<lambda>text. ok_or (JsonParse p) (json_from_slice E (as_bytes text)))"

definition validator_entry :: "env \<Rightarrow> machine \<Rightarrow> nat \<times> webcat_node \<Rightarrow> deploy_error + json" where
  "validator_entry E m = (\<lambda>(i, n).
    ebind (json_file E (priv_validator_key_path n) m) (\<lambda>priv_val_key.
    Inr (json_object
      [(''address'', json_index ''address'' priv_val_key), (''pub_key'', json_index ''pub_key'' priv_val_key),
       (''power'', JString ''10''), (''name'', JString (''validator-'' @ nat_display i))])))"

definition consensus_params :: json where
  "consensus_params = json_object
    [(''block'', json_object
      [(''max_bytes'', JString ''22020096''), (''max_gas'', JString ''-1''), (''time_iota_ms'', JString ''1000'')]),
     (''evidence'', json_object
      [(''max_age_num_blocks'', JString ''100000''), (''max_age_duration'', JString ''172800000000000''),
       (''max_bytes'', JString ''1048576'')]),
     (''validator'', json_object [(''pub_key_types'', JArray [JString ''ed25519''])]),
     (''version'', json_object [])]"

definition genesis_document :: "string \<Rightarrow> string \<Rightarrow> json list \<Rightarrow> json" where
  "genesis_document time_text chain validator_entries = json_object
    [(''genesis_time'', JString time_text), (''chain_id'', JString chain), (''initial_height'', JString ''1''),
     (''consensus_params'', consensus_params), (''validators'', JArray validator_entries), (''app_hash'', JString [])]"

definition generate_genesis :: "env \<Rightarrow> deploy_env \<Rightarrow> network \<Rightarrow> machine \<Rightarrow> deploy_error + string" where
  "generate_genesis E D net m =
    ebind (ecollect (map (validator_entry E m)
      (enumerate 0 (filter (\<lambda>n. is_validator (node_role n)) (nodes net))))) (\<lambda>validator_entries.
    ok_or JsonText (json_pretty D
      (genesis_document (genesis_time D) (nc_chain_id (net_config net)) validator_entries)))"

section \<open>Peers\<close>

definition persistent_peers :: "network \<Rightarrow> string list" where
  "persistent_peers net = List.map_filter persistent_peer_address (nodes net)"

definition peers_of :: "network \<Rightarrow> webcat_node \<Rightarrow> string list" where
  "peers_of net n =
    filter (\<lambda>p. case node_id n of Some nid \<Rightarrow> \<not> prefix nid p | None \<Rightarrow> True) (persistent_peers net)"

definition generate_configs :: "network \<Rightarrow> machine \<Rightarrow> machine \<times> (deploy_error + unit)" where
  "generate_configs net =
    for_each (\<lambda>n m. io DeployIo (write_text (config_toml_path n)
      (config_toml n (join '','' (peers_of net n)) (timeout_commit (net_config net))) m)) (nodes net)"

section \<open>Initialising the network\<close>

definition network_initialize ::
  "env \<Rightarrow> client_env \<Rightarrow> deploy_env \<Rightarrow> network \<Rightarrow> machine \<Rightarrow> machine \<times> (deploy_error + network)" where
  "network_initialize E C D net m =
    (let d = directory (net_config net) in
     andthen (io DeployIo (create_dir_all d m)) (\<lambda>_ m.
     andthen (update_each (initialize_node E C D) (nodes net) m) (\<lambda>ns m.
     let net = net\<lparr>nodes := ns\<rparr> in
     lift_res m (generate_genesis E D net m) (\<lambda>genesis.
     andthen (io DeployIo (write_text (d @ [''genesis.json'']) genesis m)) (\<lambda>_ m.
     andthen (for_each (\<lambda>n m. io DeployIo (copy_file (d @ [''genesis.json'']) (genesis_path n) m)) ns m) (\<lambda>_ m.
     andthen (generate_configs net m) (\<lambda>_ m.
     lift_res m (ok_or JsonText (network_pretty D net)) (\<lambda>network_json.
     andthen (io DeployIo (write_text (d @ [''network.json'']) network_json m)) (\<lambda>_ m.
     (m, Inr net))))))))))"

section \<open>The configuration of the chain\<close>

text \<open>The public key of a key file; its three steps are those of the admin command.\<close>

definition public_key_of :: "env \<Rightarrow> client_env \<Rightarrow> path \<Rightarrow> machine \<Rightarrow> deploy_error + bytes" where
  "public_key_of E C p m = map_err KeyFile (load_pubkey_from_keypair E C p m)"

definition bft_quorum :: "nat \<Rightarrow> u64" where
  "bft_quorum n = word_of_nat (n * 2 div 3 + 1)"

definition generate_felidae_config ::
  "env \<Rightarrow> client_env \<Rightarrow> network \<Rightarrow> duration \<Rightarrow> duration \<Rightarrow> machine \<Rightarrow> deploy_error + config" where
  "generate_felidae_config E C net oracle_voting_delay admin_voting_delay m =
    (let vs = filter (\<lambda>n. is_validator (node_role n)) (nodes net) in
     ebind (ecollect (map (\<lambda>n. ebind (public_key_of E C (oracle_key_path n) m) (\<lambda>pk.
       Inr \<lparr>or_identity = pk, or_endpoint = socket_address n (felidae_oracle (node_ports n))\<rparr>)) vs)) (\<lambda>oracle_configs.
     ebind (ecollect (map (\<lambda>n. ebind (public_key_of E C (admin_key_path n) m) (\<lambda>pk.
       Inr (Admin pk))) vs)) (\<lambda>admin_configs.
     Inr \<lparr>version = 0,
       admins = \<lparr>a_voting = \<lparr>total = word_of_nat (length vs), quorum = bft_quorum (length vs),
           timeout = from_secs 60, delay = admin_voting_delay\<rparr>, a_authorized = admin_configs\<rparr>,
       oracles = \<lparr>o_enabled = True,
         o_voting = \<lparr>total = word_of_nat (length vs), quorum = bft_quorum (length vs),
           timeout = from_secs 300, delay = oracle_voting_delay\<rparr>,
         max_enrolled_subdomains = 5, observation_timeout = from_secs 300, o_authorized = oracle_configs\<rparr>,
       onion = OnionConfig False\<rparr>)))"

definition inject_genesis_app_state ::
  "env \<Rightarrow> deploy_env \<Rightarrow> config \<Rightarrow> network \<Rightarrow> machine \<Rightarrow> machine \<times> (deploy_error + unit)" where
  "inject_genesis_app_state E D cfg net =
    for_each (\<lambda>n m.
      lift_res m (json_file E (genesis_path n) m) (\<lambda>genesis.
      lift_res m (ok_or JsonText (config_to_json D cfg)) (\<lambda>cfg_json.
      lift_res m (ok_or (GenesisNotObject (genesis_path n))
        (json_set ''app_state'' (json_object [(''config'', cfg_json)]) genesis)) (\<lambda>genesis.
      lift_res m (ok_or JsonText (json_pretty D genesis)) (\<lambda>updated_genesis.
      io DeployIo (write_text (genesis_path n) updated_genesis m)))))) (nodes net)"

section \<open>The command create-network\<close>

definition dir_entries :: "path \<Rightarrow> machine \<Rightarrow> path set" where
  "dir_entries d m = {p \<in> dom (files m) \<union> dirs m. p \<noteq> [] \<and> butlast p = d}"

definition check_target :: "path \<Rightarrow> machine \<Rightarrow> deploy_error + unit" where
  "check_target d m =
    (if path_exists d m then
       ebind (check (d \<in> dirs m) (NotDirectory d)) (\<lambda>_.
       check (dir_entries d m = {}) (DirectoryNotEmpty d))
     else Inr ())"

definition create_network ::
  "env \<Rightarrow> client_env \<Rightarrow> deploy_env \<Rightarrow> network_config \<Rightarrow> duration \<Rightarrow> duration \<Rightarrow> machine
    \<Rightarrow> machine \<times> (deploy_error + network)" where
  "create_network E C D c oracle_delay admin_delay m =
    lift_res m (check_target (directory c) m) (\<lambda>_.
    andthen (network_initialize E C D (network_new c) m) (\<lambda>net m.
    lift_res m (generate_felidae_config E C net oracle_delay admin_delay m) (\<lambda>felidae_config.
    andthen (inject_genesis_app_state E D felidae_config net m) (\<lambda>_ m.
    andthen (io DeployIo (write_text (directory c @ [''process-compose.yaml''])
      (process_compose_config ''felidae'' None net) m)) (\<lambda>_ m.
    (fold println [[], ''To run with process-compose:'',
        ''  cd '' @ path_display (directory c) @ '' && process-compose up'', [],
        ''Or run directly with felidae-deployer:'',
        ''  felidae-deployer run-network --directory '' @ path_display (directory c) @ '' --dev''] m,
     Inr net))))))"

text \<open>The command, on its arguments: the platform is always the local one and the ports the default ones.\<close>

definition cli_network_config :: "string \<Rightarrow> nat \<Rightarrow> bool \<Rightarrow> path \<Rightarrow> string \<Rightarrow> network_config" where
  "cli_network_config chain n sentry_nodes d commit_timeout =
    default_network_config\<lparr>nc_chain_id := chain, num_validators := n, use_sentries := sentry_nodes,
      nc_platform := Local, directory := d, timeout_commit := commit_timeout\<rparr>"

definition create_network_command ::
  "env \<Rightarrow> client_env \<Rightarrow> deploy_env \<Rightarrow> string \<Rightarrow> nat \<Rightarrow> bool \<Rightarrow> path \<Rightarrow> string \<Rightarrow> duration \<Rightarrow> duration \<Rightarrow> machine
    \<Rightarrow> machine \<times> (deploy_error + unit)" where
  "create_network_command E C D chain n sentry_nodes d commit_timeout oracle_delay admin_delay m =
    andthen (create_network E C D (cli_network_config chain n sentry_nodes d commit_timeout) oracle_delay admin_delay m)
      (\<lambda>_ m. (m, Inr ()))"

end
