(* ===== verification/Deploy_Run.thy ===== *)
theory Deploy_Run
  imports Deploy_Files
begin

text \<open>
  Running a network: \<open>crates/felidae-deployer/src/cli/run_network.rs\<close>. What the outside does is data: which
  binaries and ports there are, which processes start, and for each round of the supervising loop
  whether Ctrl+C was pressed before it and what \<open>try_wait\<close> says of each child. The state is the list of
  the children not yet killed, next to the machine. \<open>None\<close> as a result is a command that is still
  running when the rounds are used up. Killing a child and waiting for it succeeds. The threads that copy
  the output of a child, which the command joins before it returns, are not modelled.
\<close>

datatype poll = StillRunning | Exited bool | PollFailed

record supervision_round =
  ctrlc_pressed :: bool
  poll_child :: "string \<Rightarrow> poll"

record world =
  binary_found :: "string \<Rightarrow> bool"
  can_bind :: "u16 \<Rightarrow> bool"
  ctrlc_handler_set :: bool
  spawns :: "string \<Rightarrow> bool"
  rounds :: "supervision_round list"
  built_felidae :: "string option"
  temp_dir :: "path option"
  release_build :: bool
  current_dir :: "path option"
  compose_succeeds :: bool

record run_args =
  run_directory :: "path option"
  use_process_compose :: bool
  felidae_bin :: string
  cometbft_bin :: string
  dev :: bool

section \<open>The processes\<close>

type_synonym process = "string \<times> string \<times> string list"

definition node_commands :: "run_args \<Rightarrow> webcat_node \<Rightarrow> process list" where
  "node_commands a n =
    [(node_name n @ ''-cometbft'', cometbft_bin a, [''start'', ''--home'', path_display (cometbft_home n)]),
     (node_name n @ ''-felidae'', felidae_bin a,
       [''start'', ''--abci-bind'', abci_address n, ''--query-bind'', socket_address n (felidae_query (node_ports n)),
        ''--homedir'', path_display (felidae_home n)])] @
    (if is_validator (node_role n) then
      [(node_name n @ ''-oracle'', felidae_bin a,
        [''oracle'', ''server'', ''--bind'', socket_address n (felidae_oracle (node_ports n)), ''--node'',
         ''http://'' @ socket_address n (cometbft_rpc (node_ports n)), ''--homedir'', path_display (felidae_home n)])]
     else [])"

definition start_process :: "world \<Rightarrow> process \<Rightarrow> string list \<Rightarrow> string list \<times> (deploy_error + unit)" where
  "start_process W p children =
    (case p of (name, bin, args) \<Rightarrow>
      if spawns W name then (children @ [name], Inr ()) else (children, Inl (StartFailed name)))"

definition missing_binaries :: "world \<Rightarrow> run_args \<Rightarrow> string list" where
  "missing_binaries W a = filter (\<lambda>b. \<not> binary_found W b) [cometbft_bin a, felidae_bin a]"

section \<open>Supervision\<close>

fun exited_children :: "supervision_round \<Rightarrow> string list \<Rightarrow> string list" where
  "exited_children r children =
    filter (\<lambda>name. case poll_child r name of Exited success \<Rightarrow> True | StillRunning \<Rightarrow> False | PollFailed \<Rightarrow> False) children"

text \<open>The loop looks at the flag first, then at every child; a child that has exited raises the flag for the
  next look.\<close>

fun supervise :: "string list \<Rightarrow> bool \<Rightarrow> supervision_round list \<Rightarrow> unit option" where
  "supervise children shutdown [] = (if shutdown then Some () else None)"
| "supervise children shutdown (r # rs) =
     (if shutdown \<or> ctrlc_pressed r then Some ()
      else supervise children (exited_children r children \<noteq> []) rs)"

definition kill_children :: "string list \<Rightarrow> string list \<Rightarrow> string list" where
  "kill_children names running = filter (\<lambda>p. p \<notin> set names) running"

definition role_display :: "node_role \<Rightarrow> string" where
  "role_display r =
    (case r of ValidatorRole \<Rightarrow> ''validator'' | SentryRole \<Rightarrow> ''sentry'' | FullNodeRole \<Rightarrow> ''full node'')"

definition node_info :: "webcat_node \<Rightarrow> string list" where
  "node_info n =
    [node_name n @ '' ('' @ role_display (node_role n) @ '')'',
     ''  CometBFT P2P:  '' @ socket_address n (cometbft_p2p (node_ports n)),
     ''  CometBFT RPC:  '' @ socket_address n (cometbft_rpc (node_ports n)),
     ''  Felidae ABCI:  '' @ abci_address n,
     ''  Felidae Query: '' @ socket_address n (felidae_query (node_ports n))] @
    (if is_validator (node_role n)
     then [''  Oracle:        '' @ socket_address n (felidae_oracle (node_ports n))] else [])"

definition print_node_info :: "network \<Rightarrow> machine \<Rightarrow> machine" where
  "print_node_info net =
    fold println ([[], ''=== Network Nodes ===''] @ concat (map node_info (nodes net)) @ [''====================='', []])"

type_synonym run_result = "(machine \<times> string list) \<times> (deploy_error + unit) option"

definition run_processes_directly :: "world \<Rightarrow> run_args \<Rightarrow> network \<Rightarrow> machine \<Rightarrow> run_result" where
  "run_processes_directly W a net m =
    (let missing = missing_binaries W a in
     if missing \<noteq> [] then ((m, []), Some (Inl (MissingBinaries missing)))
     else case network_check_ports (can_bind W) net of
       Inl ports \<Rightarrow> ((m, []), Some (Inl (PortsUnavailable ports)))
     | Inr _ \<Rightarrow>
       if \<not> ctrlc_handler_set W then ((m, []), Some (Inl CtrlcHandler))
       else case for_each (start_process W) (concat (map (node_commands a) (nodes net))) [] of
         (children, Inl e) \<Rightarrow> ((m, children), Some (Inl e))
       | (children, Inr _) \<Rightarrow>
         let m = print_node_info net m in
         case supervise children False (rounds W) of
           None \<Rightarrow> ((m, children), None)
         | Some _ \<Rightarrow> ((m, kill_children children children), Some (Inr ())))"

section \<open>The command run-network\<close>

text \<open>The directory of a network made for this run is removed when the command returns.\<close>

definition remove_tree :: "path \<Rightarrow> machine \<Rightarrow> machine" where
  "remove_tree d m =
    m\<lparr>files := (\<lambda>p. if prefix d p then None else files m p), dirs := {p \<in> dirs m. \<not> prefix d p}\<rparr>"

definition temporary_network ::
  "env \<Rightarrow> client_env \<Rightarrow> deploy_env \<Rightarrow> path \<Rightarrow> machine \<Rightarrow> machine \<times> (deploy_error + unit)" where
  "temporary_network E C D d m =
    andthen (network_initialize E C D (network_new (default_network_config\<lparr>directory := d\<rparr>)) m) (\<lambda>net m.
    lift_res m (generate_felidae_config E C net (from_secs 1) (from_secs 0) m) (\<lambda>felidae_config.
    inject_genesis_app_state E D felidae_config net m))"

definition load_network :: "deploy_env \<Rightarrow> path \<Rightarrow> machine \<Rightarrow> deploy_error + network" where
  "load_network D d m =
    ebind (map_err DeployIo (read_to_string (d @ [''network.json'']) m)) (\<lambda>network_json.
    ok_or NetworkJson (network_from_str D network_json))"

definition felidae_cargo_command :: "world \<Rightarrow> string" where
  "felidae_cargo_command W =
    (if release_build W then ''cargo run --bin felidae --release --'' else ''cargo run --bin felidae --'')"

definition prepare_compose :: "world \<Rightarrow> run_args \<Rightarrow> path \<Rightarrow> network \<Rightarrow> machine \<Rightarrow> machine \<times> (deploy_error + unit)" where
  "prepare_compose W a d net m =
    (let config_path = d @ [''process-compose.yaml''] in
     if dev a then
       lift_res m (ok_or (DeployIo FileNotFound) (current_dir W)) (\<lambda>workspace_root.
       io DeployIo (write_text config_path
         (process_compose_config (felidae_cargo_command W) (Some workspace_root) net) m))
     else if \<not> path_exists config_path m then (m, Inl (ComposeMissing config_path)) else (m, Inr ()))"

definition run_in :: "deploy_env \<Rightarrow> world \<Rightarrow> run_args \<Rightarrow> path \<Rightarrow> machine \<Rightarrow> run_result" where
  "run_in D W a d m =
    (case load_network D d m of
       Inl e \<Rightarrow> ((m, []), Some (Inl e))
     | Inr net \<Rightarrow>
       if use_process_compose a then
         (case prepare_compose W a d net m of
            (m, Inl e) \<Rightarrow> ((m, []), Some (Inl e))
          | (m, Inr _) \<Rightarrow> ((m, []), Some (check (compose_succeeds W) ComposeFailed)))
       else run_processes_directly W a net m)"

text \<open>What is done on return when the directory was a temporary one.\<close>

fun drop_temp :: "path \<Rightarrow> run_result \<Rightarrow> run_result" where
  "drop_temp d ((m, children), None) = ((m, children), None)"
| "drop_temp d ((m, children), Some r) = ((remove_tree d m, children), Some r)"

definition run_network ::
  "env \<Rightarrow> client_env \<Rightarrow> deploy_env \<Rightarrow> world \<Rightarrow> run_args \<Rightarrow> machine \<Rightarrow> run_result" where
  "run_network E C D W a m =
    (case (if dev a \<and> \<not> use_process_compose a
           then ebind (ok_or BuildFailed (built_felidae W)) (\<lambda>bin. Inr (a\<lparr>felidae_bin := bin\<rparr>)) else Inr a) of
       Inl e \<Rightarrow> ((m, []), Some (Inl e))
     | Inr a \<Rightarrow>
       (case run_directory a of
          Some d \<Rightarrow> run_in D W a d m
        | None \<Rightarrow>
          (case temp_dir W of
             None \<Rightarrow> ((m, []), Some (Inl NoTempDir))
           | Some d \<Rightarrow>
             (case temporary_network E C D d (m\<lparr>dirs := insert d (dirs m)\<rparr>) of
                (m, Inl e) \<Rightarrow> ((remove_tree d m, []), Some (Inl e))
              | (m, Inr _) \<Rightarrow> drop_temp d (run_in D W a d m)))))"

section \<open>Facts\<close>

lemma for_each_start:
  "for_each (start_process W) ps children =
    (children @ map fst (takeWhile (\<lambda>p. spawns W (fst p)) ps),
     if \<forall>p \<in> set ps. spawns W (fst p) then Inr ()
     else Inl (StartFailed (fst (hd (dropWhile (\<lambda>p. spawns W (fst p)) ps)))))"
proof (induction ps arbitrary: children)
  case (Cons p ps)
  have "start_process W p children =
      (if spawns W (fst p) then (children @ [fst p], Inr ()) else (children, Inl (StartFailed (fst p))))"
    by (simp add: start_process_def case_prod_beta)
  then show ?case by (cases "spawns W (fst p)") (simp_all add: Cons.IH)
qed simp

lemma supervise_returns_iff:
  "supervise children shutdown rs = Some () \<longleftrightarrow>
    shutdown \<or> (\<exists>r \<in> set rs. ctrlc_pressed r \<or> exited_children r children \<noteq> [])"
  by (induction rs arbitrary: shutdown) (auto simp del: exited_children.simps)

lemma kill_children_self [simp]: "kill_children ps ps = []"
  by (simp add: kill_children_def)

end
