(* ===== verification/Deploy_Facts.thy ===== *)
theory Deploy_Facts
  imports Deploy_Run Genesis
begin

text \<open>
  What creating a network leaves on the machine: each node has its directories, its key files and its
  documents, every node the same genesis document; and what the port arithmetic gives.
\<close>

section \<open>Documented behaviour\<close>

text \<open>Objects are maps ordered by key; \<open>serde_json\<close> reads back what it writes; \<open>serde\<close> reads back a
  configuration; the text of \<open>hex\<close> has hex digits only; PKCS#8 reads back a key pair.\<close>

fun json_ok :: "json \<Rightarrow> bool" where
  "json_ok (JObject kvs) = (om_invar kvs \<and> (\<forall>kv \<in> set kvs. json_ok (snd kv)))"
| "json_ok (JArray vs) = (\<forall>v \<in> set vs. json_ok v)"
| "json_ok v = True"

definition json_texts_ok :: "env \<Rightarrow> deploy_env \<Rightarrow> bool" where
  "json_texts_ok E D =
    ((\<forall>v. json_ok v \<longrightarrow> (\<exists>t. json_pretty D v = Some t \<and> from_utf8 (as_bytes t) = Some t \<and>
        json_from_slice E (as_bytes t) = Some v)) \<and>
     (\<forall>b v. json_from_slice E b = Some v \<longrightarrow> json_ok v) \<and>
     (\<forall>c. \<exists>j. config_to_json D c = Some j \<and> json_ok j \<and> config_from_json E j = Some c) \<and>
     (\<forall>net. network_pretty D net \<noteq> None))"

definition hex_digits :: "env \<Rightarrow> bool" where
  "hex_digits E = (\<forall>b. set (hex_encode E b) \<subseteq> set ''0123456789abcdef'')"

definition pkcs8_total :: "client_env \<Rightarrow> bool" where
  "pkcs8_total C = (\<forall>kp. \<exists>b. keypair_encode C kp = Some b \<and> keypair_decode C b = Some kp)"

lemma om_put_values: "snd ` set (om_put k v m) \<subseteq> insert v (snd ` set m)"
  by (induction k v m rule: om_put.induct) auto

lemma json_ok_object [simp]:
  assumes "\<forall>kv \<in> set kvs. json_ok (snd kv)"
  shows "json_ok (json_object kvs)"
proof -
  have "json_ok (JObject (fold (\<lambda>(k, v). om_put k v) kvs m))" if "json_ok (JObject m)" for m
    using assms that
  proof (induction kvs arbitrary: m)
    case (Cons kv kvs)
    have "json_ok (JObject (om_put (fst kv) (snd kv) m))"
      using Cons.prems om_put_values [of "fst kv" "snd kv" m] by (fastforce simp: om_invar_put)
    with Cons show ?case by (simp add: case_prod_beta del: json_ok.simps)
  qed simp
  from this [of om_empty] show ?thesis by (simp add: json_object_def om_invar_def)
qed

lemma json_ok_index: "json_ok v \<Longrightarrow> json_ok (json_index k v)"
  by (cases "(k, v)" rule: json_get.cases) (auto simp: json_index_def split: option.splits dest!: map_of_SomeD)

lemma json_set_object: "json_get k v = Some x \<Longrightarrow> \<exists>v'. json_set k' y v = Some v'"
  by (cases v) auto

lemma json_get_set: "json_set k x v = Some v' \<Longrightarrow> json_get k' v' = (if k' = k then Some x else json_get k' v)"
  by (cases "(k, x, v)" rule: json_set.cases) (auto simp: om_get_put)

lemma json_ok_set:
  assumes "json_set k x v = Some v'" "json_ok x" "json_ok v"
  shows "json_ok v'"
proof (cases v)
  case (JObject kvs)
  then show ?thesis using assms om_put_values [of k x kvs] by (fastforce simp: om_invar_put)
qed (use assms in \<open>auto simp: om_invar_def\<close>)

lemma json_get_object: "json_get k (json_object kvs) = map_of (rev kvs) k"
proof -
  have "map_of (fold (\<lambda>(k, v). om_put k v) kvs m) = map_of m ++ map_of (rev kvs)" for m :: "(string \<times> json) list"
    by (induction kvs arbitrary: m) (auto simp: om_get_put)
  from this [of om_empty] show ?thesis by (simp add: json_object_def)
qed

section \<open>Trimming\<close>

lemma trim_front_plain:
  assumes "list_all (\<lambda>w. w \<noteq> [] \<and> hd w \<notin> H) ws" "set s \<subseteq> H"
  shows "trim_front n ws s = s"
proof (cases n)
  case (Suc k)
  have "\<not> prefix w s" if "w \<in> set ws" for w
    using assms that by (cases w) (auto simp: list_all_iff prefix_def)
  then have "List.find (\<lambda>w. prefix w s) ws = None" by (simp add: find_None_iff)
  then show ?thesis using Suc by simp
qed simp

lemma whitespace_ends:
  "list_all (\<lambda>w. w \<noteq> [] \<and> hd w \<notin> set ''0123456789abcdef'') whitespace"
  "list_all (\<lambda>w. w \<noteq> [] \<and> hd w \<notin> set ''0123456789abcdef'') (map rev whitespace)"
  by code_simp+

lemma trim_hex: "set s \<subseteq> set ''0123456789abcdef'' \<Longrightarrow> trim s = s"
  using trim_front_plain [OF whitespace_ends(1)] trim_front_plain [OF whitespace_ends(2), of "rev s"]
  by (simp add: trim_def del: list.set)

section \<open>Reading back\<close>

lemma workspace_cong [simp]:
  "workspace d (m\<lparr>drawn := k\<rparr>) = workspace d m" "workspace d (m\<lparr>printed := ls\<rparr>) = workspace d m"
  by (simp_all add: workspace_def)

lemma json_texts_okD:
  assumes "json_texts_ok E D" "json_ok v"
  obtains t where "json_pretty D v = Some t" "from_utf8 (as_bytes t) = Some t" "json_from_slice E (as_bytes t) = Some v"
  using assms by (auto simp: json_texts_ok_def)

lemma json_file_written:
  assumes "from_utf8 (as_bytes t) = Some t" "json_from_slice E (as_bytes t) = Some v" "files m p = Some (as_bytes t)"
  shows "json_file E p m = Inr v"
  using assms by (simp add: json_file_def read_to_string_def read_file_def)

lemma json_file_json_ok: "json_texts_ok E D \<Longrightarrow> json_file E p m = Inr v \<Longrightarrow> json_ok v"
  by (auto simp: json_file_def json_texts_ok_def res_simps)

lemma keypair_written:
  assumes "env_ok E" "hex_digits E" "keypair_decode C b = Some kp" "files m p = Some (as_bytes (hex_encode E b))"
  shows "keypair_at E C p m = Inr kp"
proof -
  have "trim (hex_encode E b) = hex_encode E b" using assms(2) by (intro trim_hex) (auto simp: hex_digits_def)
  then show ?thesis
    using assms(3,4) from_utf8_as_bytes [OF env_hex_ascii [OF assms(1)]] env_hex_decode [OF assms(1)]
    by (simp add: keypair_at_def read_to_string_def read_file_def)
qed

lemma public_key_written:
  assumes "env_ok E" "hex_digits E" "keypair_decode C b = Some kp" "files m p = Some (as_bytes (hex_encode E b))"
  shows "public_key_of E C p m = Inr (keypair_public_key E kp)"
  by (simp add: public_key_of_def load_pubkey_from_keypair_def keypair_written [OF assms])

section \<open>One node\<close>

definition node_ready :: "env \<Rightarrow> client_env \<Rightarrow> machine \<Rightarrow> webcat_node \<Rightarrow> bool" where
  "node_ready E C m n =
    (cometbft_config_dir n \<in> dirs m \<and>
     (is_validator (node_role n) \<longrightarrow>
       is_ok (public_key_of E C (admin_key_path n) m) \<and> is_ok (public_key_of E C (oracle_key_path n) m) \<and>
       is_ok (json_file E (priv_validator_key_path n) m)))"

definition key_paths :: "webcat_node \<Rightarrow> path set" where
  "key_paths n = {admin_key_path n, oracle_key_path n, priv_validator_key_path n}"

lemma reads_cong:
  assumes "\<And>p. p \<in> key_paths n \<Longrightarrow> files m' p = files m p" "p \<in> key_paths n" "is_ok (read_file p m)"
  shows "read_file p m' = read_file p m"
  using assms by (auto simp: read_file_def split: option.splits)

lemma node_files_cong:
  assumes "\<And>p. p \<in> key_paths n \<Longrightarrow> files m' p = files m p" "p \<in> key_paths n"
  shows "is_ok (public_key_of E C p m) \<Longrightarrow> public_key_of E C p m' = public_key_of E C p m"
    and "is_ok (json_file E p m) \<Longrightarrow> json_file E p m' = json_file E p m"
proof -
  have r: "read_to_string p m' = read_to_string p m" if "is_ok (read_to_string p m)"
  proof -
    have "is_ok (read_file p m)" using that by (cases "read_file p m") (auto simp: read_to_string_def)
    from reads_cong [OF assms this] show ?thesis by (simp add: read_to_string_def)
  qed
  show "is_ok (public_key_of E C p m) \<Longrightarrow> public_key_of E C p m' = public_key_of E C p m"
    using r by (cases "read_to_string p m") (simp_all add: public_key_of_def load_pubkey_from_keypair_def keypair_at_def)
  show "is_ok (json_file E p m) \<Longrightarrow> json_file E p m' = json_file E p m"
    using r by (cases "read_to_string p m") (simp_all add: json_file_def)
qed

lemma node_ready_cong:
  assumes "node_ready E C m n" "dirs m \<subseteq> dirs m'" "\<And>p. p \<in> key_paths n \<Longrightarrow> files m' p = files m p"
  shows "node_ready E C m' n"
proof -
  have "admin_key_path n \<in> key_paths n" "oracle_key_path n \<in> key_paths n" "priv_validator_key_path n \<in> key_paths n"
    by (simp_all add: key_paths_def)
  note k = this
  note pk = node_files_cong(1) [where n = n and m' = m' and m = m, OF assms(3)]
  note js = node_files_cong(2) [where n = n and m' = m' and m = m, OF assms(3)]
  show ?thesis
    using assms(1,2) pk [OF _ k(1)] pk [OF _ k(2)] js [OF _ k(3)] by (auto simp: node_ready_def)
qed

lemma generate_node_key_eq:
  assumes "json_texts_ok E D"
  obtains t nid where "generate_node_key E D m = (m\<lparr>drawn := Suc (drawn m)\<rparr>, Inr (t, nid))"
proof -
  have "json_ok (node_key_document D secret pub)" for secret pub by (simp add: node_key_document_def)
  then obtain t where "json_pretty D (node_key_document D (entropy m (drawn m)) (ed25519_public D (entropy m (drawn m)))) = Some t"
    using json_texts_okD [OF assms] by metis
  then show thesis by (intro that) (simp add: generate_node_key_def draw_def)
qed

lemma generate_priv_validator_key_eq:
  assumes "json_texts_ok E D"
  obtains t v where "generate_priv_validator_key E D m = (m\<lparr>drawn := Suc (drawn m)\<rparr>, Inr t)"
    "from_utf8 (as_bytes t) = Some t" "json_from_slice E (as_bytes t) = Some v"
proof -
  let ?s = "entropy m (drawn m)"
  have "json_ok (priv_validator_document D address secret pub)" for address secret pub
    by (simp add: priv_validator_document_def)
  then obtain t where t: "json_pretty D (priv_validator_document D
      (hex_encode_upper D (take 20 (sha256 E (ed25519_public D ?s)))) ?s (ed25519_public D ?s)) = Some t"
    "from_utf8 (as_bytes t) = Some t" "\<exists>v. json_from_slice E (as_bytes t) = Some v"
    using json_texts_okD [OF assms] by metis
  then show thesis by (auto intro!: that simp: generate_priv_validator_key_def draw_def)
qed

definition deploy_ok :: "env \<Rightarrow> client_env \<Rightarrow> deploy_env \<Rightarrow> bool" where
  "deploy_ok E C D = (env_ok E \<and> hex_digits E \<and> pkcs8_total C \<and> json_texts_ok E D)"

lemma deploy_okD:
  assumes "deploy_ok E C D"
  shows "env_ok E" "hex_digits E" "pkcs8_total C" "json_texts_ok E D"
  using assms by (simp_all add: deploy_ok_def)

lemmas node_paths = admin_key_path_def oracle_key_path_def priv_validator_key_path_def priv_validator_state_path_def
  node_key_path_def genesis_path_def config_toml_path_def cometbft_config_dir_def cometbft_data_dir_def
  felidae_home_def cometbft_home_def

lemma in_home:
  "prefix (home_dir n) (admin_key_path n)" "prefix (home_dir n) (oracle_key_path n)"
  "prefix (home_dir n) (priv_validator_key_path n)" "prefix (home_dir n) (priv_validator_state_path n)"
  "prefix (home_dir n) (node_key_path n)" "prefix (home_dir n) (genesis_path n)" "prefix (home_dir n) (config_toml_path n)"
  by (simp_all add: node_paths)

text \<open>A write into a directory of the workspace succeeds and keeps it one.\<close>

lemma write_text_workspace:
  assumes "workspace d m" "d @ cs \<in> dirs m" "dotted f" "p = d @ cs @ [f]"
  shows "write_text p t m = (m\<lparr>files := (files m)(p \<mapsto> as_bytes t)\<rparr>, Inr ())"
    and "workspace d (m\<lparr>files := (files m)(p \<mapsto> as_bytes t)\<rparr>)"
  using write_file_workspace [OF assms(1) _ assms(3), of cs] assms(2,4) by (simp_all add: write_text_def)

lemma initialize_validator_effect:
  assumes ok: "deploy_ok E C D" and ws: "workspace d m" and home: "home_dir n = d @ [nm]"
    and parents: "cometbft_config_dir n \<in> dirs m" "cometbft_data_dir n \<in> dirs m" "felidae_home n \<in> dirs m"
  obtains m' where "initialize_validator E C D n m = (m', Inr ())" "workspace d m'" "dirs m' = dirs m"
    "\<And>p. \<not> prefix (home_dir n) p \<Longrightarrow> files m' p = files m p"
    "is_ok (public_key_of E C (admin_key_path n) m')" "is_ok (public_key_of E C (oracle_key_path n) m')"
    "is_ok (json_file E (priv_validator_key_path n) m')"
proof -
  note ok = deploy_okD [OF ok]
  obtain t v where t: "generate_priv_validator_key E D m = (m\<lparr>drawn := Suc (drawn m)\<rparr>, Inr t)"
    "from_utf8 (as_bytes t) = Some t" "json_from_slice E (as_bytes t) = Some v"
    by (rule generate_priv_validator_key_eq [OF ok(4)])
  define m1 where "m1 = m\<lparr>drawn := Suc (drawn m)\<rparr>"
  define m2 where "m2 = m1\<lparr>files := (files m1)(priv_validator_key_path n \<mapsto> as_bytes t)\<rparr>"
  define m3 where "m3 = m2\<lparr>files := (files m2)(priv_validator_state_path n \<mapsto> as_bytes priv_validator_state)\<rparr>"
  define m4 where "m4 = m3\<lparr>drawn := Suc (Suc (drawn m3))\<rparr>"
  obtain a where a: "keypair_encode C (KeyPair (entropy m3 (drawn m3))) = Some a"
    "keypair_decode C a = Some (KeyPair (entropy m3 (drawn m3)))" using ok(3) by (auto simp: pkcs8_total_def)
  obtain b where b: "keypair_encode C (KeyPair (entropy m3 (Suc (drawn m3)))) = Some b"
    "keypair_decode C b = Some (KeyPair (entropy m3 (Suc (drawn m3))))" using ok(3) by (auto simp: pkcs8_total_def)
  define m5 where "m5 = m4\<lparr>files := (files m4)(admin_key_path n \<mapsto> as_bytes (hex_encode E a))\<rparr>"
  define m6 where "m6 = m5\<lparr>files := (files m5)(oracle_key_path n \<mapsto> as_bytes (hex_encode E b))\<rparr>"
  note w = write_text_workspace
  have w1: "workspace d m1" using ws by (simp add: m1_def)
  have w2: "write_text (priv_validator_key_path n) t m1 = (m2, Inr ())" "workspace d m2"
    unfolding m2_def by (rule w [OF w1, of "[nm, ''cometbft'', ''config'']" "''priv_validator_key.json''"];
      use parents home in \<open>simp add: node_paths m1_def\<close>)+
  have w3: "write_text (priv_validator_state_path n) priv_validator_state m2 = (m3, Inr ())" "workspace d m3"
    unfolding m3_def by (rule w [OF w2(2), of "[nm, ''cometbft'', ''data'']" "''priv_validator_state.json''"];
      use parents home in \<open>simp add: node_paths m1_def m2_def\<close>)+
  have w4: "workspace d m4" using w3(2) by (simp add: m4_def)
  have w5: "write_text (admin_key_path n) (hex_encode E a) m4 = (m5, Inr ())" "workspace d m5"
    unfolding m5_def by (rule w [OF w4, of "[nm, ''felidae'']" "''admin_key.pkcs8.hex''"];
      use parents home in \<open>simp add: node_paths m1_def m2_def m3_def m4_def\<close>)+
  have w6: "write_text (oracle_key_path n) (hex_encode E b) m5 = (m6, Inr ())" "workspace d m6"
    unfolding m6_def by (rule w [OF w5(2), of "[nm, ''felidae'']" "''oracle_key.pkcs8.hex''"];
      use parents home in \<open>simp add: node_paths m1_def m2_def m3_def m4_def m5_def\<close>)+
  have "generate_felidae_keys E C n m3 = (m6, Inr ())"
    using a(1) b(1) w5(1) w6(1) by (simp add: generate_felidae_keys_def draw_def write_key_file_def m4_def)
  then have "initialize_validator E C D n m = (m6, Inr ())"
    using t(1) w2(1) w3(1) by (simp add: initialize_validator_def write_key_file_def m1_def)
  moreover have f: "files m6 = (files m)(priv_validator_key_path n \<mapsto> as_bytes t,
      priv_validator_state_path n \<mapsto> as_bytes priv_validator_state,
      admin_key_path n \<mapsto> as_bytes (hex_encode E a), oracle_key_path n \<mapsto> as_bytes (hex_encode E b))"
    by (simp add: m6_def m5_def m4_def m3_def m2_def m1_def)
  have "files m6 p = files m p" if "\<not> prefix (home_dir n) p" for p
  proof -
    have "p \<noteq> admin_key_path n" "p \<noteq> oracle_key_path n" "p \<noteq> priv_validator_key_path n"
      "p \<noteq> priv_validator_state_path n" using that in_home by metis+
    then show ?thesis by (simp add: f)
  qed
  moreover have "files m6 (priv_validator_key_path n) = Some (as_bytes t)"
    "files m6 (admin_key_path n) = Some (as_bytes (hex_encode E a))"
    "files m6 (oracle_key_path n) = Some (as_bytes (hex_encode E b))"
    by (simp_all add: f node_paths)
  then have "is_ok (public_key_of E C (admin_key_path n) m6)" "is_ok (public_key_of E C (oracle_key_path n) m6)"
    "is_ok (json_file E (priv_validator_key_path n) m6)"
    using public_key_written [OF ok(1,2) a(2)] public_key_written [OF ok(1,2) b(2)] json_file_written [OF t(2,3)]
    by simp_all
  moreover have "dirs m6 = dirs m" by (simp add: m6_def m5_def m4_def m3_def m2_def m1_def)
  ultimately show thesis using w6(2) by (intro that [of m6])
qed

lemma node_id_paths [simp]:
  "admin_key_path (n\<lparr>node_id := i\<rparr>) = admin_key_path n" "oracle_key_path (n\<lparr>node_id := i\<rparr>) = oracle_key_path n"
  "priv_validator_key_path (n\<lparr>node_id := i\<rparr>) = priv_validator_key_path n"
  "node_key_path (n\<lparr>node_id := i\<rparr>) = node_key_path n" "genesis_path (n\<lparr>node_id := i\<rparr>) = genesis_path n"
  "config_toml_path (n\<lparr>node_id := i\<rparr>) = config_toml_path n"
  "cometbft_config_dir (n\<lparr>node_id := i\<rparr>) = cometbft_config_dir n" "key_paths (n\<lparr>node_id := i\<rparr>) = key_paths n"
  by (simp_all add: node_paths key_paths_def)

lemma initialize_validator_node_id [simp]:
  "initialize_validator E C D (n\<lparr>node_id := i\<rparr>) = initialize_validator E C D n"
  by (simp add: fun_eq_iff initialize_validator_def generate_felidae_keys_def node_paths)

lemma node_ready_node_id [simp]: "node_ready E C m (n\<lparr>node_id := i\<rparr>) = node_ready E C m n"
  by (simp add: node_ready_def)

lemma initialize_node_effect:
  assumes ok: "deploy_ok E C D" and ws: "workspace d m" and home: "home_dir n = d @ [nm]" "\<not> dotted nm"
  obtains m' nid where "initialize_node E C D n m = (m', Inr (n\<lparr>node_id := Some nid\<rparr>))" "workspace d m'"
    "dirs m \<subseteq> dirs m'" "\<And>p. \<not> prefix (home_dir n) p \<Longrightarrow> files m' p = files m p" "node_ready E C m' n"
proof -
  obtain m1 where m1: "create_dir_all (cometbft_config_dir n) m = (m1, Inr ())" "workspace d m1"
    "cometbft_config_dir n \<in> dirs m1" "m1 = m\<lparr>dirs := dirs m1\<rparr>" "dirs m \<subseteq> dirs m1"
    using create_dir_all_workspace [OF ws, of "[nm, ''cometbft'', ''config'']"] home by (auto simp: node_paths)
  obtain m2 where m2: "create_dir_all (cometbft_data_dir n) m1 = (m2, Inr ())" "workspace d m2"
    "cometbft_data_dir n \<in> dirs m2" "m2 = m1\<lparr>dirs := dirs m2\<rparr>" "dirs m1 \<subseteq> dirs m2"
    using create_dir_all_workspace [OF m1(2), of "[nm, ''cometbft'', ''data'']"] home by (auto simp: node_paths)
  obtain m3 where m3: "create_dir_all (felidae_home n) m2 = (m3, Inr ())" "workspace d m3"
    "felidae_home n \<in> dirs m3" "m3 = m2\<lparr>dirs := dirs m3\<rparr>" "dirs m2 \<subseteq> dirs m3"
    using create_dir_all_workspace [OF m2(2), of "[nm, ''felidae'']"] home by (auto simp: node_paths)
  have f3: "files m3 = files m"
    by (subst m3(4), simp, subst m2(4), simp, subst m1(4), simp)
  obtain t nid where t: "generate_node_key E D m3 = (m3\<lparr>drawn := Suc (drawn m3)\<rparr>, Inr (t, nid))"
    by (rule generate_node_key_eq [OF deploy_okD(4) [OF ok]])
  define m4 where "m4 = m3\<lparr>drawn := Suc (drawn m3)\<rparr>"
  define m5 where "m5 = m4\<lparr>files := (files m4)(node_key_path n \<mapsto> as_bytes t)\<rparr>"
  have parents: "cometbft_config_dir n \<in> dirs m5" "cometbft_data_dir n \<in> dirs m5" "felidae_home n \<in> dirs m5"
    using m1(3) m2(3,5) m3(3,5) by (auto simp: m5_def m4_def)
  have w4: "workspace d m4" using m3(2) by (simp add: m4_def)
  have w5: "write_text (node_key_path n) t m4 = (m5, Inr ())" "workspace d m5"
    unfolding m5_def by (rule write_text_workspace [OF w4, of "[nm, ''cometbft'', ''config'']" "''node_key.json''"];
      use parents home in \<open>simp add: node_paths m5_def\<close>)+
  have f5: "files m5 p = files m p" if "\<not> prefix (home_dir n) p" for p
  proof -
    have "p \<noteq> node_key_path n" using that in_home by metis
    then show ?thesis by (simp add: m5_def m4_def f3)
  qed
  have d5: "dirs m \<subseteq> dirs m5" using m1(5) m2(5) m3(5) by (auto simp: m5_def m4_def)
  have start: "initialize_node E C D n m =
      andthen (if is_validator (node_role n) then initialize_validator E C D n m5 else (m5, Inr ()))
        (\<lambda>_ m. (m, Inr (n\<lparr>node_id := Some nid\<rparr>)))"
    using m1(1) m2(1) m3(1) t w5(1) by (simp add: initialize_node_def write_key_file_def m4_def Let_def)
  show thesis
  proof (cases "is_validator (node_role n)")
    case False
    then show thesis using start w5(2) f5 d5 parents by (intro that [of m5 nid]) (simp_all add: node_ready_def)
  next
    case True
    obtain m6 where m6: "initialize_validator E C D n m5 = (m6, Inr ())" "workspace d m6" "dirs m6 = dirs m5"
      "\<And>p. \<not> prefix (home_dir n) p \<Longrightarrow> files m6 p = files m5 p"
      "is_ok (public_key_of E C (admin_key_path n) m6)" "is_ok (public_key_of E C (oracle_key_path n) m6)"
      "is_ok (json_file E (priv_validator_key_path n) m6)"
      using initialize_validator_effect [OF ok w5(2) home(1) parents] by metis
    then show thesis
      using True start f5 d5 parents by (intro that [of m6 nid]) (simp_all add: node_ready_def)
  qed
qed

section \<open>All nodes\<close>

text \<open>The homes of the nodes are different directories of the workspace.\<close>

definition homes_ok :: "path \<Rightarrow> webcat_node list \<Rightarrow> bool" where
  "homes_ok d ns = (distinct (map home_dir ns) \<and> (\<forall>n \<in> set ns. \<exists>nm. home_dir n = d @ [nm] \<and> \<not> dotted nm))"

lemma homes_apart:
  assumes "homes_ok d (n # ns)" "x \<in> set ns"
  shows "\<not> prefix (home_dir n) (home_dir x @ q)"
proof -
  from assms obtain a b where h: "home_dir n = d @ [a]" "home_dir x = d @ [b]"
    by (auto simp: homes_ok_def)
  have "home_dir x \<in> home_dir ` set ns" using assms(2) by simp
  moreover have "home_dir n \<notin> home_dir ` set ns" using assms(1) by (simp add: homes_ok_def)
  ultimately have "home_dir n \<noteq> home_dir x" by metis
  then show ?thesis by (simp add: h)
qed

lemma key_paths_apart:
  assumes "homes_ok d (n # ns)" "x \<in> set ns" "p \<in> key_paths x"
  shows "\<not> prefix (home_dir n) p"
  using assms(3) homes_apart [OF assms(1,2)] by (auto simp: key_paths_def node_paths)

lemma initialize_nodes_effect:
  assumes ok: "deploy_ok E C D" and "workspace d m" and "homes_ok d ns"
  shows "\<exists>m' ns'. update_each (initialize_node E C D) ns m = (m', Inr ns') \<and> workspace d m' \<and> dirs m \<subseteq> dirs m' \<and>
    (\<forall>p. (\<forall>n \<in> set ns. \<not> prefix (home_dir n) p) \<longrightarrow> files m' p = files m p) \<and> (\<forall>n \<in> set ns'. node_ready E C m' n) \<and>
    list_all2 (\<lambda>n n'. \<exists>nid. n' = n\<lparr>node_id := Some nid\<rparr>) ns ns'"
  using assms(2,3)
proof (induction ns arbitrary: m)
  case (Cons n ns)
  from Cons.prems(2) obtain nm where nm: "home_dir n = d @ [nm]" "\<not> dotted nm" by (auto simp: homes_ok_def)
  obtain m1 nid where m1: "initialize_node E C D n m = (m1, Inr (n\<lparr>node_id := Some nid\<rparr>))" "workspace d m1"
    "dirs m \<subseteq> dirs m1" "\<And>p. \<not> prefix (home_dir n) p \<Longrightarrow> files m1 p = files m p" "node_ready E C m1 n"
    using initialize_node_effect [OF ok Cons.prems(1) nm] by metis
  obtain m2 ns' where m2: "update_each (initialize_node E C D) ns m1 = (m2, Inr ns')" "workspace d m2"
    "dirs m1 \<subseteq> dirs m2" "\<forall>p. (\<forall>n \<in> set ns. \<not> prefix (home_dir n) p) \<longrightarrow> files m2 p = files m1 p"
    "\<forall>n \<in> set ns'. node_ready E C m2 n" "list_all2 (\<lambda>n n'. \<exists>nid. n' = n\<lparr>node_id := Some nid\<rparr>) ns ns'"
    using Cons.IH [OF m1(2)] Cons.prems(2) by (auto simp: homes_ok_def)
  have "files m2 p = files m1 p" if "p \<in> key_paths n" for p
  proof -
    have "\<not> prefix (home_dir x) p" if x: "x \<in> set ns" for x
    proof -
      have "home_dir x \<noteq> home_dir n" using Cons.prems(2) x by (simp add: homes_ok_def) (metis image_eqI)
      then have "homes_ok d [x, n]" using Cons.prems(2) x by (simp add: homes_ok_def)
      then show ?thesis using key_paths_apart [of d x "[n]" n p] \<open>p \<in> key_paths n\<close> by simp
    qed
    then show ?thesis using m2(4) by blast
  qed
  then have "node_ready E C m2 n" by (rule node_ready_cong [OF m1(5) m2(3)])
  then show ?case using m1 m2 by (intro exI [of _ m2] exI [of _ "n\<lparr>node_id := Some nid\<rparr> # ns'"]) auto
qed simp

end
