(* ===== verification/Deploy_Create.thy ===== *)
theory Deploy_Create
  imports Deploy_Facts
begin

text \<open>
  Creating a whole network: in a workspace the command succeeds, every node has its keys, and all nodes
  have one genesis document, whose application state is the configuration made of those keys.
\<close>

section \<open>One file per node\<close>

lemma write_text_in:
  assumes "workspace d m" "d @ cs = [] \<or> d @ cs \<in> dirs m" "dotted f" "p = d @ cs @ [f]"
  shows "io DeployIo (write_text p t m) = (m\<lparr>files := (files m)(p \<mapsto> as_bytes t)\<rparr>, Inr ())"
    and "workspace d (m\<lparr>files := (files m)(p \<mapsto> as_bytes t)\<rparr>)"
  using write_file_workspace [OF assms(1-3)] assms(4) by (simp_all add: write_text_def)

definition in_place :: "path \<Rightarrow> machine \<Rightarrow> path \<Rightarrow> bool" where
  "in_place d m p = (\<exists>cs f. p = d @ cs @ [f] \<and> dotted f \<and> (d @ cs = [] \<or> d @ cs \<in> dirs m))"

text \<open>A loop that writes one file per element, at different places; what it writes may depend on what
  was there and on files the loop does not write.\<close>

lemma for_each_writes:
  assumes "workspace d m" "distinct (map pth xs)" "\<forall>x \<in> set xs. in_place d m (pth x)"
    and "\<And>x m'. \<lbrakk>x \<in> set xs; files m' (pth x) = files m (pth x); \<forall>q. q \<notin> pth ` set xs \<longrightarrow> files m' q = files m q\<rbrakk>
      \<Longrightarrow> step x m' = io DeployIo (write_text (pth x) (content x) m')"
  shows "\<exists>m'. for_each step xs m = (m', Inr ()) \<and> workspace d m' \<and> dirs m' = dirs m \<and>
    (\<forall>x \<in> set xs. files m' (pth x) = Some (as_bytes (content x))) \<and>
    (\<forall>q. q \<notin> pth ` set xs \<longrightarrow> files m' q = files m q)"
  using assms
proof (induction xs arbitrary: m)
  case (Cons x xs)
  let ?m = "m\<lparr>files := (files m)(pth x \<mapsto> as_bytes (content x))\<rparr>"
  from Cons.prems(3) obtain cs f where p: "pth x = d @ cs @ [f]" "dotted f" "d @ cs = [] \<or> d @ cs \<in> dirs m"
    by (auto simp: in_place_def)
  have one: "step x m = (?m, Inr ())" "workspace d ?m"
    using Cons.prems(4) [of x m] write_text_in [OF Cons.prems(1) p(3,2,1)] by simp_all
  have new: "pth x \<notin> pth ` set xs" using Cons.prems(2) by simp
  have places: "\<forall>y \<in> set xs. in_place d ?m (pth y)" using Cons.prems(3) by (auto simp: in_place_def)
  have "step y m' = io DeployIo (write_text (pth y) (content y) m')"
    if y: "y \<in> set xs" "files m' (pth y) = files ?m (pth y)" "\<forall>q. q \<notin> pth ` set xs \<longrightarrow> files m' q = files ?m q" for y m'
  proof -
    have "pth y \<noteq> pth x" using y(1) new by (metis image_eqI)
    then show ?thesis using Cons.prems(4) [of y m'] y by simp
  qed
  then obtain m' where m': "for_each step xs ?m = (m', Inr ())" "workspace d m'" "dirs m' = dirs ?m"
    "\<forall>y \<in> set xs. files m' (pth y) = Some (as_bytes (content y))"
    "\<forall>q. q \<notin> pth ` set xs \<longrightarrow> files m' q = files ?m q"
    using Cons.IH [OF one(2) _ places] Cons.prems(2) by auto
  then show ?case using one(1) new by (intro exI [of _ m']) simp
qed simp

section \<open>The names of the nodes\<close>

lemma radix_display_digits: "2 \<le> b \<Longrightarrow> b \<le> 16 \<Longrightarrow> set (radix_display b n) \<subseteq> digit ` {..<16}"
proof (induction b n rule: radix_display.induct)
  case (1 b n)
  then have "n mod b < 16" by (metis mod_less_divisor not_le le_trans less_le_trans zero_less_numeral)
  with 1 show ?case by (subst radix_display.simps) auto
qed

lemma nat_display_not_dotted [simp]: "\<not> dotted (nat_display n)"
proof
  assume "dotted (nat_display n)"
  then obtain k where k: "k < 16" "digit k = CHR ''.''" using radix_display_digits [of 10 n] by auto
  then have "(of_char (CHR ''.'') :: nat) = (if k < 10 then 48 + k else 87 + k)" using of_char_digit [OF k(1)] by simp
  then show False by (simp split: if_splits)
qed

lemma homes_make_nodes:
  assumes "CHR ''.'' \<notin> set label"
  shows "homes_ok (directory c) (make_nodes c label role start n)"
    and "home_dir ` set (make_nodes c label role start n) = (\<lambda>i. directory c @ [label @ nat_display i]) ` {..<n}"
proof -
  have home: "map home_dir (make_nodes c label role start n) = map (\<lambda>i. directory c @ [label @ nat_display i]) [0..<n]"
    by (simp add: make_nodes_def node_new_def Let_def)
  have "distinct (map home_dir (make_nodes c label role start n))"
    unfolding home by (simp add: distinct_map inj_on_def radix_display_inj)
  moreover have "\<forall>x \<in> set (map home_dir (make_nodes c label role start n)). \<exists>nm. x = directory c @ [nm] \<and> \<not> dotted nm"
    unfolding home using assms by auto
  ultimately show "homes_ok (directory c) (make_nodes c label role start n)" by (simp add: homes_ok_def)
  show "home_dir ` set (make_nodes c label role start n) = (\<lambda>i. directory c @ [label @ nat_display i]) ` {..<n}"
    using arg_cong [OF home, of set] by (simp add: atLeast0LessThan)
qed

lemma homes_network_new: "homes_ok (directory c) (nodes (network_new c))"
proof -
  let ?v = "make_nodes c ''validator-'' ValidatorRole 0 (num_validators c)"
    and ?s = "make_nodes c ''sentry-'' SentryRole (num_validators c) (num_validators c)"
  have "home_dir ` set ?v \<inter> home_dir ` set ?s = {}" by (auto simp: homes_make_nodes(2))
  moreover have "homes_ok (directory c) ?v" "homes_ok (directory c) ?s" by (rule homes_make_nodes; simp)+
  ultimately show ?thesis by (auto simp: homes_ok_def network_new_def)
qed

lemma nodes_updated:
  assumes "list_all2 (\<lambda>n n'. \<exists>nid. n' = n\<lparr>node_id := Some nid\<rparr>) ns ns'"
  shows "map home_dir ns' = map home_dir ns" "map node_role ns' = map node_role ns"
    "map node_ports ns' = map node_ports ns" "homes_ok d ns' = homes_ok d ns"
proof -
  show h: "map home_dir ns' = map home_dir ns" "map node_role ns' = map node_role ns" "map node_ports ns' = map node_ports ns"
    using assms by (induction rule: list_all2_induct) auto
  have "homes_ok d ns = (distinct (map home_dir ns) \<and> (\<forall>h \<in> set (map home_dir ns). \<exists>nm. h = d @ [nm] \<and> \<not> dotted nm))" for ns
    by (simp add: homes_ok_def)
  then show "homes_ok d ns' = homes_ok d ns" by (simp only: h)
qed

section \<open>The genesis document\<close>

lemma dot_in_names: "dotted ''genesis.json''" "dotted ''config.toml''" "dotted ''network.json''" "dotted ''process-compose.yaml''"
  by simp_all

lemma genesis_paths:
  assumes "homes_ok d ns"
  shows "distinct (map genesis_path ns)" "distinct (map config_toml_path ns)"
    "\<And>n. n \<in> set ns \<Longrightarrow> cometbft_config_dir n \<in> dirs m \<Longrightarrow> in_place d m (genesis_path n) \<and> in_place d m (config_toml_path n)"
    "\<And>n. n \<in> set ns \<Longrightarrow> genesis_path n \<noteq> d @ [f] \<and> config_toml_path n \<noteq> d @ [f]"
proof -
  have h: "\<exists>nm. home_dir n = d @ [nm]" if "n \<in> set ns" for n using assms that by (auto simp: homes_ok_def)
  have "inj_on home_dir (set ns)" "distinct ns" using assms by (simp_all add: homes_ok_def distinct_map)
  then show "distinct (map genesis_path ns)" "distinct (map config_toml_path ns)"
    by (auto simp: distinct_map inj_on_def node_paths)
  show "in_place d m (genesis_path n) \<and> in_place d m (config_toml_path n)"
    if n: "n \<in> set ns" "cometbft_config_dir n \<in> dirs m" for n
  proof -
    from h [OF n(1)] obtain nm where nm: "home_dir n = d @ [nm]" by blast
    then have "genesis_path n = d @ [nm, ''cometbft'', ''config''] @ [''genesis.json'']"
      "config_toml_path n = d @ [nm, ''cometbft'', ''config''] @ [''config.toml'']"
      "d @ [nm, ''cometbft'', ''config''] \<in> dirs m" using n(2) by (simp_all add: node_paths)
    then show ?thesis unfolding in_place_def by (metis (no_types, lifting) dot_in_names)
  qed
  show "genesis_path n \<noteq> d @ [f] \<and> config_toml_path n \<noteq> d @ [f]" if "n \<in> set ns" for n
    using h [OF that] by (auto simp: node_paths)
qed

lemma key_paths_other:
  assumes "homes_ok d ns" "x \<in> set ns" "n \<in> set ns" "p \<in> key_paths n"
  shows "p \<noteq> genesis_path x" "p \<noteq> config_toml_path x" "p \<noteq> d @ [f]"
proof -
  obtain a where "home_dir x = d @ [a]" using assms(1,2) by (auto simp: homes_ok_def)
  moreover obtain b where "home_dir n = d @ [b]" using assms(1,3) by (auto simp: homes_ok_def)
  ultimately show "p \<noteq> genesis_path x" "p \<noteq> config_toml_path x" "p \<noteq> d @ [f]"
    using assms(4) by (auto simp: key_paths_def node_paths)
qed

lemma json_ok_consensus_params [simp]: "json_ok consensus_params"
  by (simp add: consensus_params_def)

lemma generate_genesis_ok:
  assumes "json_texts_ok E D" "\<forall>n \<in> set (nodes net). node_ready E C m n"
  obtains t entries where "generate_genesis E D net m = Inr t" "from_utf8 (as_bytes t) = Some t"
    "json_from_slice E (as_bytes t) = Some (genesis_document (genesis_time D) (nc_chain_id (net_config net)) entries)"
    "length entries = length (filter (\<lambda>n. is_validator (node_role n)) (nodes net))"
    "\<forall>e \<in> set entries. json_get ''power'' e = Some (JString ''10'')"
    "json_ok (genesis_document (genesis_time D) (nc_chain_id (net_config net)) entries)"
proof -
  let ?vs = "enumerate 0 (filter (\<lambda>n. is_validator (node_role n)) (nodes net))"
  let ?key = "\<lambda>n. projr (json_file E (priv_validator_key_path n) m)"
  let ?entry = "\<lambda>(i, n). json_object [(''address'', json_index ''address'' (?key n)),
    (''pub_key'', json_index ''pub_key'' (?key n)), (''power'', JString ''10''), (''name'', JString (''validator-'' @ nat_display i))]"
  have key: "json_file E (priv_validator_key_path n) m = Inr (?key n)" if "(i, n) \<in> set ?vs" for i n
  proof -
    have "n \<in> set (nodes net)" "is_validator (node_role n)" using set_zip_rightD [OF that [unfolded enumerate_eq_zip]] by auto
    then have "is_ok (json_file E (priv_validator_key_path n) m)" using assms(2) by (auto simp: node_ready_def)
    then show ?thesis by (cases "json_file E (priv_validator_key_path n) m") auto
  qed
  have "ecollect (map (validator_entry E m) ?vs) = Inr (map ?entry ?vs)"
  proof (rule ecollect_map_cong_Inr)
    fix x assume x: "x \<in> set ?vs"
    obtain i n where xi: "x = (i, n)" by (cases x)
    with key [of i n] x obtain v where "json_file E (priv_validator_key_path n) m = Inr v" by metis
    then show "validator_entry E m x = Inr (?entry x)" by (simp add: xi validator_entry_def)
  qed
  moreover have ok: "json_ok (genesis_document t c (map ?entry ?vs))" for t c
  proof -
    have "json_ok (?entry x)" if x: "x \<in> set ?vs" for x
    proof -
      obtain i n where "x = (i, n)" by (cases x)
      with json_ok_index [OF json_file_json_ok [OF assms(1) key [of i n]]] x show ?thesis by simp
    qed
    then have "json_ok (JArray (map ?entry ?vs))" by auto
    then show ?thesis unfolding genesis_document_def by (intro json_ok_object) (simp del: json_ok.simps(2))
  qed
  moreover obtain t where "json_pretty D (genesis_document (genesis_time D) (nc_chain_id (net_config net)) (map ?entry ?vs)) = Some t"
    "from_utf8 (as_bytes t) = Some t"
    "json_from_slice E (as_bytes t) = Some (genesis_document (genesis_time D) (nc_chain_id (net_config net)) (map ?entry ?vs))"
    by (rule json_texts_okD [OF assms(1) ok])
  ultimately show thesis
    by (intro that [of t "map ?entry ?vs"]) (auto simp: generate_genesis_def json_get_object)
qed

section \<open>Initialising the network\<close>

definition genesis_everywhere :: "network \<Rightarrow> string \<Rightarrow> machine \<Rightarrow> bool" where
  "genesis_everywhere net t m = (\<forall>n \<in> set (nodes net). files m (genesis_path n) = Some (as_bytes t))"

lemma copy_genesis:
  assumes "workspace d m" "homes_ok d ns" "\<forall>n \<in> set ns. node_ready E C m n"
    and "files m (d @ [''genesis.json'']) = Some (as_bytes t)"
  shows "\<exists>m'. for_each (\<lambda>n m. io DeployIo (copy_file (d @ [''genesis.json'']) (genesis_path n) m)) ns m = (m', Inr ()) \<and>
    workspace d m' \<and> dirs m' = dirs m \<and> (\<forall>n \<in> set ns. files m' (genesis_path n) = Some (as_bytes t)) \<and>
    (\<forall>q. q \<notin> genesis_path ` set ns \<longrightarrow> files m' q = files m q)"
proof (rule for_each_writes [OF assms(1) genesis_paths(1) [OF assms(2)]])
  show "\<forall>n \<in> set ns. in_place d m (genesis_path n)"
    using genesis_paths(3) [OF assms(2), of _ m] assms(3) by (auto simp: node_ready_def)
  fix n and m' :: machine
  assume "\<forall>q. q \<notin> genesis_path ` set ns \<longrightarrow> files m' q = files m q"
  moreover have "d @ [''genesis.json''] \<notin> genesis_path ` set ns"
    using genesis_paths(4) [OF assms(2)] by (metis (no_types, lifting) imageE)
  ultimately have "files m' (d @ [''genesis.json'']) = Some (as_bytes t)" using assms(4) by metis
  then show "io DeployIo (copy_file (d @ [''genesis.json'']) (genesis_path n) m') =
      io DeployIo (write_text (genesis_path n) t m')"
    by (simp add: copy_file_def read_file_def write_text_def)
qed

lemma write_configs:
  assumes "workspace d m" "homes_ok d (nodes net)" "\<forall>n \<in> set (nodes net). node_ready E C m n"
  shows "\<exists>m'. generate_configs net m = (m', Inr ()) \<and> workspace d m' \<and> dirs m' = dirs m \<and>
    (\<forall>n \<in> set (nodes net). files m' (config_toml_path n) =
      Some (as_bytes (config_toml n (join '','' (peers_of net n)) (timeout_commit (net_config net))))) \<and>
    (\<forall>q. q \<notin> config_toml_path ` set (nodes net) \<longrightarrow> files m' q = files m q)"
  unfolding generate_configs_def
proof (rule for_each_writes [OF assms(1) genesis_paths(2) [OF assms(2)]])
  show "\<forall>n \<in> set (nodes net). in_place d m (config_toml_path n)"
    using genesis_paths(3) [OF assms(2), of _ m] assms(3) by (auto simp: node_ready_def)
qed simp

lemma nodes_ready_cong:
  assumes "homes_ok d ns" "\<forall>n \<in> set ns. node_ready E C m n" "dirs m \<subseteq> dirs m'"
    and "\<And>q. (\<forall>x \<in> set ns. q \<noteq> genesis_path x \<and> q \<noteq> config_toml_path x) \<Longrightarrow> (\<forall>f. q \<noteq> d @ [f]) \<Longrightarrow> files m' q = files m q"
  shows "\<forall>n \<in> set ns. node_ready E C m' n"
proof
  fix n assume n: "n \<in> set ns"
  show "node_ready E C m' n"
  proof (rule node_ready_cong [OF _ assms(3)])
    show "node_ready E C m n" using assms(2) n by blast
    fix p assume "p \<in> key_paths n"
    note other = key_paths_other [OF assms(1) _ n this]
    have "\<forall>x \<in> set ns. p \<noteq> genesis_path x \<and> p \<noteq> config_toml_path x" using other(1,2) by blast
    moreover have "\<forall>f. p \<noteq> d @ [f]" using other(3) n by blast
    ultimately show "files m' p = files m p" by (rule assms(4))
  qed
qed

lemma network_initialize_effect:
  assumes ok: "deploy_ok E C D" and d: "directory (net_config net) = d"
    and ws: "workspace d m" and homes: "homes_ok d (nodes net)"
  obtains m' net' t doc where "network_initialize E C D net m = (m', Inr net')" "workspace d m'"
    "d = [] \<or> d \<in> dirs m'" "net_config net' = net_config net"
    "list_all2 (\<lambda>n n'. \<exists>nid. n' = n\<lparr>node_id := Some nid\<rparr>) (nodes net) (nodes net')"
    "\<forall>n \<in> set (nodes net'). node_ready E C m' n" "genesis_everywhere net' t m'"
    "from_utf8 (as_bytes t) = Some t" "json_from_slice E (as_bytes t) = Some doc" "json_ok doc"
    "\<exists>entries. doc = genesis_document (genesis_time D) (nc_chain_id (net_config net)) entries \<and>
      length entries = length (filter (\<lambda>n. is_validator (node_role n)) (nodes net)) \<and>
      (\<forall>e \<in> set entries. json_get ''power'' e = Some (JString ''10''))"
    "\<forall>n \<in> set (nodes net'). files m' (config_toml_path n) =
      Some (as_bytes (config_toml n (join '','' (peers_of net' n)) (timeout_commit (net_config net))))"
proof -
  note js = deploy_okD(4) [OF ok]
  obtain m1 where m1: "create_dir_all d m = (m1, Inr ())" "workspace d m1" "d = [] \<or> d \<in> dirs m1"
    using create_dir_all_workspace [OF ws, of "[]"] by auto
  obtain m2 ns where m2: "update_each (initialize_node E C D) (nodes net) m1 = (m2, Inr ns)" "workspace d m2"
    "dirs m1 \<subseteq> dirs m2" "\<forall>n \<in> set ns. node_ready E C m2 n"
    "list_all2 (\<lambda>n n'. \<exists>nid. n' = n\<lparr>node_id := Some nid\<rparr>) (nodes net) ns"
    using initialize_nodes_effect [OF ok m1(2) homes] by blast
  let ?net = "net\<lparr>nodes := ns\<rparr>"
  note upd = nodes_updated [OF m2(5)]
  have homes': "homes_ok d ns" using homes upd(4) by simp
  have len: "length (filter (\<lambda>n. is_validator (node_role n)) ns) = length (filter (\<lambda>n. is_validator (node_role n)) (nodes net))"
    using arg_cong [OF upd(2), of "\<lambda>rs. length (filter is_validator rs)"] by (simp add: filter_map comp_def)
  obtain t entries where t: "generate_genesis E D ?net m2 = Inr t" "from_utf8 (as_bytes t) = Some t"
    "json_from_slice E (as_bytes t) = Some (genesis_document (genesis_time D) (nc_chain_id (net_config net)) entries)"
    "length entries = length (filter (\<lambda>n. is_validator (node_role n)) ns)"
    "\<forall>e \<in> set entries. json_get ''power'' e = Some (JString ''10'')"
    "json_ok (genesis_document (genesis_time D) (nc_chain_id (net_config net)) entries)"
    using generate_genesis_ok [OF js, of ?net C m2] m2(4) by auto
  define m3 where "m3 = m2\<lparr>files := (files m2)(d @ [''genesis.json''] \<mapsto> as_bytes t)\<rparr>"
  have d2: "d @ [] = [] \<or> d @ [] \<in> dirs m2" using m1(3) m2(3) by auto
  have m3: "io DeployIo (write_text (d @ [''genesis.json'']) t m2) = (m3, Inr ())" "workspace d m3"
    unfolding m3_def using write_text_in [OF m2(2) d2 dot_in_names(1)] by simp_all
  have ready3: "\<forall>n \<in> set ns. node_ready E C m3 n"
    by (rule nodes_ready_cong [OF homes' m2(4)]) (simp_all add: m3_def)
  obtain m4 where m4: "for_each (\<lambda>n m. io DeployIo (copy_file (d @ [''genesis.json'']) (genesis_path n) m)) ns m3 = (m4, Inr ())"
    "workspace d m4" "dirs m4 = dirs m3" "\<forall>n \<in> set ns. files m4 (genesis_path n) = Some (as_bytes t)"
    "\<forall>q. q \<notin> genesis_path ` set ns \<longrightarrow> files m4 q = files m3 q"
    using copy_genesis [OF m3(2) homes' ready3, of t] by (auto simp: m3_def)
  have ready4: "\<forall>n \<in> set ns. node_ready E C m4 n"
    by (rule nodes_ready_cong [OF homes' ready3]) (use m4(3,5) in auto)
  obtain m5 where m5: "generate_configs ?net m4 = (m5, Inr ())" "workspace d m5" "dirs m5 = dirs m4"
    "\<forall>n \<in> set ns. files m5 (config_toml_path n) =
      Some (as_bytes (config_toml n (join '','' (peers_of ?net n)) (timeout_commit (net_config net))))"
    "\<forall>q. q \<notin> config_toml_path ` set ns \<longrightarrow> files m5 q = files m4 q"
    using write_configs [OF m4(2), of ?net E C] homes' ready4 by auto
  have ready5: "\<forall>n \<in> set ns. node_ready E C m5 n"
    by (rule nodes_ready_cong [OF homes' ready4]) (use m5(3,5) in auto)
  obtain nt where nt: "network_pretty D ?net = Some nt"
    using js unfolding json_texts_ok_def by (metis not_Some_eq)
  define m6 where "m6 = m5\<lparr>files := (files m5)(d @ [''network.json''] \<mapsto> as_bytes nt)\<rparr>"
  have d5: "d @ [] = [] \<or> d @ [] \<in> dirs m5" using d2 m4(3) m5(3) by (simp add: m3_def)
  have m6: "io DeployIo (write_text (d @ [''network.json'']) nt m5) = (m6, Inr ())" "workspace d m6"
    unfolding m6_def using write_text_in [OF m5(2) d5 dot_in_names(3)] by simp_all
  have ready6: "\<forall>n \<in> set ns. node_ready E C m6 n"
    by (rule nodes_ready_cong [OF homes' ready5]) (simp_all add: m6_def)
  have run: "network_initialize E C D net m = (m6, Inr ?net)"
    using m1(1) m2(1) t(1) m3(1) m4(1) m5(1) m6(1) nt by (simp add: network_initialize_def d Let_def)
  have toml: "genesis_path n \<noteq> config_toml_path x" for n x
    by (simp add: genesis_path_def config_toml_path_def)
  have "files m6 (genesis_path n) = Some (as_bytes t)" if n: "n \<in> set ns" for n
  proof -
    have "genesis_path n \<notin> config_toml_path ` set ns" using toml by blast
    then show ?thesis using n m4(4) m5(5) genesis_paths(4) [OF homes' n] by (simp add: m6_def)
  qed
  moreover have "files m6 (config_toml_path n) = files m5 (config_toml_path n)" if "n \<in> set ns" for n
    using genesis_paths(4) [OF homes' that] by (simp add: m6_def)
  ultimately show thesis
    using run m6(2) d5 m2(5) ready6 t(2,3,5,6) t(4)[unfolded len] m5(4)
    by (intro that [of m6 ?net t "genesis_document (genesis_time D) (nc_chain_id (net_config net)) entries"])
      (auto simp: genesis_everywhere_def m6_def)
qed

section \<open>The configuration of the chain\<close>

lemma generate_felidae_config_ok:
  assumes "\<forall>n \<in> set (nodes net). node_ready E C m n"
  obtains cfg where "generate_felidae_config E C net od ad m = Inr cfg"
proof -
  let ?vs = "filter (\<lambda>n. is_validator (node_role n)) (nodes net)"
  have "is_ok (public_key_of E C (oracle_key_path n) m) \<and> is_ok (public_key_of E C (admin_key_path n) m)"
    if "n \<in> set ?vs" for n
    using assms that by (auto simp: node_ready_def)
  then have "\<exists>a. public_key_of E C (oracle_key_path n) m = Inr a" "\<exists>b. public_key_of E C (admin_key_path n) m = Inr b"
    if "n \<in> set ?vs" for n
    using that by (cases "public_key_of E C (oracle_key_path n) m"; cases "public_key_of E C (admin_key_path n) m"; force)+
  then obtain a b where "\<And>n. n \<in> set ?vs \<Longrightarrow> public_key_of E C (oracle_key_path n) m = Inr (a n)"
    "\<And>n. n \<in> set ?vs \<Longrightarrow> public_key_of E C (admin_key_path n) m = Inr (b n)" by metis
  then have "\<exists>os. ecollect (map (\<lambda>n. ebind (public_key_of E C (oracle_key_path n) m) (\<lambda>pk.
       Inr \<lparr>or_identity = pk, or_endpoint = socket_address n (felidae_oracle (node_ports n))\<rparr>)) ?vs) = Inr os"
    "\<exists>as. ecollect (map (\<lambda>n. ebind (public_key_of E C (admin_key_path n) m) (\<lambda>pk. Inr (Admin pk))) ?vs) = Inr as"
    using ecollect_map_cong_Inr [of ?vs "\<lambda>n. ebind (public_key_of E C (oracle_key_path n) m) (\<lambda>pk.
       Inr \<lparr>or_identity = pk, or_endpoint = socket_address n (felidae_oracle (node_ports n))\<rparr>)"
       "\<lambda>n. \<lparr>or_identity = a n, or_endpoint = socket_address n (felidae_oracle (node_ports n))\<rparr>"]
     ecollect_map_cong_Inr [of ?vs "\<lambda>n. ebind (public_key_of E C (admin_key_path n) m) (\<lambda>pk. Inr (Admin pk))" "\<lambda>n. Admin (b n)"]
    by simp_all
  then show thesis by (elim exE) (rule that, simp add: generate_felidae_config_def Let_def)
qed

lemma generate_felidae_config_facts:
  assumes "generate_felidae_config E C net od ad m = Inr cfg"
  defines "vs \<equiv> filter (\<lambda>n. is_validator (node_role n)) (nodes net)"
  shows "version cfg = 0" "a_voting (admins cfg) = \<lparr>total = word_of_nat (length vs), quorum = bft_quorum (length vs),
      timeout = from_secs 60, delay = ad\<rparr>"
    "o_voting (oracles cfg) = \<lparr>total = word_of_nat (length vs), quorum = bft_quorum (length vs),
      timeout = from_secs 300, delay = od\<rparr>"
    "map (\<lambda>a. Inr (admin_identity a)) (a_authorized (admins cfg)) = map (\<lambda>n. public_key_of E C (admin_key_path n) m) vs"
    "map (\<lambda>a. Inr (or_identity a)) (o_authorized (oracles cfg)) = map (\<lambda>n. public_key_of E C (oracle_key_path n) m) vs"
proof -
  obtain os as where o: "map (\<lambda>n. ebind (public_key_of E C (oracle_key_path n) m) (\<lambda>pk.
       Inr \<lparr>or_identity = pk, or_endpoint = socket_address n (felidae_oracle (node_ports n))\<rparr>)) vs = map Inr os"
    and a: "map (\<lambda>n. ebind (public_key_of E C (admin_key_path n) m) (\<lambda>pk. Inr (Admin pk))) vs = map Inr as"
    and cfg: "cfg = \<lparr>version = 0,
       admins = \<lparr>a_voting = \<lparr>total = word_of_nat (length vs), quorum = bft_quorum (length vs),
           timeout = from_secs 60, delay = ad\<rparr>, a_authorized = as\<rparr>,
       oracles = \<lparr>o_enabled = True,
         o_voting = \<lparr>total = word_of_nat (length vs), quorum = bft_quorum (length vs), timeout = from_secs 300, delay = od\<rparr>,
         max_enrolled_subdomains = 5, observation_timeout = from_secs 300, o_authorized = os\<rparr>,
       onion = OnionConfig False\<rparr>"
    using assms(1) by (auto simp: generate_felidae_config_def Let_def res_simps ecollect_Inr_iff vs_def)
  show "version cfg = 0" "a_voting (admins cfg) = \<lparr>total = word_of_nat (length vs), quorum = bft_quorum (length vs),
      timeout = from_secs 60, delay = ad\<rparr>"
    "o_voting (oracles cfg) = \<lparr>total = word_of_nat (length vs), quorum = bft_quorum (length vs),
      timeout = from_secs 300, delay = od\<rparr>" by (simp_all add: cfg)
  have "map (\<lambda>r. ebind r (\<lambda>x. Inr (or_identity x))) (map Inr os) = map (\<lambda>n. public_key_of E C (oracle_key_path n) m) vs"
    unfolding o [symmetric] by (simp add: ebind_assoc comp_def)
  then show "map (\<lambda>a. Inr (or_identity a)) (o_authorized (oracles cfg)) = map (\<lambda>n. public_key_of E C (oracle_key_path n) m) vs"
    by (simp add: cfg comp_def)
  have "map (\<lambda>r. ebind r (\<lambda>x. Inr (admin_identity x))) (map Inr as) = map (\<lambda>n. public_key_of E C (admin_key_path n) m) vs"
    unfolding a [symmetric] by (simp add: ebind_assoc comp_def)
  then show "map (\<lambda>a. Inr (admin_identity a)) (a_authorized (admins cfg)) = map (\<lambda>n. public_key_of E C (admin_key_path n) m) vs"
    by (simp add: cfg comp_def)
qed

lemma generate_felidae_config_cong:
  assumes "\<forall>n \<in> set (nodes net). node_ready E C m n"
    and "\<And>n p. n \<in> set (nodes net) \<Longrightarrow> p \<in> key_paths n \<Longrightarrow> files m' p = files m p"
  shows "generate_felidae_config E C net od ad m' = generate_felidae_config E C net od ad m"
proof -
  let ?vs = "filter (\<lambda>n. is_validator (node_role n)) (nodes net)"
  have "public_key_of E C (oracle_key_path n) m' = public_key_of E C (oracle_key_path n) m \<and>
      public_key_of E C (admin_key_path n) m' = public_key_of E C (admin_key_path n) m" if n: "n \<in> set ?vs" for n
    using node_files_cong(1) [of n m' m "oracle_key_path n" E C] node_files_cong(1) [of n m' m "admin_key_path n" E C]
      assms n by (auto simp: node_ready_def key_paths_def)
  then have "map (\<lambda>n. ebind (public_key_of E C (oracle_key_path n) m') (\<lambda>pk.
        Inr \<lparr>or_identity = pk, or_endpoint = socket_address n (felidae_oracle (node_ports n))\<rparr>)) ?vs =
      map (\<lambda>n. ebind (public_key_of E C (oracle_key_path n) m) (\<lambda>pk.
        Inr \<lparr>or_identity = pk, or_endpoint = socket_address n (felidae_oracle (node_ports n))\<rparr>)) ?vs"
    "map (\<lambda>n. ebind (public_key_of E C (admin_key_path n) m') (\<lambda>pk. Inr (Admin pk))) ?vs =
      map (\<lambda>n. ebind (public_key_of E C (admin_key_path n) m) (\<lambda>pk. Inr (Admin pk))) ?vs"
    by (intro map_cong refl; metis)+
  then show ?thesis by (simp only: generate_felidae_config_def Let_def)
qed

section \<open>Injecting it\<close>

lemma inject_effect:
  assumes js: "json_texts_ok E D" and ws: "workspace d m" and homes: "homes_ok d (nodes net)"
    and ready: "\<forall>n \<in> set (nodes net). node_ready E C m n" and g: "genesis_everywhere net t m"
    and t: "from_utf8 (as_bytes t) = Some t" "json_from_slice E (as_bytes t) = Some doc"
    and doc: "json_get k0 doc = Some v0"
  obtains m' t' doc' j where "inject_genesis_app_state E D cfg net m = (m', Inr ())" "workspace d m'" "dirs m' = dirs m"
    "genesis_everywhere net t' m'" "from_utf8 (as_bytes t') = Some t'" "json_from_slice E (as_bytes t') = Some doc'"
    "config_from_json E j = Some cfg" "json_get ''app_state'' doc' = Some (json_object [(''config'', j)])"
    "\<And>k. k \<noteq> ''app_state'' \<Longrightarrow> json_get k doc' = json_get k doc"
    "\<forall>q. q \<notin> genesis_path ` set (nodes net) \<longrightarrow> files m' q = files m q"
proof -
  obtain j where j: "config_to_json D cfg = Some j" "json_ok j" "config_from_json E j = Some cfg"
    using js unfolding json_texts_ok_def by metis
  obtain doc' where doc': "json_set ''app_state'' (json_object [(''config'', j)]) doc = Some doc'"
    using json_set_object [OF doc] by blast
  have "json_ok doc" using js t(2) unfolding json_texts_ok_def by blast
  then have "json_ok doc'" by (rule json_ok_set [OF doc', rotated]) (simp add: j(2))
  then obtain t' where t': "json_pretty D doc' = Some t'" "from_utf8 (as_bytes t') = Some t'"
    "json_from_slice E (as_bytes t') = Some doc'" by (rule json_texts_okD [OF js])
  have "\<exists>m'. inject_genesis_app_state E D cfg net m = (m', Inr ()) \<and> workspace d m' \<and> dirs m' = dirs m \<and>
    (\<forall>n \<in> set (nodes net). files m' (genesis_path n) = Some (as_bytes t')) \<and>
    (\<forall>q. q \<notin> genesis_path ` set (nodes net) \<longrightarrow> files m' q = files m q)"
    unfolding inject_genesis_app_state_def
  proof (rule for_each_writes [OF ws genesis_paths(1) [OF homes]])
    show "\<forall>n \<in> set (nodes net). in_place d m (genesis_path n)"
      using genesis_paths(3) [OF homes, of _ m] ready by (auto simp: node_ready_def)
    fix n and m' :: machine
    assume "n \<in> set (nodes net)" "files m' (genesis_path n) = files m (genesis_path n)"
    then have "files m' (genesis_path n) = Some (as_bytes t)" using g by (simp add: genesis_everywhere_def)
    then have "json_file E (genesis_path n) m' = Inr doc" by (rule json_file_written [OF t])
    then show "lift_res m' (json_file E (genesis_path n) m') (\<lambda>genesis.
        lift_res m' (ok_or JsonText (config_to_json D cfg)) (\<lambda>cfg_json.
        lift_res m' (ok_or (GenesisNotObject (genesis_path n))
          (json_set ''app_state'' (json_object [(''config'', cfg_json)]) genesis)) (\<lambda>genesis.
        lift_res m' (ok_or JsonText (json_pretty D genesis)) (\<lambda>updated_genesis.
        io DeployIo (write_text (genesis_path n) updated_genesis m'))))) = io DeployIo (write_text (genesis_path n) t' m')"
      using j(1) doc' t'(1) by simp
  qed
  then obtain m' where "inject_genesis_app_state E D cfg net m = (m', Inr ())" "workspace d m'" "dirs m' = dirs m"
    "genesis_everywhere net t' m'" "\<forall>q. q \<notin> genesis_path ` set (nodes net) \<longrightarrow> files m' q = files m q"
    by (auto simp: genesis_everywhere_def)
  then show thesis using t'(2,3) j(3) json_get_set [OF doc'] by (intro that [of m' t' doc' j]) simp_all
qed

section \<open>The whole command\<close>

lemma create_network_effect:
  assumes ok: "deploy_ok E C D" and ws: "workspace (directory c) m" and empty: "check_target (directory c) m = Inr ()"
  obtains m' net cfg t doc j entries where "create_network E C D c od ad m = (m', Inr net)"
    "net_config net = c" "list_all2 (\<lambda>n n'. \<exists>nid. n' = n\<lparr>node_id := Some nid\<rparr>) (nodes (network_new c)) (nodes net)"
    "genesis_everywhere net t m'" "from_utf8 (as_bytes t) = Some t" "json_from_slice E (as_bytes t) = Some doc"
    "json_get ''chain_id'' doc = Some (JString (nc_chain_id c))" "json_get ''validators'' doc = Some (JArray entries)"
    "length entries = num_validators c" "\<forall>e \<in> set entries. json_get ''power'' e = Some (JString ''10'')"
    "json_get ''app_state'' doc = Some (json_object [(''config'', j)])" "config_from_json E j = Some cfg"
    "generate_felidae_config E C net od ad m' = Inr cfg"
    "\<forall>n \<in> set (nodes net). files m' (config_toml_path n) =
      Some (as_bytes (config_toml n (join '','' (peers_of net n)) (timeout_commit c)))"
proof -
  let ?d = "directory c"
  have cfg: "net_config (network_new c) = c" by (simp add: network_new_def)
  note js = deploy_okD(4) [OF ok]
  obtain m1 net t doc where m1: "network_initialize E C D (network_new c) m = (m1, Inr net)" "workspace ?d m1"
    "?d = [] \<or> ?d \<in> dirs m1" "net_config net = c"
    "list_all2 (\<lambda>n n'. \<exists>nid. n' = n\<lparr>node_id := Some nid\<rparr>) (nodes (network_new c)) (nodes net)"
    "\<forall>n \<in> set (nodes net). node_ready E C m1 n" "genesis_everywhere net t m1"
    "from_utf8 (as_bytes t) = Some t" "json_from_slice E (as_bytes t) = Some doc"
    "\<exists>entries. doc = genesis_document (genesis_time D) (nc_chain_id c) entries \<and>
      length entries = length (filter (\<lambda>n. is_validator (node_role n)) (nodes (network_new c))) \<and>
      (\<forall>e \<in> set entries. json_get ''power'' e = Some (JString ''10''))"
    "\<forall>n \<in> set (nodes net). files m1 (config_toml_path n) =
      Some (as_bytes (config_toml n (join '','' (peers_of net n)) (timeout_commit c)))"
    by (rule network_initialize_effect [OF ok arg_cong [OF cfg, of directory] ws homes_network_new]) (auto simp: cfg)
  have homes: "homes_ok ?d (nodes net)" using nodes_updated(4) [OF m1(5)] homes_network_new by simp
  have n: "length (filter (\<lambda>n. is_validator (node_role n)) (nodes (network_new c))) = num_validators c"
    by (auto simp: network_new_def make_nodes_def node_new_def Let_def filter_map comp_def)
  obtain entries where doc: "json_get ''chain_id'' doc = Some (JString (nc_chain_id c))"
    "json_get ''validators'' doc = Some (JArray entries)"
    "length entries = num_validators c" "\<forall>e \<in> set entries. json_get ''power'' e = Some (JString ''10'')"
    using m1(10) unfolding n by (auto simp: genesis_document_def json_get_object)
  obtain cfg where cfg: "generate_felidae_config E C net od ad m1 = Inr cfg"
    by (rule generate_felidae_config_ok [OF m1(6)])
  obtain m2 t' doc' j where m2: "inject_genesis_app_state E D cfg net m1 = (m2, Inr ())" "workspace ?d m2" "dirs m2 = dirs m1"
    "genesis_everywhere net t' m2" "from_utf8 (as_bytes t') = Some t'" "json_from_slice E (as_bytes t') = Some doc'"
    "config_from_json E j = Some cfg" "json_get ''app_state'' doc' = Some (json_object [(''config'', j)])"
    "\<And>k. k \<noteq> ''app_state'' \<Longrightarrow> json_get k doc' = json_get k doc"
    "\<forall>q. q \<notin> genesis_path ` set (nodes net) \<longrightarrow> files m2 q = files m1 q"
    using inject_effect [OF js m1(2) homes m1(6-9) doc(1), where cfg = cfg] by blast
  let ?yaml = "?d @ [''process-compose.yaml'']"
  let ?m3 = "m2\<lparr>files := (files m2)(?yaml \<mapsto> as_bytes (process_compose_config ''felidae'' None net))\<rparr>"
  have m3: "io DeployIo (write_text ?yaml (process_compose_config ''felidae'' None net) m2) = (?m3, Inr ())"
    using m1(3) m2(3) by (intro write_text_in(1) [OF m2(2), of "[]"]) simp_all
  obtain ls where run: "create_network E C D c od ad m = (?m3\<lparr>printed := ls\<rparr>, Inr net)"
    using m1(1) cfg m2(1) m3 empty by (simp add: create_network_def println_def)
  let ?m = "?m3\<lparr>printed := ls\<rparr>"
  have "files ?m p = files m1 p" if "x \<in> set (nodes net)" "p \<in> key_paths x" for x p
    using m2(10) key_paths_other [OF homes _ that(1,2)] that(1) by auto
  then have "generate_felidae_config E C net od ad ?m = generate_felidae_config E C net od ad m1"
    by (rule generate_felidae_config_cong [OF m1(6)])
  moreover have "genesis_everywhere net t' ?m" using m2(4) genesis_paths(4) [OF homes] by (simp add: genesis_everywhere_def)
  moreover have "files ?m (config_toml_path x) = files m1 (config_toml_path x)" if "x \<in> set (nodes net)" for x
  proof -
    have "config_toml_path x \<notin> genesis_path ` set (nodes net)" by (auto simp: node_paths)
    then show ?thesis using m2(10) genesis_paths(4) [OF homes that] by simp
  qed
  ultimately show thesis
    using run m1(4,5,11) m2(5-8) m2(9) [of "''chain_id''"] m2(9) [of "''validators''"] doc cfg
    by (intro that [of ?m net t' doc' entries j cfg]) simp_all
qed

end
