(* ===== verification/Sample_Json.thy ===== *)
theory Sample_Json
  imports Deploy_Facts Sample_State
begin

text \<open>
  A concrete text for JSON values and configurations, and a machine to work on, so that the hypotheses
  of the deployer's theorems have an instance: the text of a value is the hex of a self-delimiting
  encoding.
\<close>

section \<open>Values\<close>

fun json_put :: "json \<Rightarrow> bytes" where
  "json_put JNull = [0]"
| "json_put (JBool b) = 1 # sput s_bool b"
| "json_put (JNumber s) = 2 # sput s_string s"
| "json_put (JString s) = 3 # sput s_string s"
| "json_put (JArray vs) = 4 # concat (map (\<lambda>v. 1 # json_put v) vs) @ [0]"
| "json_put (JObject kvs) = 5 # concat (map (\<lambda>kv. 1 # sput s_string (fst kv) @ json_put (snd kv)) kvs) @ [0]"

abbreviation s_json :: "(bytes \<Rightarrow> (json \<times> bytes) option) \<Rightarrow> json scodec" where
  "s_json g \<equiv> SCodec json_put g"

fun json_take :: "nat \<Rightarrow> bytes \<Rightarrow> (json \<times> bytes) option" where
  "json_take 0 bs = None"
| "json_take (Suc n) [] = None"
| "json_take (Suc n) (b # r) =
     (if b = 0 then Some (JNull, r)
      else if b = 1 then map_option (map_prod JBool (\<lambda>r. r)) (sget s_bool r)
      else if b = 2 then map_option (map_prod JNumber (\<lambda>r. r)) (sget s_string r)
      else if b = 3 then map_option (map_prod JString (\<lambda>r. r)) (sget s_string r)
      else if b = 4 then map_option (map_prod JArray (\<lambda>r. r)) (slist_get (length r) (s_json (json_take n)) r)
      else map_option (map_prod JObject (\<lambda>r. r)) (slist_get (length r) (s_pair s_string (s_json (json_take n))) r))"

lemma slist_get_on:
  assumes "\<forall>x \<in> set xs. \<forall>rest. sget A (sput A x @ rest) = Some (x, rest)"
  shows "length (slist_put A xs) \<le> n \<Longrightarrow> slist_get n A (slist_put A xs @ rest) = Some (xs, rest)"
  using assms
proof (induction xs arbitrary: n)
  case Nil
  then show ?case by (cases n) auto
next
  case (Cons x xs)
  then show ?case by (cases n) auto
qed

lemma slist_put_concat: "slist_put A xs = concat (map (\<lambda>x. 1 # sput A x) xs) @ [0]"
  by (induction xs) auto

lemma json_put_array: "json_put (JArray vs) = 4 # slist_put (s_json g) vs"
  by (simp add: slist_put_concat)

lemma json_put_object: "json_put (JObject kvs) = 5 # slist_put (s_pair s_string (s_json g)) kvs"
  by (simp add: slist_put_concat s_pair_def case_prod_beta)

lemma length_slist_put: "x \<in> set xs \<Longrightarrow> length (sput A x) < length (slist_put A xs)"
  by (induction xs) auto

lemma json_take_put: "length (json_put v) \<le> n \<Longrightarrow> json_take n (json_put v @ rest) = Some (v, rest)"
proof (induction n arbitrary: v rest)
  case 0
  then show ?case by (cases v) auto
next
  case (Suc n)
  show ?case
  proof (cases v)
    case (JArray vs)
    have "\<forall>x \<in> set vs. \<forall>rest. sget (s_json (json_take n)) (sput (s_json (json_take n)) x @ rest) = Some (x, rest)"
      using Suc length_slist_put [of _ vs "s_json (json_take n)"]
      unfolding JArray json_put_array [of vs "json_take n"] by fastforce
    from slist_get_on [OF this] show ?thesis
      unfolding JArray json_put_array [of vs "json_take n"] by simp
  next
    case (JObject kvs)
    have "\<forall>x \<in> set kvs. \<forall>rest. sget (s_pair s_string (s_json (json_take n)))
        (sput (s_pair s_string (s_json (json_take n))) x @ rest) = Some (x, rest)"
    proof (intro ballI allI)
      fix x rest assume "x \<in> set kvs"
      then have "length (json_put (snd x)) \<le> n"
        using Suc.prems length_slist_put [of x kvs "s_pair s_string (s_json (json_take n))"]
        unfolding JObject json_put_object [of kvs "json_take n"] by (simp add: s_pair_def case_prod_beta)
      then show "sget (s_pair s_string (s_json (json_take n)))
          (sput (s_pair s_string (s_json (json_take n))) x @ rest) = Some (x, rest)"
        using Suc.IH by (cases x) (simp add: s_pair_def scodecD)
    qed
    from slist_get_on [OF this] show ?thesis
      unfolding JObject json_put_object [of kvs "json_take n"] by simp
  qed (simp_all add: scodecD)
qed

definition json_of_bytes :: "bytes \<Rightarrow> json option" where
  "json_of_bytes bs = (case json_take (length bs) bs of Some (v, []) \<Rightarrow> Some v | _ \<Rightarrow> None)"

lemma json_of_bytes_put [simp]: "json_of_bytes (json_put v) = Some v"
  using json_take_put [of v "length (json_put v)" "[]"] by (simp add: json_of_bytes_def)

definition sample_json_text :: "json \<Rightarrow> string" where
  "sample_json_text v = sample_hex_encode (json_put v)"

definition sample_json_parse :: "bytes \<Rightarrow> json option" where
  "sample_json_parse b =
    (case Option.bind (from_utf8 b) (\<lambda>t. Option.bind (sample_hex_decode t) json_of_bytes) of
       Some v \<Rightarrow> if json_ok v then Some v else None
     | None \<Rightarrow> None)"

section \<open>Configurations\<close>

fun nat_bytes :: "nat \<Rightarrow> bytes" where
  "nat_bytes n = (if n = 0 then [] else word_of_nat (n mod 256) # nat_bytes (n div 256))"

fun bytes_nat :: "bytes \<Rightarrow> nat" where
  "bytes_nat [] = 0"
| "bytes_nat (b # bs) = unat b + 256 * bytes_nat bs"

declare nat_bytes.simps [simp del]

lemma bytes_nat_bytes: "bytes_nat (nat_bytes n) = n"
  by (induction n rule: nat_bytes.induct) (subst nat_bytes.simps, simp add: unat_word_of_nat_u8)

definition s_nat :: "nat scodec" where
  "s_nat = s_map nat_bytes bytes_nat s_bytes"

definition s_voting :: "voting_config scodec" where
  "s_voting = s_map (\<lambda>v. (total v, quorum v, timeout v, delay v))
    (\<lambda>(a, b, c, d). \<lparr>total = a, quorum = b, timeout = c, delay = d\<rparr>) (s_pair s_u64 (s_pair s_u64 (s_pair s_nat s_nat)))"

definition s_admins :: "admin_config scodec" where
  "s_admins = s_map (\<lambda>a. (a_voting a, a_authorized a)) (\<lambda>(a, b). \<lparr>a_voting = a, a_authorized = b\<rparr>)
    (s_pair s_voting (s_list (s_map admin_identity Admin s_bytes)))"

definition s_oracles :: "oracle_config scodec" where
  "s_oracles = s_map
    (\<lambda>a. (o_enabled a, o_voting a, max_enrolled_subdomains a, observation_timeout a, o_authorized a))
    (\<lambda>(a, b, c, d, e). \<lparr>o_enabled = a, o_voting = b, max_enrolled_subdomains = c, observation_timeout = d, o_authorized = e\<rparr>)
    (s_pair s_bool (s_pair s_voting (s_pair s_u64 (s_pair s_nat
      (s_list (s_map (\<lambda>a. (or_identity a, or_endpoint a)) (\<lambda>(a, b). \<lparr>or_identity = a, or_endpoint = b\<rparr>)
        (s_pair s_bytes s_string)))))))"

definition s_whole_config :: "config scodec" where
  "s_whole_config = s_map (\<lambda>c. (version c, admins c, oracles c, onion_enabled (onion c)))
    (\<lambda>(a, b, c, d). \<lparr>version = a, admins = b, oracles = c, onion = OnionConfig d\<rparr>)
    (s_pair s_i32 (s_pair s_admins (s_pair s_oracles s_bool)))"

lemma s_whole_config_ok [simp]: "scodec_ok s_whole_config"
  by (simp add: s_whole_config_def s_admins_def s_oracles_def s_voting_def s_nat_def bytes_nat_bytes)

definition sample_config_json :: "config \<Rightarrow> json" where
  "sample_config_json c = JString (sample_hex_encode (sput s_whole_config c))"

definition sample_config_of_json :: "json \<Rightarrow> config option" where
  "sample_config_of_json j =
    (case j of
       JString s \<Rightarrow> map_option fst (Option.bind (sample_hex_decode s) (sget s_whole_config))
     | _ \<Rightarrow> None)"

lemma sample_config_of_json [simp]: "sample_config_of_json (sample_config_json c) = Some c"
  using scodecD [OF s_whole_config_ok, of c "[]"]
  by (simp add: sample_config_of_json_def sample_config_json_def hex_decode_encode)

section \<open>The environment of a deployment\<close>

definition deploy_sample_env :: env where
  "deploy_sample_env = sample_env\<lparr>json_from_slice := sample_json_parse, config_from_json := sample_config_of_json\<rparr>"

definition sample_pkcs8 :: client_env where
  "sample_pkcs8 =
    \<lparr>keypair_decode = (\<lambda>b. Some (KeyPair b)), keypair_encode = (\<lambda>kp. Some (kp_signing_key kp)),
     enrollment_from_str = (\<lambda>s. None), enrollment_to_value = (\<lambda>e. None), canonical_json = (\<lambda>j. None),
     base64_url_decode = (\<lambda>s. None), ed25519_verifying_key = (\<lambda>b. True), parse_domain_name = (\<lambda>s. None)\<rparr>"

definition sample_deploy :: deploy_env where
  "sample_deploy =
    \<lparr>project_dir = (\<lambda>app. Some [''/'', ''home'', app]), config_pretty = (\<lambda>c. Some (sample_json_text (sample_config_json c))),
     broadcast_response_from_str = (\<lambda>s. None), base64_encode = sample_hex_encode, base64_decode = sample_hex_decode,
     ed25519_public = (\<lambda>b. take 32 (b @ replicate 32 1)), hex_encode_upper = sample_hex_encode,
     json_pretty = (\<lambda>v. Some (sample_json_text v)), config_to_json = (\<lambda>c. Some (sample_config_json c)),
     network_pretty = (\<lambda>net. Some ''network''), network_from_str = (\<lambda>s. None), genesis_time = ''2025-01-01T00:00:00Z''\<rparr>"

lemma sample_json_text_ok:
  assumes "json_ok v"
  shows "from_utf8 (as_bytes (sample_json_text v)) = Some (sample_json_text v)"
    "sample_json_parse (as_bytes (sample_json_text v)) = Some v"
proof -
  show u: "from_utf8 (as_bytes (sample_json_text v)) = Some (sample_json_text v)"
    using plain_hex by (simp add: sample_json_text_def plain_def from_utf8_as_bytes)
  show "sample_json_parse (as_bytes (sample_json_text v)) = Some v"
    unfolding sample_json_parse_def u by (simp add: sample_json_text_def hex_decode_encode assms)
qed

lemma sample_hex_digits: "set (sample_hex_encode b) \<subseteq> set ''0123456789abcdef''"
proof -
  have "list_all (\<lambda>n. sample_hex_digit n \<in> set ''0123456789abcdef'') [0..<16]" by code_simp
  then have d: "sample_hex_digit n \<in> set ''0123456789abcdef''" if "n < 16" for n
    using that unfolding list_all_iff by (metis atLeastLessThan_iff le0 set_upt)
  show ?thesis
  proof (induction b)
    case (Cons x b)
    have "unat x div 16 < 16" "unat x mod 16 < 16" using unat_u8 [of x] by simp_all
    with d [of "unat x div 16"] d [of "unat x mod 16"] Cons show ?case
      unfolding sample_hex_encode.simps list.set(2) [of "sample_hex_digit _"] by blast
  qed simp
qed

lemma deploy_sample_ok: "deploy_ok deploy_sample_env sample_pkcs8 sample_deploy"
proof -
  have "env_ok deploy_sample_env"
    using env_ok_sample by (simp add: deploy_sample_env_def env_ok_def)
  moreover have "hex_digits deploy_sample_env"
    using sample_hex_digits by (simp add: hex_digits_def deploy_sample_env_def sample_env_def del: list.set)
  moreover have "pkcs8_total sample_pkcs8"
    by (simp add: pkcs8_total_def sample_pkcs8_def)
  moreover have "json_texts_ok deploy_sample_env sample_deploy"
    unfolding json_texts_ok_def
  proof (intro conjI allI impI)
    fix v assume "json_ok v"
    then show "\<exists>t. json_pretty sample_deploy v = Some t \<and> from_utf8 (as_bytes t) = Some t \<and>
        json_from_slice deploy_sample_env (as_bytes t) = Some v"
      by (intro exI [of _ "sample_json_text v"])
        (simp add: sample_deploy_def deploy_sample_env_def sample_json_text_ok)
  next
    fix b v assume "json_from_slice deploy_sample_env b = Some v"
    then show "json_ok v" by (auto simp: deploy_sample_env_def sample_json_parse_def split: option.splits if_splits)
  next
    fix c
    show "\<exists>j. config_to_json sample_deploy c = Some j \<and> json_ok j \<and> config_from_json deploy_sample_env j = Some c"
      by (intro exI [of _ "sample_config_json c"])
        (simp add: sample_deploy_def deploy_sample_env_def, simp add: sample_config_json_def)
  next
    fix net show "network_pretty sample_deploy net \<noteq> None" by (simp add: sample_deploy_def)
  qed
  ultimately show ?thesis by (simp add: deploy_ok_def)
qed

section \<open>A machine\<close>

definition sample_machine :: machine where
  "sample_machine =
    \<lparr>files = Map.empty, dirs = {[''/'']}, denied = {}, entropy = (\<lambda>n. replicate 32 (word_of_nat n)), drawn = 0, printed = []\<rparr>"

definition sample_dir :: path where "sample_dir = [''/'', ''net'']"

lemma sample_workspace: "workspace sample_dir sample_machine" "check_target sample_dir sample_machine = Inr ()"
  by (auto simp: workspace_def sample_machine_def check_target_def path_exists_def sample_dir_def strict_prefix_def)

end
