(* ===== verification/Compare_State.thy ===== *)
theory Compare_State
  imports Machine
begin

text \<open>
  The command \<open>compare-state\<close>: \<open>crates/felidae/src/cli/debug/compare_state.rs\<close>. It loads two storage
  directories and reports where their verifiable keys differ, on standard output and in a file. What
  \<open>Storage::load\<close> finds in a directory (its version and its contents) is data; reading roots and keys of
  what was loaded does not fail.
\<close>

record storage_dump =
  sd_version :: u64
  sd_internal_root :: string
  sd_canonical_root :: string
  sd_keys :: "(string, bytes) omap"

datatype compare_error = StorageLoad path string | CreateDiff io_error

definition load_and_dump ::
  "env \<Rightarrow> (path \<Rightarrow> (u64 \<times> contents) option) \<Rightarrow> path \<Rightarrow> string \<Rightarrow> compare_error + storage_dump" where
  "load_and_dump E load p label =
    ebind (ok_or (StorageLoad p label) (load p)) (\<lambda>(version, snapshot).
    Inr \<lparr>sd_version = version,
         sd_internal_root = hex_encode E (root_hash_of E (Some Internal) snapshot),
         sd_canonical_root = hex_encode E (root_hash_of E (Some Canonical) snapshot),
         sd_keys = fold (\<lambda>prefix keys. fold (\<lambda>(key, value). om_put key value) (om_scan prefix (verifiable snapshot)) keys)
           [''internal/'', ''canonical/''] om_empty\<rparr>)"

section \<open>The differences\<close>

definition only_in :: "('k, 'v) omap \<Rightarrow> ('k, 'v) omap \<Rightarrow> 'k list" where
  "only_in a b = filter (\<lambda>k. om_get b k = None) (map fst a)"

definition value_mismatch :: "('k, 'v) omap \<Rightarrow> ('k, 'v) omap \<Rightarrow> 'k list" where
  "value_mismatch a b = filter (\<lambda>k. om_get b k \<noteq> None \<and> om_get a k \<noteq> om_get b k) (map fst a)"

section \<open>The report\<close>

definition hex_preview :: "env \<Rightarrow> bytes \<Rightarrow> nat \<Rightarrow> string" where
  "hex_preview E b max_len =
    (if b = [] then ''()''
     else let n = min (length b) max_len; hex = hex_encode E (take n b) in
       if length b > max_len
       then hex @ map char_of [0xE2, 0x80, 0xA6 :: nat] @ '' ('' @ nat_display (length b) @ '' bytes)''
       else hex @ '' ('' @ nat_display (length b) @ '' bytes)'')"

definition title_lines :: "string \<Rightarrow> string \<Rightarrow> string \<Rightarrow> bool \<Rightarrow> string list" where
  "title_lines title a b same =
    [[], ''=== '' @ title @ '' ==='', ''  A: '' @ a, ''  B: '' @ b] @ (if same then [] else [''  -> MISMATCH''])"

definition version_text :: "u64 \<Rightarrow> string" where
  "version_text v = nat_display (unat v) @ '' (0x'' @ radix_display 16 (unat v) @ '')''"

definition keys_lines :: "string \<Rightarrow> string list \<Rightarrow> string list" where
  "keys_lines label ks =
    (if ks = [] then []
     else [[], ''--- Keys only in '' @ label @ '' (all '' @ nat_display (length ks) @ '') ---''] @
       map (\<lambda>k. ''  '' @ k) ks)"

definition value_of :: "('k, 'v list) omap \<Rightarrow> 'k \<Rightarrow> 'v list" where
  "value_of m k = the (om_get m k)"

definition values_lines :: "env \<Rightarrow> storage_dump \<Rightarrow> storage_dump \<Rightarrow> nat \<Rightarrow> string list \<Rightarrow> string list" where
  "values_lines E a b preview ks =
    (if ks = [] then []
     else [[], ''--- Keys with different value (all '' @ nat_display (length ks) @ '', preview '' @
             nat_display preview @ '' bytes) ---''] @
       concat (map (\<lambda>k. [''  '' @ k, ''    A: '' @ hex_preview E (value_of (sd_keys a) k) preview,
         ''    B: '' @ hex_preview E (value_of (sd_keys b) k) preview]) ks))"

definition report_lines :: "env \<Rightarrow> storage_dump \<Rightarrow> storage_dump \<Rightarrow> nat \<Rightarrow> string list" where
  "report_lines E a b preview =
    (let only_a = only_in (sd_keys a) (sd_keys b); only_b = only_in (sd_keys b) (sd_keys a);
         mismatch = value_mismatch (sd_keys a) (sd_keys b)
     in title_lines ''Version (block height)'' (version_text (sd_version a)) (version_text (sd_version b))
          (sd_version a = sd_version b) @
        title_lines ''Internal substore root hash'' (sd_internal_root a) (sd_internal_root b)
          (sd_internal_root a = sd_internal_root b) @
        title_lines ''Canonical substore root hash'' (sd_canonical_root a) (sd_canonical_root b)
          (sd_canonical_root a = sd_canonical_root b) @
        [[], ''=== Key-level diff ==='',
         ''  Keys only in A: '' @ nat_display (length only_a),
         ''  Keys only in B: '' @ nat_display (length only_b),
         ''  Keys in both with different value: '' @ nat_display (length mismatch),
         ''  Total keys A: '' @ nat_display (length (sd_keys a)) @ '', B: '' @ nat_display (length (sd_keys b))] @
        keys_lines ''A'' only_a @ keys_lines ''B'' only_b @ values_lines E a b preview mismatch)"

definition diff_file_lines :: "env \<Rightarrow> path \<Rightarrow> path \<Rightarrow> storage_dump \<Rightarrow> storage_dump \<Rightarrow> string list" where
  "diff_file_lines E path_a path_b a b =
    (let only_a = only_in (sd_keys a) (sd_keys b); only_b = only_in (sd_keys b) (sd_keys a);
         mismatch = value_mismatch (sd_keys a) (sd_keys b)
     in [''# Felidae JMT state diff'', ''# A: '' @ path_display path_a, ''# B: '' @ path_display path_b,
         ''# version A='' @ nat_display (unat (sd_version a)) @ '' B='' @ nat_display (unat (sd_version b)),
         ''# internal_root A='' @ sd_internal_root a @ '' B='' @ sd_internal_root b,
         ''# canonical_root A='' @ sd_canonical_root a @ '' B='' @ sd_canonical_root b,
         ''# keys_only_in_A='' @ nat_display (length only_a) @ '' keys_only_in_B='' @ nat_display (length only_b) @
           '' value_mismatch='' @ nat_display (length mismatch),
         [], ''## Keys only in A''] @ only_a @ [[], ''## Keys only in B''] @ only_b @
        [[], ''## Value mismatch (key -> hex A | hex B)''] @
        concat (map (\<lambda>k. [k, ''  A: '' @ hex_encode E (value_of (sd_keys a) k),
          ''  B: '' @ hex_encode E (value_of (sd_keys b) k)]) mismatch))"

definition newline :: char where "newline = char_of (10 :: nat)"

text \<open>\<open>writeln!\<close> ends every line with a line feed.\<close>

definition text_of_lines :: "string list \<Rightarrow> string" where
  "text_of_lines ls = concat (map (\<lambda>l. l @ [newline]) ls)"

definition compare_state ::
  "env \<Rightarrow> (path \<Rightarrow> (u64 \<times> contents) option) \<Rightarrow> path \<Rightarrow> path \<Rightarrow> path option \<Rightarrow> nat \<Rightarrow> machine
    \<Rightarrow> machine \<times> (compare_error + unit)" where
  "compare_state E load path_a path_b output_diff preview m =
    (let m = println (''Loading storage A: '' @ path_display path_a) m in
     lift_res m (load_and_dump E load path_a ''A'') (\<lambda>a.
     let m = println (''Loading storage B: '' @ path_display path_b) m in
     lift_res m (load_and_dump E load path_b ''B'') (\<lambda>b.
     let m = fold println (report_lines E a b preview) m in
     case output_diff of None \<Rightarrow> (m, Inr ())
     | Some out \<Rightarrow>
         andthen (io CreateDiff (write_text out (text_of_lines (diff_file_lines E path_a path_b a b)) m)) (\<lambda>_ m.
         (fold println [[], ''Wrote detailed diff to '' @ path_display out] m, Inr ())))))"

section \<open>What is reported\<close>

lemma om_get_fold_put: "om_get (fold (\<lambda>(k, v). om_put k v) kvs m) = om_get m ++ map_of (rev kvs)"
  by (induction kvs arbitrary: m) (auto simp: om_get_put)

lemma om_invar_fold_put: "om_invar m \<Longrightarrow> om_invar (fold (\<lambda>(k, v). om_put k v) kvs m)"
  by (induction kvs arbitrary: m) (auto simp: om_invar_put)

lemma map_of_scan: "map_of (om_scan p m) k = (if prefix p k then map_of m k else None)"
  by (induction m) (auto simp: om_scan_def)

lemma map_of_rev_scan: "om_invar m \<Longrightarrow> map_of (rev (om_scan p m)) = map_of (om_scan p m)"
  by (rule map_of_inject_set [THEN iffD2]) (simp_all add: kv.distinct_scan rev_map [symmetric])

lemma sd_keys_eq:
  assumes "contents_ok s" "load_and_dump E load p l = Inr d" "load p = Some (v, s)"
  shows "om_invar (sd_keys d)" "om_get (sd_keys d) (substore_display sub @ ''/'' @ k) = vget sub s k"
    "om_get (sd_keys d) key \<noteq> None \<Longrightarrow> \<exists>sub k. key = substore_display sub @ ''/'' @ k"
proof -
  have inv: "om_invar (verifiable s)" using assms(1) by (simp add: contents_ok_def)
  have d: "sd_keys d = fold (\<lambda>(key, value). om_put key value) (om_scan ''canonical/'' (verifiable s))
      (fold (\<lambda>(key, value). om_put key value) (om_scan ''internal/'' (verifiable s)) om_empty)"
    using assms(2,3) by (auto simp: load_and_dump_def)
  show "om_invar (sd_keys d)" unfolding d by (intro om_invar_fold_put) (simp add: om_invar_def)
  have get: "om_get (sd_keys d) key =
      (if prefix ''internal/'' key \<or> prefix ''canonical/'' key then om_get (verifiable s) key else None)" for key
    unfolding d om_get_fold_put map_of_rev_scan [OF inv] by (auto simp: map_add_def map_of_scan split: option.splits)
  show "om_get (sd_keys d) (substore_display sub @ ''/'' @ k) = vget sub s k"
    unfolding get by (cases sub) (simp_all add: vget_def)
  show "om_get (sd_keys d) key \<noteq> None \<Longrightarrow> \<exists>sub k. key = substore_display sub @ ''/'' @ k"
  proof -
    assume "om_get (sd_keys d) key \<noteq> None"
    then consider z where "key = ''internal/'' @ z" | z where "key = ''canonical/'' @ z"
      by (auto simp: get prefix_def split: if_splits)
    then show ?thesis
    proof cases
      case (1 z)
      then show ?thesis by (intro exI [of _ Internal] exI [of _ z]) simp
    next
      case (2 z)
      then show ?thesis by (intro exI [of _ Canonical] exI [of _ z]) simp
    qed
  qed
qed

lemma set_only_in: "set (only_in a b) = {k. om_get a k \<noteq> None \<and> om_get b k = None}"
  unfolding only_in_def set_filter set_map dom_map_of_conv_image_fst [symmetric] by (auto simp: domIff)

lemma set_value_mismatch:
  "set (value_mismatch a b) = {k. om_get a k \<noteq> None \<and> om_get b k \<noteq> None \<and> om_get a k \<noteq> om_get b k}"
  unfolding value_mismatch_def set_filter set_map dom_map_of_conv_image_fst [symmetric] by (auto simp: domIff)

lemma sorted_differences:
  assumes "om_invar a"
  shows "sorted_wrt (<) (only_in a b)" "sorted_wrt (<) (value_mismatch a b)"
  using assms unfolding only_in_def value_mismatch_def om_invar_def by (simp_all add: sorted_wrt_filter)

end
