(* ===== verification/Props_Deploy.thy ===== *)
theory Props_Deploy
  imports Deploy_Create Sample_Json Compare_State Props_Clients
begin

text \<open>
  Properties of the deployer and of the commands of the operator: the ports of a network, what creating one
  leaves on the machine and what the chain starts from, how running it ends, the comparison of two
  states, and an administrator's key from its creation to a reconfiguration.
\<close>

section \<open>The ports of a network\<close>

lemma node_ports_new:
  "map node_ports (nodes (network_new c)) = map (allocate (port_strategy c)) [0..<length (nodes (network_new c))]"
proof -
  have made: "map node_ports (make_nodes c label role start n) = map (allocate (port_strategy c)) [start..<start + n]"
    for label role start n
    by (simp add: make_nodes_def node_new_def Let_def comp_def list_eq_iff_nth_eq)
  have "length (make_nodes c label role start n) = n" for label role start n by (simp add: make_nodes_def)
  then show ?thesis by (simp add: network_new_def made upt_add_eq_append [of 0 "num_validators c"])
qed

text \<open>The ports of the node with index \<open>i\<close>, as numbers.\<close>

definition port_numbers :: "nat \<Rightarrow> nat set" where
  "port_numbers i = {26656 + 100 * i, 26657 + 100 * i, 26658 + 100 * i, 8080 + 100 * i, 8081 + 100 * i}"

lemma allocate_default:
  assumes "i \<le> 388"
  shows "unat (cometbft_p2p (allocate default_strategy i)) = 26656 + 100 * i"
    "unat (cometbft_rpc (allocate default_strategy i)) = 26657 + 100 * i"
    "unat (felidae_abci (allocate default_strategy i)) = 26658 + 100 * i"
    "unat (felidae_query (allocate default_strategy i)) = 8080 + 100 * i"
    "unat (felidae_oracle (allocate default_strategy i)) = 8081 + 100 * i"
proof -
  have add: "unat (base + word_of_nat i * 100) = unat base + 100 * i" if "unat base + 100 * i < 65536" for base :: u16
  proof -
    have "base + word_of_nat i * 100 = word_of_nat (unat base + 100 * i)" by (simp add: algebra_simps)
    then have "unat (base + word_of_nat i * 100) = (unat base + 100 * i) mod 65536"
      unfolding unat_of_nat by (simp only: unat_of_nat) simp
    with that show ?thesis by simp
  qed
  show "unat (cometbft_p2p (allocate default_strategy i)) = 26656 + 100 * i"
    "unat (cometbft_rpc (allocate default_strategy i)) = 26657 + 100 * i"
    "unat (felidae_abci (allocate default_strategy i)) = 26658 + 100 * i"
    "unat (felidae_query (allocate default_strategy i)) = 8080 + 100 * i"
    "unat (felidae_oracle (allocate default_strategy i)) = 8081 + 100 * i"
    using assms by (simp_all add: allocate_def default_strategy_def default_ports Let_def add)
qed

lemma required_ports_default:
  assumes "node_ports n = allocate default_strategy i" "i \<le> 388"
  shows "distinct (map fst (required_ports_of n))" "unat ` fst ` set (required_ports_of n) \<subseteq> port_numbers i"
  using allocate_default [OF assms(2)]
  by (auto simp: required_ports_of_def Let_def assms(1) port_numbers_def dest: arg_cong [where f = unat])

definition port_index :: "nat \<Rightarrow> nat" where
  "port_index p = (if p mod 100 < 60 then (p - 26656) div 100 else (p - 8080) div 100)"

lemma port_index: "p \<in> port_numbers i \<Longrightarrow> port_index p = i"
  by (auto simp: port_numbers_def port_index_def)

lemma port_numbers_disjoint: "i \<noteq> j \<Longrightarrow> port_numbers i \<inter> port_numbers j = {}"
  using port_index by blast

lemma required_ports_apart:
  assumes "map node_ports ns = map (allocate default_strategy) [k..<k + length ns]" "k + length ns \<le> 389"
  shows "distinct (map fst (concat (map required_ports_of ns))) \<and>
    unat ` fst ` set (concat (map required_ports_of ns)) \<subseteq> (\<Union>i \<in> {k..<k + length ns}. port_numbers i)"
  using assms
proof (induction ns arbitrary: k)
  case (Cons n ns)
  have upt: "[k..<k + length (n # ns)] = k # [Suc k..<Suc k + length ns]" by (simp add: upt_rec)
  have n: "node_ports n = allocate default_strategy k" "k \<le> 388" using Cons.prems unfolding upt by simp_all
  have rest: "distinct (map fst (concat (map required_ports_of ns)))"
    "unat ` fst ` set (concat (map required_ports_of ns)) \<subseteq> (\<Union>i \<in> {Suc k..<Suc k + length ns}. port_numbers i)"
    using Cons.IH [of "Suc k"] Cons.prems unfolding upt by simp_all
  have "port_numbers k \<inter> (\<Union>i \<in> {Suc k..<Suc k + length ns}. port_numbers i) = {}"
  proof -
    have "port_numbers k \<inter> port_numbers i = {}" if "i \<in> {Suc k..<Suc k + length ns}" for i
      using that by (intro port_numbers_disjoint) simp
    then show ?thesis by blast
  qed
  with rest(2) required_ports_default(2) [OF n]
  have "unat ` fst ` set (required_ports_of n) \<inter> unat ` fst ` set (concat (map required_ports_of ns)) = {}" by blast
  then have apart: "fst ` set (required_ports_of n) \<inter> fst ` set (concat (map required_ports_of ns)) = {}" by blast
  have sub: "port_numbers k \<subseteq> (\<Union>i \<in> {k..<k + length (n # ns)}. port_numbers i)"
    "(\<Union>i \<in> {Suc k..<Suc k + length ns}. port_numbers i) \<subseteq> (\<Union>i \<in> {k..<k + length (n # ns)}. port_numbers i)"
    by (rule UN_upper, simp) (rule UN_mono; simp add: subset_iff)
  have "unat ` fst ` set (concat (map required_ports_of (n # ns))) \<subseteq>
      (\<Union>i \<in> {k..<k + length (n # ns)}. port_numbers i)"
    unfolding list.map concat.simps set_append image_Un
    by (intro Un_least subset_trans [OF required_ports_default(2) [OF n] sub(1)] subset_trans [OF rest(2) sub(2)])
  then show ?case
    using required_ports_default(1) [OF n] rest(1) apart
    unfolding list.map concat.simps map_append distinct_append set_map by (intro conjI)
qed simp

text \<open>C32: With the default strategy and up to 389 nodes no two processes of a network are given the same
  port, and every port is the base of its kind plus 100 times the index of the node, without wrapping; the
  check before a run succeeds exactly when each of them is free. The P2P port of a 390th node wraps to
  20.\<close>

theorem network_ports_are_distinct:
  assumes "port_strategy c = default_strategy" "length (nodes (network_new c)) \<le> 389"
  shows "distinct (map fst (collect_required_ports (network_new c))) \<and>
    (\<forall>i < length (nodes (network_new c)). let ps = node_ports (nodes (network_new c) ! i) in
      map unat [cometbft_p2p ps, cometbft_rpc ps, felidae_abci ps, felidae_query ps, felidae_oracle ps] =
      map (\<lambda>base. base + 100 * i) [26656, 26657, 26658, 8080, 8081]) \<and>
    (network_check_ports port_free (network_new c) = Inr () \<longleftrightarrow>
      (\<forall>(port, what) \<in> set (collect_required_ports (network_new c)). port_free port)) \<and>
    cometbft_p2p (allocate default_strategy 389) = 20"
proof (intro conjI)
  have ports: "map node_ports (nodes (network_new c)) = map (allocate default_strategy) [0..<length (nodes (network_new c))]"
    by (subst node_ports_new) (simp add: assms(1))
  then show "distinct (map fst (collect_required_ports (network_new c)))"
    using required_ports_apart [of _ 0] assms(2) by (simp add: collect_required_ports_def)
  have "node_ports (nodes (network_new c) ! i) = allocate default_strategy i" if "i < length (nodes (network_new c))" for i
    using arg_cong [OF ports, of "\<lambda>xs. xs ! i"] that by simp
  then show "\<forall>i < length (nodes (network_new c)). let ps = node_ports (nodes (network_new c) ! i) in
      map unat [cometbft_p2p ps, cometbft_rpc ps, felidae_abci ps, felidae_query ps, felidae_oracle ps] =
      map (\<lambda>base. base + 100 * i) [26656, 26657, 26658, 8080, 8081]"
    using assms(2) by (simp add: Let_def allocate_default)
  show "network_check_ports port_free (network_new c) = Inr () \<longleftrightarrow>
      (\<forall>(port, what) \<in> set (collect_required_ports (network_new c)). port_free port)"
    by (auto simp: network_check_ports_def check_ports_available_def Let_def filter_empty_conv)
  show "cometbft_p2p (allocate default_strategy 389) = 20"
    by (simp add: allocate_def default_strategy_def default_ports)
qed

theorem network_ports_are_distinct_witness:
  "distinct (map fst (collect_required_ports (network_new (default_network_config\<lparr>num_validators := 4, use_sentries := True\<rparr>))))"
  using network_ports_are_distinct [of "default_network_config\<lparr>num_validators := 4, use_sentries := True\<rparr>"]
  by (simp add: default_network_config_def network_new_def make_nodes_def)

section \<open>A network that was created\<close>

lemma validators_filter: "filter (\<lambda>n. is_validator (node_role n)) (nodes net) = validators net"
proof -
  have "is_validator r = (r = ValidatorRole)" for r by (cases r) simp_all
  then show ?thesis by (simp add: validators_def)
qed

lemma length_validators_new: "length (validators (network_new c)) = num_validators c"
proof -
  have "filter (\<lambda>n. node_role n = ValidatorRole) (make_nodes c label role start n) =
      (if role = ValidatorRole then make_nodes c label role start n else [])" for label role start n
    by (simp add: make_nodes_def node_new_def Let_def filter_empty_conv)
  then show ?thesis by (simp add: validators_def network_new_def) (simp add: make_nodes_def)
qed

lemma length_validators_cong:
  assumes "map node_role (nodes net) = map node_role (nodes net')"
  shows "length (validators net) = length (validators net')"
proof -
  have roles: "length (validators n) = length (filter (\<lambda>r. r = ValidatorRole) (map node_role (nodes n)))" for n
    by (simp add: validators_def filter_map comp_def)
  show ?thesis by (simp only: roles assms)
qed

lemma bft_quorum_bounds:
  assumes "1 \<le> n" "n < 2 ^ 62"
  shows "unat (bft_quorum n) \<le> n \<and> 2 * n < 3 * unat (bft_quorum n)"
proof -
  have "n * 2 div 3 + 1 \<le> n" "2 * n < 3 * (n * 2 div 3 + 1)" using assms(1) by arith+
  moreover have "unat (bft_quorum n) = n * 2 div 3 + 1"
    using assms(2) calculation(1) unfolding bft_quorum_def unat_of_nat by simp
  ultimately show ?thesis by simp
qed

text \<open>C19: In a workspace creating a network succeeds: it has the planned nodes, one genesis document is
  shared by all of them, and the configuration in its application state authorises exactly the admin and
  oracle keys found in the validators' key files, with quorums above two thirds of the total and at most
  the total. A chain initialised with that application state has that configuration and is well
  formed.\<close>

theorem created_network_starts_chain:
  assumes "deploy_ok E C D" "workspace (directory c) m" "check_target (directory c) m = Inr ()"
    and "1 \<le> num_validators c" "num_validators c < 2 ^ 62"
  shows "\<exists>m' net t doc app cfg. create_network E C D c od ad m = (m', Inr net) \<and>
    map (\<lambda>n. (home_dir n, node_role n, node_ports n)) (nodes net) =
      map (\<lambda>n. (home_dir n, node_role n, node_ports n)) (nodes (network_new c)) \<and>
    (\<forall>n \<in> set (nodes net). files m' (genesis_path n) = Some (as_bytes t)) \<and>
    json_from_slice E (as_bytes t) = Some doc \<and> json_get ''app_state'' doc = Some app \<and>
    json_get ''chain_id'' doc = Some (JString (nc_chain_id c)) \<and>
    map (\<lambda>a. Inr (admin_identity a)) (a_authorized (admins cfg)) =
      map (\<lambda>n. public_key_of E C (admin_key_path n) m') (validators net) \<and>
    map (\<lambda>a. Inr (or_identity a)) (o_authorized (oracles cfg)) =
      map (\<lambda>n. public_key_of E C (oracle_key_path n) m') (validators net) \<and>
    (\<forall>v \<in> {a_voting (admins cfg), o_voting (oracles cfg)}.
      unat (total v) = num_validators c \<and> quorum v \<le> total v \<and> 2 * num_validators c < 3 * unat (quorum v)) \<and>
    (\<forall>req. ic_initial_height req = 1 \<longrightarrow> validators_ok E (ic_validators req) \<longrightarrow> ic_chain_id req \<noteq> [] \<longrightarrow>
      ic_app_state_bytes req \<noteq> [] \<longrightarrow> json_from_slice E (ic_app_state_bytes req) = Some app \<longrightarrow>
      (\<exists>s' resp. init_chain E req empty_contents = (s', Inr resp) \<and>
        chain_ok E s' \<and> config E s' = Inr (config_norm cfg)))"
proof -
  obtain m' net cfg t doc j entries where n: "create_network E C D c od ad m = (m', Inr net)"
    "list_all2 (\<lambda>n n'. \<exists>nid. n' = n\<lparr>node_id := Some nid\<rparr>) (nodes (network_new c)) (nodes net)"
    "genesis_everywhere net t m'" "json_from_slice E (as_bytes t) = Some doc"
    "json_get ''chain_id'' doc = Some (JString (nc_chain_id c))"
    "json_get ''app_state'' doc = Some (json_object [(''config'', j)])" "config_from_json E j = Some cfg"
    "generate_felidae_config E C net od ad m' = Inr cfg"
    by (rule create_network_effect [OF assms(1-3)])
  have same: "map (\<lambda>n. (home_dir n, node_role n, node_ports n)) (nodes net) =
      map (\<lambda>n. (home_dir n, node_role n, node_ports n)) (nodes (network_new c))"
    using n(2) by (induction rule: list_all2_induct) auto
  have len: "length (validators net) = num_validators c"
    using length_validators_cong [OF nodes_updated(2) [OF n(2)]] by (simp add: length_validators_new)
  have tot: "unat (word_of_nat (num_validators c) :: u64) = num_validators c"
    using assms(5) unfolding unat_of_nat by simp
  note facts = generate_felidae_config_facts [OF n(8), unfolded validators_filter]
  have voting: "\<forall>v \<in> {a_voting (admins cfg), o_voting (oracles cfg)}.
      unat (total v) = num_validators c \<and> quorum v \<le> total v \<and> 2 * num_validators c < 3 * unat (quorum v)"
    using bft_quorum_bounds [OF assms(4,5)] by (simp add: facts(2,3) len tot word_le_nat_alt)
  have init: "\<exists>s' resp. init_chain E req empty_contents = (s', Inr resp) \<and>
        chain_ok E s' \<and> config E s' = Inr (config_norm cfg)"
    if req: "ic_initial_height req = 1" "validators_ok E (ic_validators req)" "ic_chain_id req \<noteq> []"
      "ic_app_state_bytes req \<noteq> []" "json_from_slice E (ic_app_state_bytes req) = Some (json_object [(''config'', j)])" for req
  proof -
    have "genesis_config E (ic_app_state_bytes req) = Inr cfg"
      using req(4,5) n(7) by (simp add: genesis_config_def json_get_object)
    from init_chain_effect [OF deploy_okD(1) [OF assms(1)] req(1-3) this]
    obtain s' r where "init_chain E req empty_contents = (s', Inr r)" "state_ok E s'" "config E s' = Inr (config_norm cfg)"
      "vget Canonical s' = Map.empty" by metis
    then show ?thesis by (auto simp: chain_ok_def canonical_ok_def)
  qed
  show ?thesis
    using n(3) same facts(4,5) voting init n(1,4-6)
    by (intro exI [of _ m'] exI [of _ net] exI [of _ t] exI [of _ doc] exI [of _ "json_object [(''config'', j)]"] exI [of _ cfg])
      (simp add: genesis_everywhere_def)
qed

lemma sample_genesis_request:
  assumes "json_ok app"
  defines "req \<equiv> sample_genesis\<lparr>ic_app_state_bytes := as_bytes (sample_json_text app)\<rparr>"
  shows "ic_initial_height req = 1" "validators_ok deploy_sample_env (ic_validators req)" "ic_chain_id req \<noteq> []"
    "ic_app_state_bytes req \<noteq> []" "json_from_slice deploy_sample_env (ic_app_state_bytes req) = Some app"
proof -
  show "ic_initial_height req = 1" "ic_chain_id req \<noteq> []" "validators_ok deploy_sample_env (ic_validators req)"
    using sample_genesis_ok(3)
    by (simp_all add: req_def sample_genesis_def validators_ok_def deploy_sample_env_def)
  show parse: "json_from_slice deploy_sample_env (ic_app_state_bytes req) = Some app"
    using sample_json_text_ok(2) [OF assms(1)] by (simp add: req_def deploy_sample_env_def)
  have "sample_json_parse [] = None" by code_simp
  then show "ic_app_state_bytes req \<noteq> []" using parse by (auto simp: deploy_sample_env_def)
qed

lemma sample_json_ok: "json_from_slice deploy_sample_env b = Some v \<Longrightarrow> json_ok v"
  using deploy_okD(4) [OF deploy_sample_ok] by (auto simp: json_texts_ok_def)

lemma json_get_ok: "json_get k v = Some x \<Longrightarrow> json_ok v \<Longrightarrow> json_ok x"
  using json_ok_index [of v k] by (simp add: json_index_def)

theorem created_network_starts_chain_witness:
  "\<exists>m' net cfg app s' resp. create_network deploy_sample_env sample_pkcs8 sample_deploy
      (default_network_config\<lparr>num_validators := 3, directory := sample_dir\<rparr>) 0 0 sample_machine = (m', Inr net) \<and>
    length (nodes net) = 3 \<and> unat (quorum (a_voting (admins cfg))) = 3 \<and> length (a_authorized (admins cfg)) = 3 \<and>
    init_chain deploy_sample_env (sample_genesis\<lparr>ic_app_state_bytes := as_bytes (sample_json_text app)\<rparr>) empty_contents =
      (s', Inr resp) \<and> config deploy_sample_env s' = Inr (config_norm cfg)"
proof -
  let ?c = "default_network_config\<lparr>num_validators := 3, directory := sample_dir\<rparr>"
  have c: "workspace (directory ?c) sample_machine" "check_target (directory ?c) sample_machine = Inr ()"
    "1 \<le> num_validators ?c" "num_validators ?c < 2 ^ 62" "num_validators ?c = 3"
    using sample_workspace by simp_all
  obtain m' net t doc app cfg where n: "create_network deploy_sample_env sample_pkcs8 sample_deploy ?c 0 0 sample_machine = (m', Inr net)"
    "map (\<lambda>n. (home_dir n, node_role n, node_ports n)) (nodes net) =
      map (\<lambda>n. (home_dir n, node_role n, node_ports n)) (nodes (network_new ?c))"
    "json_from_slice deploy_sample_env (as_bytes t) = Some doc" "json_get ''app_state'' doc = Some app"
    "map (\<lambda>a. Inr (admin_identity a)) (a_authorized (admins cfg)) =
      map (\<lambda>n. public_key_of deploy_sample_env sample_pkcs8 (admin_key_path n) m') (validators net)"
    "\<forall>v \<in> {a_voting (admins cfg), o_voting (oracles cfg)}.
      unat (total v) = num_validators ?c \<and> quorum v \<le> total v \<and> 2 * num_validators ?c < 3 * unat (quorum v)"
    "\<forall>req. ic_initial_height req = 1 \<longrightarrow> validators_ok deploy_sample_env (ic_validators req) \<longrightarrow> ic_chain_id req \<noteq> [] \<longrightarrow>
      ic_app_state_bytes req \<noteq> [] \<longrightarrow> json_from_slice deploy_sample_env (ic_app_state_bytes req) = Some app \<longrightarrow>
      (\<exists>s' resp. init_chain deploy_sample_env req empty_contents = (s', Inr resp) \<and>
        chain_ok deploy_sample_env s' \<and> config deploy_sample_env s' = Inr (config_norm cfg))"
    by (rule exE [OF created_network_starts_chain [OF deploy_sample_ok c(1-4), of 0 0]],
        elim exE conjE) (rule that)
  have "length (nodes (network_new ?c)) = 3"
    by (simp add: network_new_def default_network_config_def make_nodes_def)
  moreover have "length (nodes net) = length (nodes (network_new ?c))" using arg_cong [OF n(2), of length] by simp
  moreover have "length (validators net) = num_validators ?c"
  proof -
    have "map node_role (nodes net) = map node_role (nodes (network_new ?c))"
      using arg_cong [OF n(2), of "map (\<lambda>(h, r, p). r)"] by (simp add: comp_def)
    from length_validators_cong [OF this] show ?thesis by (simp only: length_validators_new)
  qed
  moreover have "unat (quorum (a_voting (admins cfg))) = 3" using n(6) by (auto simp: c(5) word_le_nat_alt)
  moreover have "length (a_authorized (admins cfg)) = length (validators net)" using arg_cong [OF n(5), of length] by simp
  moreover have "json_ok app" by (rule json_get_ok [OF n(4) sample_json_ok [OF n(3)]])
  with n(7) sample_genesis_request
  obtain s' resp where "init_chain deploy_sample_env
      (sample_genesis\<lparr>ic_app_state_bytes := as_bytes (sample_json_text app)\<rparr>) empty_contents = (s', Inr resp)"
    "config deploy_sample_env s' = Inr (config_norm cfg)" by metis
  ultimately show ?thesis using n(1) c(5) by auto
qed

section \<open>Running a network\<close>

definition child_names :: "run_args \<Rightarrow> network \<Rightarrow> string list" where
  "child_names a net = map fst (concat (map (node_commands a) (nodes net)))"

definition shutdown_round :: "run_args \<Rightarrow> network \<Rightarrow> supervision_round \<Rightarrow> bool" where
  "shutdown_round a net r =
    (ctrlc_pressed r \<or> (\<exists>name \<in> set (child_names a net). \<exists>success. poll_child r name = Exited success))"

lemma exited_children_iff:
  "exited_children r names \<noteq> [] \<longleftrightarrow> (\<exists>name \<in> set names. \<exists>success. poll_child r name = Exited success)"
proof -
  have "(case p of Exited success \<Rightarrow> True | StillRunning \<Rightarrow> False | PollFailed \<Rightarrow> False) \<longleftrightarrow> (\<exists>success. p = Exited success)"
    for p by (cases p) simp_all
  then show ?thesis by (simp add: filter_empty_conv)
qed

lemma run_started:
  assumes "missing_binaries W a = []" "network_check_ports (can_bind W) net = Inr ()" "ctrlc_handler_set W"
    and "\<forall>name \<in> set (child_names a net). spawns W name"
  shows "run_processes_directly W a net m =
    (if \<exists>r \<in> set (rounds W). shutdown_round a net r then ((print_node_info net m, []), Some (Inr ()))
     else ((print_node_info net m, child_names a net), None))"
proof -
  let ?ps = "concat (map (node_commands a) (nodes net))"
  have "\<forall>p \<in> set ?ps. spawns W (fst p)" using assms(4) unfolding child_names_def set_map by blast
  then have "for_each (start_process W) ?ps [] = (child_names a net, Inr ())"
    unfolding for_each_start child_names_def by (simp add: takeWhile_eq_all_conv [THEN iffD2])
  moreover have "supervise (child_names a net) False (rounds W) = Some () \<longleftrightarrow> (\<exists>r \<in> set (rounds W). shutdown_round a net r)"
    unfolding supervise_returns_iff exited_children_iff shutdown_round_def by blast
  ultimately show ?thesis
    using assms(1-3) by (cases "supervise (child_names a net) False (rounds W)") (simp_all add: run_processes_directly_def)
qed

lemma run_start_fails:
  assumes "missing_binaries W a = []" "network_check_ports (can_bind W) net = Inr ()" "ctrlc_handler_set W"
    and "child_names a net = before @ name # after" "\<forall>b \<in> set before. spawns W b" "\<not> spawns W name"
  shows "run_processes_directly W a net m = ((m, before), Some (Inl (StartFailed name)))"
proof -
  let ?ps = "concat (map (node_commands a) (nodes net))"
  obtain us p vs where ps: "?ps = us @ p # vs" "map fst us = before" "fst p = name"
    using assms(4) unfolding child_names_def map_eq_append_conv map_eq_Cons_conv by auto
  have us: "spawns W (fst u)" if "u \<in> set us" for u using assms(5) that unfolding ps(2) [symmetric] by simp
  have "takeWhile (\<lambda>p. spawns W (fst p)) ?ps = us" "dropWhile (\<lambda>p. spawns W (fst p)) ?ps = p # vs"
    using us assms(6) ps(3) unfolding ps(1) by (simp_all add: takeWhile_append2 dropWhile_append2)
  then have "for_each (start_process W) ?ps [] = (before, Inl (StartFailed name))"
    using assms(6) ps unfolding for_each_start by auto
  then show ?thesis using assms(1-3) by (simp add: run_processes_directly_def)
qed

text \<open>C31: When the binaries and ports are there, running a network directly returns if and only if Ctrl+C
  is pressed or a child exits in some round of the supervision; it then succeeds and no child is left. A
  process that does not start makes the command fail at once, with the children started before it still
  running. Missing binaries or ports make it fail before anything is started.\<close>

theorem run_returns_on_shutdown:
  shows "(missing_binaries W a = [] \<and> network_check_ports (can_bind W) net = Inr () \<and> ctrlc_handler_set W \<longrightarrow>
      ((\<forall>name \<in> set (child_names a net). spawns W name) \<longrightarrow>
        (snd (run_processes_directly W a net m) \<noteq> None \<longleftrightarrow> (\<exists>r \<in> set (rounds W). shutdown_round a net r)) \<and>
        (\<forall>result. snd (run_processes_directly W a net m) = Some result \<longrightarrow>
          result = Inr () \<and> snd (fst (run_processes_directly W a net m)) = [])) \<and>
      (\<forall>before name after. child_names a net = before @ name # after \<longrightarrow> \<not> spawns W name \<longrightarrow>
        (\<forall>b \<in> set before. spawns W b) \<longrightarrow>
        run_processes_directly W a net m = ((m, before), Some (Inl (StartFailed name))))) \<and>
    (missing_binaries W a \<noteq> [] \<or> (\<exists>(port, what) \<in> set (collect_required_ports net). \<not> can_bind W port) \<longrightarrow>
      (\<exists>e. run_processes_directly W a net m = ((m, []), Some (Inl e))))"
proof (intro conjI impI, goal_cases)
  case 1
  then show ?case using run_started [of W a net m] by auto
next
  case 2
  then show ?case using run_started [of W a net m] by auto
next
  case 3
  then show ?case using run_start_fails [of W a net _ _ _ m] by blast
next
  case 4
  show ?case
  proof (cases "missing_binaries W a = []")
    case True
    with 4 have "network_check_ports (can_bind W) net \<noteq> Inr ()"
      by (auto simp: network_check_ports_def check_ports_available_def Let_def filter_empty_conv)
    then show ?thesis using True by (cases "network_check_ports (can_bind W) net") (simp_all add: run_processes_directly_def)
  qed (simp add: run_processes_directly_def Let_def)
qed

definition sample_world :: world where
  "sample_world =
    \<lparr>binary_found = (\<lambda>b. True), can_bind = (\<lambda>p. True), ctrlc_handler_set = True,
     spawns = (\<lambda>name. name \<noteq> ''validator-0-oracle''),
     rounds = [\<lparr>ctrlc_pressed = False, poll_child = (\<lambda>name. StillRunning)\<rparr>, \<lparr>ctrlc_pressed = True, poll_child = (\<lambda>name. StillRunning)\<rparr>],
     built_felidae = None, temp_dir = None, release_build = True, current_dir = None, compose_succeeds = True\<rparr>"

definition sample_run_args :: run_args where
  "sample_run_args =
    \<lparr>run_directory = None, use_process_compose = False, felidae_bin = ''felidae'', cometbft_bin = ''cometbft'', dev = False\<rparr>"

lemma nat_display_0: "nat_display 0 = ''0''"
  by code_simp

lemma sample_children:
  "child_names sample_run_args (network_new default_network_config) =
    [''validator-0-cometbft'', ''validator-0-felidae''] @ ''validator-0-oracle'' # []"
  by (simp add: child_names_def node_commands_def network_new_def default_network_config_def make_nodes_def node_new_def Let_def
      nat_display_0)

theorem run_returns_on_shutdown_witness:
  "snd (run_processes_directly (sample_world\<lparr>spawns := \<lambda>name. True\<rparr>) sample_run_args (network_new default_network_config)
      sample_machine) = Some (Inr ()) \<and>
   run_processes_directly sample_world sample_run_args (network_new default_network_config) sample_machine =
     ((sample_machine, [''validator-0-cometbft'', ''validator-0-felidae'']), Some (Inl (StartFailed ''validator-0-oracle'')))"
proof
  have pre: "missing_binaries W sample_run_args = []" "network_check_ports (can_bind W) net = Inr ()" "ctrlc_handler_set W"
    if "W = sample_world \<or> W = sample_world\<lparr>spawns := \<lambda>name. True\<rparr>" for W net
    using that by (auto simp: missing_binaries_def network_check_ports_def check_ports_available_def sample_world_def case_prod_beta)
  let ?W = "sample_world\<lparr>spawns := \<lambda>name. True\<rparr>" and ?net = "network_new default_network_config"
  have "\<exists>r \<in> set (rounds ?W). shutdown_round sample_run_args ?net r" by (simp add: shutdown_round_def sample_world_def)
  moreover have "\<forall>name \<in> set (child_names sample_run_args ?net). spawns ?W name" by simp
  ultimately obtain result where "snd (run_processes_directly ?W sample_run_args ?net sample_machine) = Some result"
      "result = Inr ()"
    using run_returns_on_shutdown [of ?W sample_run_args ?net sample_machine] pre [of ?W] by blast
  then show "snd (run_processes_directly ?W sample_run_args ?net sample_machine) = Some (Inr ())" by simp
  have "\<not> spawns sample_world ''validator-0-oracle''"
    "\<forall>b \<in> set [''validator-0-cometbft'', ''validator-0-felidae'']. spawns sample_world b"
    by (simp_all add: sample_world_def)
  then show "run_processes_directly sample_world sample_run_args ?net sample_machine =
     ((sample_machine, [''validator-0-cometbft'', ''validator-0-felidae'']), Some (Inl (StartFailed ''validator-0-oracle'')))"
    using run_returns_on_shutdown [of sample_world sample_run_args ?net sample_machine] pre [of sample_world] sample_children
    by blast
qed

section \<open>Comparing two states\<close>

lemma differing_keys:
  assumes "contents_ok s" "load_and_dump E load p l = Inr a" "load p = Some (v, s)"
    and "contents_ok s'" "load_and_dump E load p' l' = Inr b" "load p' = Some (v', s')"
  shows "set (only_in (sd_keys a) (sd_keys b)) =
      {substore_display sub @ ''/'' @ k | sub k. vget sub s k \<noteq> None \<and> vget sub s' k = None}"
    "set (value_mismatch (sd_keys a) (sd_keys b)) =
      {substore_display sub @ ''/'' @ k | sub k. vget sub s k \<noteq> None \<and> vget sub s' k \<noteq> None \<and> vget sub s k \<noteq> vget sub s' k}"
proof -
  note a = sd_keys_eq(2,3) [OF assms(1-3)] and b = sd_keys_eq(2,3) [OF assms(4-6)]
  show "set (only_in (sd_keys a) (sd_keys b)) =
      {substore_display sub @ ''/'' @ k | sub k. vget sub s k \<noteq> None \<and> vget sub s' k = None}"
    unfolding set_only_in using a b by (intro Collect_cong) metis
  show "set (value_mismatch (sd_keys a) (sd_keys b)) =
      {substore_display sub @ ''/'' @ k | sub k. vget sub s k \<noteq> None \<and> vget sub s' k \<noteq> None \<and> vget sub s k \<noteq> vget sub s' k}"
    unfolding set_value_mismatch using a b by (intro Collect_cong) metis
qed

lemma fold_println: "printed (fold println ls m) = printed m @ ls"
  by (induction ls arbitrary: m) (simp_all add: println_def)

text \<open>C33: Comparing two directories that load prints the report of the two dumps; the lists in it are, in
  ascending order, exactly the keys of either substore that only one of them has or that have different
  values; all of them are empty if and only if the verifiable contents of the two states are the
  same. How a report lays its lines out is not part of the claim.\<close>

theorem compare_state_reports_differences:
  assumes "contents_ok s" "load p = Some (v, s)" "contents_ok s'" "load p' = Some (v', s')"
  shows "\<exists>a b m'. compare_state E load p p' None preview m = (m', Inr ()) \<and>
    printed m' = printed m @ [''Loading storage A: '' @ path_display p, ''Loading storage B: '' @ path_display p'] @
      report_lines E a b preview \<and>
    sd_version a = v \<and> sd_version b = v' \<and>
    sorted_wrt (<) (only_in (sd_keys a) (sd_keys b)) \<and> sorted_wrt (<) (only_in (sd_keys b) (sd_keys a)) \<and>
    sorted_wrt (<) (value_mismatch (sd_keys a) (sd_keys b)) \<and>
    set (only_in (sd_keys a) (sd_keys b)) =
      {substore_display sub @ ''/'' @ k | sub k. vget sub s k \<noteq> None \<and> vget sub s' k = None} \<and>
    set (only_in (sd_keys b) (sd_keys a)) =
      {substore_display sub @ ''/'' @ k | sub k. vget sub s' k \<noteq> None \<and> vget sub s k = None} \<and>
    set (value_mismatch (sd_keys a) (sd_keys b)) =
      {substore_display sub @ ''/'' @ k | sub k. vget sub s k \<noteq> None \<and> vget sub s' k \<noteq> None \<and> vget sub s k \<noteq> vget sub s' k} \<and>
    (only_in (sd_keys a) (sd_keys b) = [] \<and> only_in (sd_keys b) (sd_keys a) = [] \<and>
       value_mismatch (sd_keys a) (sd_keys b) = [] \<longleftrightarrow> (\<forall>sub. vget sub s = vget sub s'))"
proof -
  obtain a where a: "load_and_dump E load p ''A'' = Inr a" "sd_version a = v" using assms(2) by (auto simp: load_and_dump_def)
  obtain b where b: "load_and_dump E load p' ''B'' = Inr b" "sd_version b = v'" using assms(4) by (auto simp: load_and_dump_def)
  note ab = differing_keys [OF assms(1) a(1) assms(2,3) b(1) assms(4)]
    and ba = differing_keys [OF assms(3) b(1) assms(4,1) a(1) assms(2)]
  have empty: "xs = [] \<longleftrightarrow> set xs = {}" for xs :: "string list" by simp
  have none: "{substore_display sub @ ''/'' @ k | sub k. P sub k} = {} \<longleftrightarrow> (\<forall>sub k. \<not> P sub k)" for P by blast
  have same: "only_in (sd_keys a) (sd_keys b) = [] \<and> only_in (sd_keys b) (sd_keys a) = [] \<and>
       value_mismatch (sd_keys a) (sd_keys b) = [] \<longleftrightarrow> (\<forall>sub k. vget sub s k = vget sub s' k)"
    unfolding empty ab ba(1) none by metis
  let ?m = "fold println (report_lines E a b preview)
      (println (''Loading storage B: '' @ path_display p') (println (''Loading storage A: '' @ path_display p) m))"
  have "compare_state E load p p' None preview m = (?m, Inr ())" by (simp add: compare_state_def a(1) b(1))
  moreover have "printed ?m = printed m @ [''Loading storage A: '' @ path_display p, ''Loading storage B: '' @ path_display p'] @
      report_lines E a b preview" by (simp only: fold_println) (simp add: println_def)
  moreover have "(\<forall>sub k. vget sub s k = vget sub s' k) \<longleftrightarrow> (\<forall>sub. vget sub s = vget sub s')" by (simp add: fun_eq_iff)
  ultimately show ?thesis
    using a(2) b(2) sorted_differences [OF sd_keys_eq(1) [OF assms(1) a(1) assms(2)]]
      sorted_differences(1) [OF sd_keys_eq(1) [OF assms(3) b(1) assms(4)]] ab ba(1) same
    by (intro exI [of _ a] exI [of _ b] exI [of _ ?m] conjI) simp_all
qed

theorem compare_state_reports_differences_witness:
  "\<exists>(a :: storage_dump) (b :: storage_dump) m'. compare_state sample_env [[] \<mapsto> (1, sample_state), [''b''] \<mapsto> (2, empty_contents)] [] [''b''] None 32 sample_machine =
      (m', Inr ()) \<and>
    set (only_in (sd_keys a) (sd_keys b)) = {substore_display sub @ ''/'' @ k | sub k. vget sub sample_state k \<noteq> None}"
proof -
  have l: "[[] \<mapsto> (1 :: u64, sample_state), [''b''] \<mapsto> (2, empty_contents)] [] = Some (1, sample_state)"
    "[[] \<mapsto> (1 :: u64, sample_state), [''b''] \<mapsto> (2, empty_contents)] [''b''] = Some (2, empty_contents)"
    by simp_all
  from compare_state_reports_differences [OF contents_ok_sample(1) l(1) contents_ok_empty l(2), of sample_env 32 sample_machine]
  obtain a b :: storage_dump and m' where c: "compare_state sample_env [[] \<mapsto> (1, sample_state), [''b''] \<mapsto> (2, empty_contents)] [] [''b''] None 32
      sample_machine = (m', Inr ())"
    and d: "set (only_in (sd_keys a) (sd_keys b)) = {substore_display sub @ ''/'' @ k | sub k. vget sub sample_state k \<noteq> None}"
    unfolding get_empty simp_thms by (elim exE conjE) (rule that)
  show ?thesis by (intro exI conjI) (rule c, rule d)
qed

section \<open>An administrator's key\<close>

lemma dotted_key_file: "dotted (key_file_name r)"
  by (cases r) simp_all

lemma home_workspace:
  assumes "workspace home m"
  obtains ds where "create_dir_all home m = (m\<lparr>dirs := ds\<rparr>, Inr ())" "workspace home (m\<lparr>dirs := ds\<rparr>)"
    "home = [] \<or> home \<in> ds"
proof -
  have none: "\<forall>c \<in> set []. \<not> dotted c" by simp
  obtain m1 where m1: "create_dir_all home m = (m1, Inr ())" "workspace home m1" "home = [] \<or> home \<in> dirs m1"
    "m1 = m\<lparr>dirs := dirs m1\<rparr>" "dirs m \<subseteq> dirs m1"
    by (rule create_dir_all_workspace [OF assms none, unfolded append_Nil2])
  show thesis by (rule that [of "dirs m1", folded m1(4)]) (rule m1(1-3))+
qed

lemma keypath_workspace:
  assumes "workspace home m"
  obtains ds where "keypath H r (Some home) m = (m\<lparr>dirs := ds\<rparr>, Inr (home @ [key_file_name r]))"
    "workspace home (m\<lparr>dirs := ds\<rparr>)" "home = [] \<or> home \<in> ds"
  by (rule home_workspace [OF assms]) (simp add: keypath_def key_dir_def that)

lemma key_init_effect:
  assumes "env_ok E" "hex_digits E" "pkcs8_total C" "workspace home m" "files m (home @ [key_file_name r]) = None"
  obtains m' b where "key_init E C H r (Some home) m = (m', Inr ())" "workspace home m'"
    "keypair_decode C b = Some (KeyPair (entropy m (drawn m)))"
    "files m' = (files m)(home @ [key_file_name r] \<mapsto> as_bytes (hex_encode E b))"
proof -
  let ?p = "home @ [key_file_name r]" and ?kp = "KeyPair (entropy m (drawn m))"
  obtain ds where m1: "keypath H r (Some home) m = (m\<lparr>dirs := ds\<rparr>, Inr ?p)" "workspace home (m\<lparr>dirs := ds\<rparr>)" "home = [] \<or> home \<in> ds"
    by (rule keypath_workspace [OF assms(4)])
  obtain b where b: "keypair_encode C ?kp = Some b" "keypair_decode C b = Some ?kp" using assms(3) by (auto simp: pkcs8_total_def)
  define m2 where "m2 = println (''Writing new '' @ role_name r @ '' keypair to: '' @ path_display ?p) (m\<lparr>dirs := ds, drawn := Suc (drawn m)\<rparr>)"
  have ws: "workspace home m2" using m1(2) by (simp add: m2_def println_def workspace_def)
  have "home @ [] = [] \<or> home @ [] \<in> dirs m2" using m1(3) by (simp add: m2_def println_def)
  note w = write_text_in(2) [OF ws this dotted_key_file [of r], of ?p]
    write_file_workspace(1) [OF ws this dotted_key_file [of r], of "as_bytes (hex_encode E b)"]
  have "strict_prefix home ?p" "prefix home ?p" "last ?p = key_file_name r" by (simp_all add: strict_prefix_def)
  then have "?p \<notin> ds" using m1(2) [unfolded workspace_def, THEN spec, of ?p] dotted_key_file [of r] by simp
  then have "\<not> path_exists ?p (m\<lparr>dirs := ds\<rparr>)" using assms(5) by (simp add: path_exists_def)
  then have "key_init E C H r (Some home) m = io Io (write_text ?p (hex_encode E b) m2)"
    using m1(1) b(1) by (simp add: key_init_def draw_def m2_def)
  then have "key_init E C H r (Some home) m = (m2\<lparr>files := (files m2)(?p \<mapsto> as_bytes (hex_encode E b))\<rparr>, Inr ())"
    using w(2) by (simp add: write_text_def)
  then show thesis by (rule that) (use w(1) b(2) in \<open>simp_all add: m2_def println_def\<close>)
qed

lemma keypair_kept:
  assumes "env_ok E" "hex_digits E" "workspace home m" "keypair_decode C b = Some kp"
    and "files m (home @ [key_file_name r]) = Some (as_bytes (hex_encode E b))"
  obtains ds where "keypair E C H r (Some home) m = (m\<lparr>dirs := ds\<rparr>, Inr kp)"
    "key_init E C H r (Some home) m = (m\<lparr>dirs := ds\<rparr>, Inl (KeypairExists (home @ [key_file_name r])))"
proof -
  obtain ds where "keypath H r (Some home) m = (m\<lparr>dirs := ds\<rparr>, Inr (home @ [key_file_name r]))"
    by (rule keypath_workspace [OF assms(3)])
  moreover have "keypair_at E C (home @ [key_file_name r]) (m\<lparr>dirs := ds\<rparr>) = Inr kp"
    by (rule keypair_written [OF assms(1,2,4)]) (simp add: assms(5))
  moreover have "path_exists (home @ [key_file_name r]) (m\<lparr>dirs := ds\<rparr>)" by (simp add: path_exists_def assms(5))
  ultimately show thesis by (intro that [of ds]) (simp_all add: keypair_def key_init_def)
qed

text \<open>C30: In a home directory without a key, the command init draws a key pair and writes it; a second one
  fails and leaves the key. The command config then submits exactly one transaction: the authentic
  reconfiguration to the configuration in the file, by that key, valid from the grace period before
  now to the timeout after now. The bound of the window that is not a time makes it fail.\<close>

theorem admin_key_reconfigures:
  assumes "env_ok E" "ecdsa_correct E" "hex_digits E" "pkcs8_total C" "time_ok now"
    and "workspace home m" "files m (home @ [''admin_key.pkcs8.hex'']) = None"
    and "p \<noteq> home @ [''admin_key.pkcs8.hex'']" "files m p = Some b" "Option.bind (json_from_slice E b) (config_from_json E) = Some cfg"
  shows "\<exists>m' ds buf. key_init E C H AdminKey (Some home) m = (m', Inr ()) \<and>
    (\<forall>q. q \<noteq> home @ [''admin_key.pkcs8.hex''] \<longrightarrow> files m' q = files m q) \<and>
    key_init E C H AdminKey (Some home) m' = (m'\<lparr>dirs := ds\<rparr>, Inl (KeypairExists (home @ [''admin_key.pkcs8.hex'']))) \<and>
    admin_config E C H rpc_get now p chain limit grace (Some home) m' =
      (m'\<lparr>dirs := ds\<rparr>, if time_ok (now - int grace) \<and> time_ok (now + int limit)
        then broadcast_reconfiguration H rpc_get (hex_encode E buf) else Inl (ReconfigureFailed InvalidTimeout)) \<and>
    (time_ok (now - int grace) \<and> time_ok (now + int limit) \<longrightarrow>
      authenticated_from_proto E buf = Inr \<lparr>tx_chain_id = ChainId chain,
        tx_actions = [Reconfigure \<lparr>re_config = config_norm cfg, re_not_before = now - int grace,
          re_not_after = now + int limit,
          re_admin = Admin (keypair_public_key E (KeyPair (entropy m (drawn m))))\<rparr>]\<rparr>)"
proof -
  let ?kp = "KeyPair (entropy m (drawn m))" and ?k = "home @ [key_file_name AdminKey]"
  obtain m' k where m': "key_init E C H AdminKey (Some home) m = (m', Inr ())" "workspace home m'"
    "keypair_decode C k = Some ?kp" "files m' = (files m)(?k \<mapsto> as_bytes (hex_encode E k))"
    by (rule key_init_effect [OF assms(1,3,4,6), where r = AdminKey]) (simp_all add: assms(7))
  have f: "files m' ?k = Some (as_bytes (hex_encode E k))" by (simp add: m'(4))
  obtain ds where ds: "keypair E C H AdminKey (Some home) m' = (m'\<lparr>dirs := ds\<rparr>, Inr ?kp)"
    "key_init E C H AdminKey (Some home) m' = (m'\<lparr>dirs := ds\<rparr>, Inl (KeypairExists ?k))"
    by (rule keypair_kept [OF assms(1,3) m'(2,3) f])
  obtain key where key: "keypair_encode C ?kp = Some key" "keypair_decode C key = Some ?kp"
    using assms(4) by (auto simp: pkcs8_total_def)
  have cfg: "config_from_file E p (m'\<lparr>dirs := ds\<rparr>) = Inr cfg"
    using assms(8-10) by (simp add: config_from_file_def read_file_def m'(4))
  obtain buf where buf: "admin_reconfigure E C now key chain limit (Some grace) cfg =
      (if time_ok (now - int grace) \<and> time_ok (now + int limit) then Inr (hex_encode E buf) else Inl InvalidTimeout)"
    "time_ok (now - int grace) \<and> time_ok (now + int limit) \<longrightarrow>
      authenticated_from_proto E buf = Inr \<lparr>tx_chain_id = ChainId chain,
        tx_actions = [Reconfigure \<lparr>re_config = config_norm cfg, re_not_before = now - int grace,
          re_not_after = now + int limit, re_admin = Admin (keypair_public_key E ?kp)\<rparr>]\<rparr>"
    using admin_reconfiguration_window [OF assms(1,2) key(2) assms(5), of "Some grace" chain limit cfg]
    by (auto simp: Let_def)
  have "admin_config E C H rpc_get now p chain limit grace (Some home) m' =
      (m'\<lparr>dirs := ds\<rparr>, if time_ok (now - int grace) \<and> time_ok (now + int limit)
        then broadcast_reconfiguration H rpc_get (hex_encode E buf) else Inl (ReconfigureFailed InvalidTimeout))"
    using ds(1) cfg key(1) buf(1) by (simp add: admin_config_def)
  moreover have "files m' q = files m q" if "q \<noteq> home @ [''admin_key.pkcs8.hex'']" for q using that by (simp add: m'(4))
  ultimately show ?thesis using m'(1) ds(2) buf(2) by (intro exI [of _ m'] exI [of _ ds] exI [of _ buf]) simp
qed

definition sample_host :: host_env where
  "sample_host =
    \<lparr>project_dir = (\<lambda>app. None), config_pretty = (\<lambda>c. None),
     broadcast_response_from_str = (\<lambda>s. Some \<lparr>bt_code = 0, bt_log = [], bt_hash = []\<rparr>),
     base64_encode = sample_hex_encode, base64_decode = sample_hex_decode\<rparr>"

definition sample_admin_machine :: machine where
  "sample_admin_machine =
    sample_machine\<lparr>files := [[''/'', ''config.json''] \<mapsto> as_bytes (sample_json_text (sample_config_json sample_config))]\<rparr>"

theorem admin_key_reconfigures_witness:
  "\<exists>m' m''. key_init deploy_sample_env sample_pkcs8 sample_host AdminKey (Some sample_dir) sample_admin_machine = (m', Inr ()) \<and>
    admin_config deploy_sample_env sample_pkcs8 sample_host (\<lambda>p q. Some \<lparr>ha_status = 200, ha_text = Some []\<rparr>) sample_time
      [''/'', ''config.json''] ''felidae'' 0 0 (Some sample_dir) m' = (m'', Inr ())"
proof -
  have "verify deploy_sample_env = verify sample_env"
    by (simp add: fun_eq_iff verify_def deploy_sample_env_def cong: option.case_cong)
  then have ec: "ecdsa_correct deploy_sample_env"
    using ecdsa_correct_sample by (simp add: ecdsa_correct_def) (simp add: deploy_sample_env_def)
  have ws: "workspace sample_dir sample_admin_machine"
    by (auto simp: workspace_def sample_admin_machine_def sample_machine_def sample_dir_def strict_prefix_def)
  let ?b = "as_bytes (sample_json_text (sample_config_json sample_config))"
  have f: "files sample_admin_machine [''/'', ''config.json''] = Some ?b"
    "files sample_admin_machine (sample_dir @ [''admin_key.pkcs8.hex'']) = None"
    "[''/'', ''config.json''] \<noteq> sample_dir @ [''admin_key.pkcs8.hex'']"
    by (simp_all add: sample_admin_machine_def sample_dir_def)
  have "json_ok (sample_config_json sample_config)" by (simp add: sample_config_json_def)
  then have c: "Option.bind (json_from_slice deploy_sample_env ?b) (config_from_json deploy_sample_env) = Some sample_config"
    using sample_json_text_ok(2) by (simp add: deploy_sample_env_def)
  show ?thesis
    using admin_key_reconfigures [OF deploy_okD(1) [OF deploy_sample_ok] ec deploy_okD(2,3) [OF deploy_sample_ok]
        sample_time_ok(1) ws f(2,3,1) c, of sample_host "\<lambda>p q. Some \<lparr>ha_status = 200, ha_text = Some []\<rparr>" "''felidae''" 0 0]
    by (elim exE conjE) (intro exI conjI, assumption, simp add: broadcast_reconfiguration_def sample_host_def)
qed

end
