(* ===== verification/Observation_Path.thy ===== *)
theory Observation_Path
  imports Props_Queue
begin

text \<open>
  The way of an observation through the blocks: the vote that completes a quorum puts the observed hash
  among the pending changes, where it stays, whatever other names are voted on, until a block whose time
  has passed the delay writes it to the canonical table. \<open>run_block\<close> is one height of a node, the two
  requests the consensus engine makes for it.
\<close>

section \<open>What other transactions leave alone\<close>

definition observes_other :: "domain \<Rightarrow> action \<Rightarrow> bool" where
  "observes_other d a = (case a of Observe ob \<Rightarrow> ob_domain (obs_observation ob) \<noteq> d | Reconfigure r \<Rightarrow> False)"

text \<open>A transaction, as bytes, that is refused or only observes other names.\<close>

definition leaves_name :: "env \<Rightarrow> domain \<Rightarrow> bytes \<Rightarrow> bool" where
  "leaves_name E d buf =
    (\<forall>tx. authenticated_from_proto E buf = Inr tx \<longrightarrow> (\<forall>a \<in> set (tx_actions tx). observes_other d a))"

text \<open>The pending changes of a key and of the configuration stay as they are.\<close>

definition same_pending_at :: "env \<Rightarrow> string \<Rightarrow> contents \<Rightarrow> contents \<Rightarrow> bool" where
  "same_pending_at E k s s' =
    ((\<forall>c t. pending_view E (oracle_queue E c) s' (k, t) = pending_view E (oracle_queue E c) s (k, t)) \<and>
     (\<forall>c. pending_view E (admin_queue E c) s' = pending_view E (admin_queue E c) s))"

lemma same_pending_at_refl [simp]: "same_pending_at E k s s"
  by (simp add: same_pending_at_def)

lemma same_pending_at_trans: "same_pending_at E k s s' \<Longrightarrow> same_pending_at E k s' s'' \<Longrightarrow> same_pending_at E k s s''"
  by (simp add: same_pending_at_def)

lemma same_pending_everywhere: "votes_may_expire E s s' \<Longrightarrow> same_pending_at E k s s'"
  by (simp add: same_pending_at_def votes_may_expire_def)

lemma observe_other_name:
  assumes "state_ok E s" "observation_ok E (obs_observation a)" "fqdn_valid E (domain_name d)"
    and "ob_domain (obs_observation a) \<noteq> d"
  shows "same_pending_at E (pod_display (pod_of_domain d)) s (fst (observe E a s))"
  unfolding observe_def Let_def
proof (intro lift_res_P [where P = "same_pending_at E (pod_display (pod_of_domain d)) s"], use assms(1) in simp_all, goal_cases)
  case (1 current current_time registered Q)
  from 1 have t: "block_time E s = Inr current_time"
    by (auto simp: check_blockstamp_def res_simps)
  from 1 obtain c where Q: "Q = oracle_queue E c" by (auto simp: oracle_voting_def res_simps)
  note env = state_okD(6) [OF assms(1)]
  let ?ob = "obs_observation a" and ?k = "pod_display (pod_of_domain d)"
  let ?v = "\<lparr>ovv_hash_observed = ob_hash_observed ?ob, ovv_zone = ob_zone ?ob\<rparr>"
  let ?vt = "\<lparr>vote_party = hex_encode E (oid_identity (obs_oracle a)), vote_time = current_time,
    vote_key = pod_of_domain (ob_domain ?ob), vote_value = ?v\<rparr>"
  have castable: "castable E (oracle_queue E c) (key_to_string (oracle_queue E c) (vote_key ?vt)) (vote_party ?vt)
      (vote_time ?vt) (vote_value ?vt) ?v"
    using oracle_cast_castable [OF env _ _ _ t state_okD(4) [OF assms(1) t]] assms(2)
    by (simp add: observation_ok_def pod_of_domain_def)
  note frame = cast_frame [OF state_okD(1) [OF assms(1)] tally_order_queues(1) [OF env] castable]
  have ok: "state_ok E (fst (cast E (oracle_queue E c) ?vt s))"
    using oracle_cast_invariant [OF assms(1), of c ?vt ?v] castable by (simp add: kept_def)
  have "?k \<noteq> pod_display (pod_of_domain (ob_domain ?ob))"
    using pod_display_inj [OF env, of "pod_of_domain d" "pod_of_domain (ob_domain ?ob)"] assms(2-4)
    by (auto simp: observation_ok_def pod_of_domain_def domain.expand)
  then have "pending_view E (oracle_queue E v) (fst (cast E (oracle_queue E c) ?vt s)) (?k, t)
      = pending_view E (oracle_queue E v) s (?k, t)" for v t
    using frame views_any_config(2) [of E v _ c] by simp
  moreover have "pending_view E (admin_queue E v) (fst (cast E (oracle_queue E c) ?vt s)) = pending_view E (admin_queue E v) s" for v
    using other_queue_pending(1) [OF assms(1) ok] frame by simp
  ultimately show ?case by (simp add: Q same_pending_at_def)
qed

lemma deliver_tx_other_name:
  assumes "state_ok E s" "fqdn_valid E (domain_name d)" "leaves_name E d buf"
  shows "state_ok E (fst (deliver_tx E buf s)) \<and> only_queues s (fst (deliver_tx E buf s)) \<and>
    same_pending_at E (pod_display (pod_of_domain d)) s (fst (deliver_tx E buf s))"
proof -
  let ?P = "\<lambda>s'. state_ok E s' \<and> same_pending_at E (pod_display (pod_of_domain d)) s s'"
  have "?P (fst (deliver_tx E buf s))"
    unfolding deliver_tx_def deliver_authenticated_tx_def
  proof (intro lift_res_P [where P = ?P] for_each_invariant [where P = ?P], use assms(1) in simp_all, goal_cases)
    case (1 tx cid a s')
    then have safe: "action_safe E a" "observes_other d a"
      using transaction_try_from_safe [OF state_okD(6) [OF assms(1)]] assms(3)
      by (auto simp: authenticated_from_proto_def leaves_name_def res_simps)
    then obtain ob where ob: "a = Observe ob" "ob_domain (obs_observation ob) \<noteq> d" "observation_ok E (obs_observation ob)"
      by (cases a) (auto simp: observes_other_def action_safe_def)
    with 1 show ?case
      using observe_invariant [of E s' ob] observe_other_name [OF _ ob(3) assms(2) ob(2)]
      by (auto simp: kept_def elim: same_pending_at_trans)
  qed
  then show ?thesis using deliver_tx_invariant [OF assms(1), of buf] by (simp add: kept_def)
qed

lemma deliver_txs_other_names:
  assumes "state_ok E s" "fqdn_valid E (domain_name d)" "\<forall>buf \<in> set bufs. leaves_name E d buf"
  shows "same_pending_at E (pod_display (pod_of_domain d)) s (fst (deliver_txs E bufs s))"
  using assms
proof (induction bufs arbitrary: s)
  case (Cons buf bufs)
  let ?s = "fst (deliver_tx E buf s)"
  have step: "state_ok E ?s" "same_pending_at E (pod_display (pod_of_domain d)) s ?s"
    using deliver_tx_other_name [OF Cons.prems(1,2)] Cons.prems(3) by auto
  have "same_pending_at E (pod_display (pod_of_domain d)) ?s (fst (deliver_txs E bufs ?s))"
    using Cons.IH [OF step(1) Cons.prems(2)] Cons.prems(3) by simp
  with step(2) show ?case by (auto simp: split_def Let_def elim: same_pending_at_trans)
qed simp

section \<open>Waiting and settled names\<close>

text \<open>A hash on its way: no configuration is pending, and the hash is either the only pending change of its
  name, since \<open>t\<close>, or in the canonical table with nothing pending for the name.\<close>

definition waiting :: "env \<Rightarrow> string \<Rightarrow> bytes \<Rightarrow> time \<Rightarrow> contents \<Rightarrow> bool" where
  "waiting E k h t s =
    (\<exists>v. ovv_hash_observed v = Hash h \<and>
      (\<forall>c u. pending_view E (oracle_queue E c) s (k, u) = (if u = t then Some v else None)))"

definition settled :: "env \<Rightarrow> string \<Rightarrow> bytes \<Rightarrow> contents \<Rightarrow> bool" where
  "settled E k h s =
    (vget Canonical s k = Some (bytes_encode E h) \<and> (\<forall>c u. pending_view E (oracle_queue E c) s (k, u) = None))"

definition on_the_way :: "env \<Rightarrow> config \<Rightarrow> string \<Rightarrow> bytes \<Rightarrow> time \<Rightarrow> contents \<Rightarrow> bool" where
  "on_the_way E c k h t s =
    (state_ok E s \<and> config E s = Inr c \<and> (\<forall>v u. pending_view E (admin_queue E v) s ([], u) = None) \<and>
     (waiting E k h t s \<or> settled E k h s))"

lemma on_the_way_frame:
  assumes "on_the_way E c k h t s" "state_ok E s'" "config E s' = config E s" "vget Canonical s' = vget Canonical s"
    and "same_pending_at E k s s'"
  shows "on_the_way E c k h t s'" "settled E k h s \<Longrightarrow> settled E k h s'"
  using assms by (auto simp: on_the_way_def waiting_def settled_def same_pending_at_def)

lemma end_block_on_the_way:
  assumes "on_the_way E c k h t s" "block_time E s = Inr now"
  shows "on_the_way E c k h t (fst (end_block E s))"
    and "settled E k h s \<or> expired now (delay (o_voting (oracles c))) t \<Longrightarrow> settled E k h (fst (end_block E s))"
proof -
  have s: "state_ok E s" "config E s = Inr c" "\<And>v u. pending_view E (admin_queue E v) s ([], u) = None"
    using assms(1) by (simp_all add: on_the_way_def)
  obtain s' us c' where e: "end_block E s = (s', Inr us)" "state_ok E s'" "config E s' = Inr c'"
    "c' = c \<or> version c < version c' \<and> (\<exists>t. pending_view E (admin_queue E (a_voting (admins c))) s ([], t) = Some c' \<and>
      expired now (delay (a_voting (admins c))) t)"
    "canonical_after E c' now s s'"
    "\<And>v k t. pending_view E (oracle_queue E v) s' (k, t) =
      (if expired now (delay (o_voting (oracles c'))) t then None else pending_view E (oracle_queue E v) s (k, t))"
    "\<And>v k t. pending_view E (admin_queue E v) s' (k, t) =
      (if expired now (delay (a_voting (admins c))) t then None else pending_view E (admin_queue E v) s (k, t))"
    by (rule end_block_effect [OF s(1) assms(2) s(2)]) blast
  have c: "c' = c" using e(4) s(3) by simp
  note after = e(5) [unfolded canonical_after_def promoted_hash_def c]
  have set: "settled E k h s'" if "settled E k h s"
    using that after e(6) by (auto simp: settled_def)
  have ripe: "settled E k h s'" if "waiting E k h t s" "expired now (delay (o_voting (oracles c))) t"
    using that after e(6) unfolding settled_def waiting_def c by fastforce
  have young: "waiting E k h t s'" if "waiting E k h t s" "\<not> expired now (delay (o_voting (oracles c))) t"
    using that e(6) unfolding waiting_def c by fastforce
  have "waiting E k h t s \<or> settled E k h s" using assms(1) by (simp add: on_the_way_def)
  then show "on_the_way E c k h t (fst (end_block E s))"
    "settled E k h s \<or> expired now (delay (o_voting (oracles c))) t \<Longrightarrow> settled E k h (fst (end_block E s))"
    using e(2,3,7) s(3) c set ripe young by (auto simp: e(1) on_the_way_def)
qed

section \<open>Blocks\<close>

text \<open>One height of a node: \<open>FinalizeBlock\<close> and the \<open>Commit\<close> after it.\<close>

definition run_block :: "env \<Rightarrow> finalize_block_request \<Rightarrow> store \<Rightarrow> store" where
  "run_block E req st = fst (call E RCommit (fst (call E (RFinalizeBlock req) st)))"

lemma run_block_effect:
  assumes "state_ok E (pending st)" "request_ok req"
  defines "s \<equiv> fst (finalize_block E req (block_start E st))"
  shows "run_block E req st = \<lparr>committed = s, pending = s, staged = None\<rparr>" "state_ok E s"
    "canonical_ok E (pending st) \<Longrightarrow> canonical_ok E s"
proof -
  obtain s' results us where f:
    "call_finalize_block E req st = (st\<lparr>pending := committed st, staged := Some s'\<rparr>,
       Inr \<lparr>fbr_tx_results = results, fbr_validator_updates = us, fbr_app_hash = root_hash_of E None s'\<rparr>)"
    "state_ok E s'" "canonical_ok E (pending st) \<Longrightarrow> canonical_ok E s'" "s' = s"
    unfolding s_def by (rule finalize_pending_effect [OF assms(1,2)]) blast
  then show "run_block E req st = \<lparr>committed = s, pending = s, staged = None\<rparr>"
    using commit_staged_effect [OF state_okD(6) [OF assms(1)], of "st\<lparr>pending := committed st, staged := Some s'\<rparr>" s']
    by (simp add: run_block_def)
  show "state_ok E s" "canonical_ok E (pending st) \<Longrightarrow> canonical_ok E s" using f by blast+
qed

lemma deliver_txs_append: "fst (deliver_txs E (xs @ ys) s) = fst (deliver_txs E ys (fst (deliver_txs E xs s)))"
  by (induction xs arbitrary: s) (simp_all add: split_def Let_def)

text \<open>The state of a block after the transactions given.\<close>

definition after_txs :: "env \<Rightarrow> finalize_block_request \<Rightarrow> bytes list \<Rightarrow> store \<Rightarrow> contents" where
  "after_txs E req txs st = fst (deliver_txs E txs (fst (begin_block E req (block_start E st))))"

lemma after_txs_effect:
  assumes "state_ok E (pending st)" "request_ok req"
  shows "state_ok E (after_txs E req txs st)" "config E (after_txs E req txs st) = config E (pending st)"
    "block_time E (after_txs E req txs st) = Inr (fb_time req)"
    "vget Canonical (after_txs E req txs st) = vget Canonical (pending st)"
    "fb_txs req = txs \<Longrightarrow>
      fst (finalize_block E req (block_start E st)) = fst (end_block E (after_txs E req txs st))"
    "\<lbrakk>fqdn_valid E (domain_name d); \<forall>buf \<in> set txs. leaves_name E d buf\<rbrakk> \<Longrightarrow>
      same_pending_at E (pod_display (pod_of_domain d)) (pending st) (after_txs E req txs st)"
    "chain_id E (after_txs E req txs st) = chain_id E (pending st)"
proof -
  note b = block_start_effect [OF assms(1)]
  obtain s1 where s1: "begin_block E req (block_start E st) = (s1, Inr ())" "state_ok E s1"
    "block_time E s1 = Inr (fb_time req)" "config E s1 = config E (block_start E st)"
    "vget Canonical s1 = vget Canonical (block_start E st)" "votes_may_expire E (block_start E st) s1"
    "chain_id E s1 = chain_id E (block_start E st)"
    by (rule begin_block_effect [OF b(1) assms(2)]) blast
  have m: "after_txs E req txs st = fst (deliver_txs E txs s1)" by (simp add: after_txs_def s1(1))
  have k: "kept E s1 (after_txs E req txs st)" unfolding m by (rule deliver_txs_invariant [OF s1(2)])
  note d = keptD [OF k]
  show "state_ok E (after_txs E req txs st)" by (rule d(1))
  show "chain_id E (after_txs E req txs st) = chain_id E (pending st)"
    using only_queues_reads(4) [OF d(2)] s1(7) b(5) by simp
  show "config E (after_txs E req txs st) = config E (pending st)" using d(5) s1(4) b(2) by simp
  show "block_time E (after_txs E req txs st) = Inr (fb_time req)" using d(4) s1(3) by simp
  show "vget Canonical (after_txs E req txs st) = vget Canonical (pending st)"
    using canonical_frames(3) [OF d(2)] s1(5) b(3) by simp
  show "fst (finalize_block E req (block_start E st)) = fst (end_block E (after_txs E req txs st))" if "fb_txs req = txs"
    by (cases "end_block E (after_txs E req txs st)"; cases "snd (end_block E (after_txs E req txs st))")
      (use that in \<open>auto simp: finalize_block_def s1(1) m Let_def split_def\<close>)
  show "same_pending_at E (pod_display (pod_of_domain d)) (pending st) (after_txs E req txs st)"
    if "fqdn_valid E (domain_name d)" "\<forall>buf \<in> set txs. leaves_name E d buf"
    using deliver_txs_other_names [OF s1(2) that] same_pending_everywhere [OF votes_may_expire_trans [OF b(4) s1(6)]]
      same_pending_at_trans unfolding m by blast
qed

text \<open>A hash on its way stays on it through blocks that leave its name alone, and arrives with the first block
  whose time has passed the delay.\<close>

lemma run_blocks_on_the_way:
  assumes "on_the_way E c k h t (pending st)" "canonical_ok E (pending st)"
    and "fqdn_valid E (domain_name d)" "k = pod_display (pod_of_domain d)"
    and "\<forall>req \<in> set reqs. request_ok req \<and> (\<forall>buf \<in> set (fb_txs req). leaves_name E d buf)"
    and "settled E k h (pending st) \<or> (\<exists>req \<in> set reqs. expired (fb_time req) (delay (o_voting (oracles c))) t)"
  shows "settled E k h (pending (fold (run_block E) reqs st))" "canonical_ok E (pending (fold (run_block E) reqs st))"
proof -
  have "settled E k h (pending (fold (run_block E) reqs st)) \<and> canonical_ok E (pending (fold (run_block E) reqs st))"
    using assms
  proof (induction reqs arbitrary: st)
    case (Cons req reqs)
    have st: "state_ok E (pending st)" using Cons.prems(1) by (simp add: on_the_way_def)
    have req: "request_ok req" "\<forall>buf \<in> set (fb_txs req). leaves_name E d buf" using Cons.prems(5) by simp_all
    let ?m = "after_txs E req (fb_txs req) st"
    note m = after_txs_effect [OF st req(1), where txs = "fb_txs req"]
    note same = m(6) [OF Cons.prems(3) req(2), folded Cons.prems(4)]
    note w = on_the_way_frame [OF Cons.prems(1) m(1,2,4) same]
    note e = end_block_on_the_way [OF w(1) m(3), folded m(5) [OF refl]]
    note r = run_block_effect [OF st req(1)]
    have "settled E k h (pending (run_block E req st)) \<or>
        (\<exists>req \<in> set reqs. expired (fb_time req) (delay (o_voting (oracles c))) t)"
      using Cons.prems(6) e(2) w(2) by (auto simp: r(1))
    then show ?case
      using Cons.IH [of "run_block E req st"] Cons.prems(2-5) e(1) r(3) by (simp add: r(1))
  qed simp
  then show "settled E k h (pending (fold (run_block E) reqs st))"
    "canonical_ok E (pending (fold (run_block E) reqs st))" by blast+
qed

end
