(* ===== verification/Props_Path.thy ===== *)
theory Props_Path
  imports Observation_Path Props_Chain
begin

text \<open>
  The property that spans the whole way of an observation: the transaction that brings an observed hash to
  the quorum of the oracles leads, some blocks later, to that hash in the canonical table of the node.
\<close>

section \<open>The deciding observation\<close>

definition observed_vote :: "env \<Rightarrow> observe_action \<Rightarrow> time \<Rightarrow> (prefix_order_domain, oracle_vote_value) vote" where
  "observed_vote E a now =
    \<lparr>vote_party = hex_encode E (oid_identity (obs_oracle a)), vote_time = now,
     vote_key = pod_of_domain (ob_domain (obs_observation a)),
     vote_value = \<lparr>ovv_hash_observed = ob_hash_observed (obs_observation a), ovv_zone = ob_zone (obs_observation a)\<rparr>\<rparr>"

text \<open>The observation decides a change of its name in a state: it completes the quorum of the oracles for
  its value and for no other, the value is not pending yet, and the subdomain limit leaves room for it.\<close>

definition decides :: "env \<Rightarrow> config \<Rightarrow> observe_action \<Rightarrow> time \<Rightarrow> contents \<Rightarrow> bool" where
  "decides E c a now s =
    (let vt = observed_vote E a now; p = vote_key vt; k = pod_display p; w = vote_value vt;
         Q = oracle_queue E (o_voting (oracles c)); need = unat (quorum (o_voting (oracles c)));
         V = recorded (votes_view E Q s) k (vote_party vt) now w
     in 0 < need \<and> (\<forall>v. need \<le> support V k v \<longleftrightarrow> v = w) \<and> (\<forall>t. pending_view E Q s (k, t) \<noteq> Some w) \<and>
        (\<forall>r. registered_domain (pod_name p) (zone_name (ovv_zone w)) = Inr r \<longrightarrow>
          p \<in> enrolled_without E s p r \<or>
          card (enrolled_without E s p r) < unat (max_enrolled_subdomains (oracles c))))"

lemma deciding_observation:
  assumes "state_ok E s" "canonical_ok E s" "config E s = Inr c" "observation_ok E (obs_observation a)"
    and "observation_allowed E c s a now" "decides E c a now s"
  defines "k \<equiv> pod_display (pod_of_domain (ob_domain (obs_observation a)))"
  obtains s' where "observe E a s = (s', Inr ())"
    "\<And>v u. pending_view E (oracle_queue E v) s' (k, u) =
      (if u = trunc_secs now then Some (vote_value (observed_vote E a now)) else None)"
    "\<And>v. pending_view E (admin_queue E v) s' = pending_view E (admin_queue E v) s"
proof -
  note env = state_okD(6) [OF assms(1)]
  let ?ob = "obs_observation a" and ?vt = "observed_vote E a now" and ?c = "o_voting (oracles c)"
  let ?p = "pod_of_domain (ob_domain ?ob)" and ?w = "vote_value ?vt"
  let ?Q = "oracle_queue E ?c"
  let ?V = "recorded (votes_view E ?Q s) (pod_display ?p) (vote_party ?vt) (vote_time ?vt) ?w"
  have vt [simp]: "vote_key ?vt = ?p" "vote_time ?vt = now" by (simp_all add: observed_vote_def)
  have obs: "observe E a s = cast E ?Q ?vt s"
    unfolding observed_vote_def by (rule observe_cast [OF assms(1-5)])
  have now: "block_time E s = Inr now"
    using assms(5) by (simp add: observation_allowed_def Let_def fresh_blockstamp_def)
  have ok: "fqdn_valid E (pod_name ?p)" "fqdn_valid E (zone_name (ob_zone ?ob))" "hash_observed_ok (ob_hash_observed ?ob)"
    using assms(4) by (simp_all add: observation_ok_def pod_of_domain_def)
  have castable: "castable E ?Q (pod_display ?p) (vote_party ?vt) (vote_time ?vt) (vote_value ?vt) ?w"
    using oracle_cast_castable [OF env ok(1,3,2) now state_okD(4) [OF assms(1) now]] by (simp add: observed_vote_def)
  obtain l where "fqdn_is_subdomain_of (pod_name ?p) (l # zone_name (ob_zone ?ob))"
    using assms(5) by (auto simp: observation_allowed_def Let_def pod_of_domain_def)
  then have below: "fqdn_is_subdomain_of (pod_name ?p) (zone_name (ovv_zone ?w))" "pod_name ?p \<noteq> zone_name (ovv_zone ?w)"
    using subdomain_strict [of "pod_name ?p" "zone_name (ob_zone ?ob)"] by (auto simp: observed_vote_def)
  have need: "0 < unat (quorum ?c)" "\<And>v. unat (quorum ?c) \<le> support ?V (pod_display ?p) v \<longleftrightarrow> v = ?w"
    "\<forall>t. pending_view E ?Q s (pod_display ?p, t) \<noteq> Some ?w"
    "\<And>r. registered_domain (pod_name ?p) (zone_name (ovv_zone ?w)) = Inr r \<Longrightarrow>
      ?p \<in> enrolled_without E s ?p r \<or> card (enrolled_without E s ?p r) < unat (max_enrolled_subdomains (oracles c))"
    using assms(6) by (simp_all add: decides_def Let_def)
  have w: "unat (quorum ?c) \<le> support ?V (pod_display ?p) ?w" by (simp only: need(2))
  have "0 < support ?V (pod_display ?p) ?w" using need(1) w by linarith
  from oracle_quorum_enqueues [OF assms(1-3) castable vt(1) ok(1) w this _ need(3) below] need(2,4)
  obtain s' where s': "cast E ?Q ?vt s = (s', Inr ())"
    "queue_becomes E ?Q s s' (votes_dropped (votes_view E ?Q s) (pod_display ?p))
      (pending_replaced (pending_view E ?Q s) (pod_display ?p) (vote_time ?vt) ?w)" by force
  note b = queue_becomesD [OF s'(2)]
  have out: "same_outside ''oracle_voting/'' s s'" using b(2) by simp
  have "state_ok E s'" by (rule state_ok_queue_write [OF assms(1), where c = ?c, OF disjI1]) (use b(1) out in simp)
  note admin = other_queue_pending(1) [OF assms(1) this out]
  have "pending_view E (oracle_queue E v) s' (k, u) = (if u = trunc_secs now then Some ?w else None)" for v u
    using views_any_config(2) [of E v _ ?c] by (simp add: b(4) pending_replaced_def k_def)
  then show thesis using obs s'(1) admin by (intro that [of s']) simp_all
qed

section \<open>From the vote to the canonical table\<close>

text \<open>C4: When the last transaction of a block is an observation that is allowed and decides its name, and no
  configuration is waiting, then the observed hash is the canonical hash of the name on the committed state
  of the node once a block has passed the delay, at that block or any later one; blocks in between may be
  empty or carry whatever transactions observe other names or are refused.\<close>

theorem decided_hash_becomes_canonical:
  assumes "chain_ok E (pending st)" "request_ok req" "fb_txs req = txs @ [buf]"
    and "authenticated_from_proto E buf = Inr \<lparr>tx_chain_id = cid, tx_actions = [Observe a]\<rparr>"
    and "ob_hash_observed (obs_observation a) = Hash h"
  defines "s \<equiv> after_txs E req txs st" and "d \<equiv> ob_domain (obs_observation a)"
  assumes "config E (pending st) = Inr c" "chain_id E (pending st) = Inr cid"
    and "\<forall>v t. pending_view E (admin_queue E v) s ([], t) = None"
    and "observation_allowed E c s a (fb_time req)" "decides E c a (fb_time req) s"
    and "\<forall>r \<in> set reqs. request_ok r \<and> (\<forall>b \<in> set (fb_txs r). leaves_name E d b)"
    and "\<exists>r \<in> set (req # reqs). expired (fb_time r) (delay (o_voting (oracles c))) (trunc_secs (fb_time req))"
  shows "canonical_hash E d (committed (fold (run_block E) (req # reqs) st)) = Inr (Some h)"
proof -
  have st: "state_ok E (pending st)" "canonical_ok E (pending st)" using assms(1) by (simp_all add: chain_ok_def)
  note env = state_okD(6) [OF st(1)]
  have ob: "observation_ok E (obs_observation a)"
    using transaction_try_from_safe [OF env] assms(4)
    by (fastforce simp: authenticated_from_proto_def action_safe_def res_simps)
  note m = after_txs_effect [OF st(1) assms(2), where txs = txs, folded s_def]
  have cfg: "config E s = Inr c" using m(2) assms(8) by simp
  have can: "canonical_ok E s" using st(2) canonical_ok_cong [OF m(4)] by simp
  let ?k = "pod_display (pod_of_domain d)" and ?t = "trunc_secs (fb_time req)"
  obtain s1 where s1: "observe E a s = (s1, Inr ())"
    "\<And>v u. pending_view E (oracle_queue E v) s1 (?k, u) =
      (if u = ?t then Some (vote_value (observed_vote E a (fb_time req))) else None)"
    "\<And>v. pending_view E (admin_queue E v) s1 = pending_view E (admin_queue E v) s"
    unfolding d_def by (rule deciding_observation [OF m(1) can cfg ob assms(11,12)]) blast
  have "deliver_tx E buf s = (s1, Inr ())"
    using assms(4,9) s1(1) m(7) by (simp add: deliver_tx_def deliver_authenticated_tx_def)
  then have step: "after_txs E req (fb_txs req) st = s1"
    using assms(3) by (simp add: after_txs_def s_def deliver_txs_append)
  note m' = after_txs_effect [OF st(1) assms(2), where txs = "fb_txs req", unfolded step]
  have "config E s1 = Inr c" using assms(8) m'(2) by simp
  then have way: "on_the_way E c ?k h ?t s1"
    using m'(1) s1(2,3) assms(5,10) by (auto simp: on_the_way_def waiting_def observed_vote_def)
  note e = end_block_on_the_way [OF way m'(3), folded m'(5) [OF refl]]
  note r = run_block_effect [OF st(1) assms(2)]
  have valid: "fqdn_valid E (domain_name d)" using ob by (simp add: observation_ok_def d_def)
  have "settled E ?k h (pending (run_block E req st)) \<or>
      (\<exists>r \<in> set reqs. expired (fb_time r) (delay (o_voting (oracles c))) ?t)"
    using assms(14) e(2) by (auto simp: r(1))
  moreover have "on_the_way E c ?k h ?t (pending (run_block E req st))" "canonical_ok E (pending (run_block E req st))"
    using e(1) r(3) st(2) by (simp_all add: r(1))
  ultimately have fin: "settled E ?k h (pending (fold (run_block E) reqs (run_block E req st)))"
    "canonical_ok E (pending (fold (run_block E) reqs (run_block E req st)))"
    using run_blocks_on_the_way [OF _ _ valid refl assms(13)] by blast+
  have same: "committed (fold (run_block E) reqs u) = pending (fold (run_block E) reqs u)"
    if "committed u = pending u" "state_ok E (pending u)" for u
    using that assms(13)
  proof (induction reqs arbitrary: u)
    case (Cons q qs)
    then show ?case using run_block_effect(1,2) [OF Cons.prems(2), of q] by simp
  qed simp
  have "committed (fold (run_block E) reqs (run_block E req st)) = pending (fold (run_block E) reqs (run_block E req st))"
    using r(2) by (intro same) (simp_all add: r(1))
  then show ?thesis
    using fin canonical_hash_eq [OF env fin(2)] by (simp add: settled_def canonical_view_def bytes_codec [OF env])
qed

section \<open>A node of one oracle\<close>

text \<open>A node in its second block under a quorum of one; the sample observation comes in the third, and the
  fourth starts a minute later.\<close>

definition sample_node :: store where
  "sample_node = \<lparr>committed = sample_quick, pending = sample_quick, staged = None\<rparr>"

definition sample_deciding :: "bytes \<Rightarrow> finalize_block_request" where
  "sample_deciding buf =
    \<lparr>fb_txs = [buf], fb_votes = [], fb_misbehavior = [], fb_height = 3, fb_time = sample_time + 120000000000\<rparr>"

definition sample_ripening :: finalize_block_request where
  "sample_ripening =
    \<lparr>fb_txs = [], fb_votes = [], fb_misbehavior = [], fb_height = 4, fb_time = sample_time + 180000000000\<rparr>"

lemma sample_requests: "request_ok (sample_deciding buf)" "request_ok sample_ripening"
  by (simp_all add: request_ok_def sample_deciding_def sample_ripening_def i64_max_def sample_time_def time_ok_def
      unix_timestamp_def)

lemma sample_quick_put:
  "sample_quick = put (config_encode sample_env) Internal ''parameters/config'' sample_one_oracle sample_block"
  by (simp add: sample_quick_def set_config_def)

lemma sample_quick_reads:
  "chain_id sample_env sample_quick = Inr (ChainId ''felidae'')" "block_height sample_env sample_quick = Inr 2"
  "time_of_block sample_env 1 sample_quick = Inr sample_time"
  "previous_app_hash sample_env 0 sample_quick = Inr (replicate 32 9)"
  "pending_view sample_env (admin_queue sample_env c) sample_quick = Map.empty"
proof -
  have "same_queue (qp (admin_queue sample_env c)) sample_block sample_quick"
    by (auto simp: sample_quick_put same_queue_def queue_key_def store_simps)
  then show "pending_view sample_env (admin_queue sample_env c) sample_quick = Map.empty"
    using queue_ok_cong(3) [OF _ state_okD(7) [OF sample_quick(1)] sample_block_views(2)] by (simp add: sample_block_views)
qed (use sample_block_reads in \<open>simp_all add: sample_quick_put reads get_simps\<close>)

lemma sample_start_block:
  "block_start sample_env sample_node =
    put (app_hash_encode sample_env) Internal (''apphash/'' @ pad_height 1) (root_hash sample_env None sample_node) sample_quick"
  using sample_quick_reads(2)
  by (simp add: block_start_def sample_node_def unwrap_or_def record_app_hash_def env_height [OF env_ok_sample] i64_max_def)

lemma sample_before_vote:
  fixes buf :: bytes
  defines "s \<equiv> after_txs sample_env (sample_deciding buf) [] sample_node"
  shows "votes_may_expire sample_env sample_quick s" "block_height sample_env s = Inr 3"
    "block_time sample_env s = Inr (sample_time + 120000000000)" "vget Canonical s = Map.empty"
    "time_of_block sample_env 1 s = Inr sample_time" "previous_app_hash sample_env 0 s = Inr (replicate 32 9)"
proof -
  have ok: "state_ok sample_env (pending sample_node)" by (simp add: sample_node_def sample_quick)
  note b = block_start_effect [OF ok]
  obtain s1 where s1: "begin_block sample_env (sample_deciding buf) (block_start sample_env sample_node) = (s1, Inr ())"
    "block_height sample_env s1 = Inr (fb_height (sample_deciding buf))"
    "block_time sample_env s1 = Inr (fb_time (sample_deciding buf))"
    "vget Canonical s1 = vget Canonical (block_start sample_env sample_node)"
    "\<forall>h. h \<noteq> fb_height (sample_deciding buf) \<longrightarrow>
      time_of_block sample_env h s1 = time_of_block sample_env h (block_start sample_env sample_node)"
    "\<forall>h. previous_app_hash sample_env h s1 = previous_app_hash sample_env h (block_start sample_env sample_node)"
    "votes_may_expire sample_env (block_start sample_env sample_node) s1"
    by (rule begin_block_effect [OF b(1) sample_requests(1) [of buf]]) blast
  have s: "s = s1" by (simp add: s_def after_txs_def s1(1))
  show "votes_may_expire sample_env sample_quick s"
    using votes_may_expire_trans [OF b(4) s1(7)] by (simp add: s sample_node_def)
  show "block_height sample_env s = Inr 3" "block_time sample_env s = Inr (sample_time + 120000000000)"
    using s1(2,3) by (simp_all add: s sample_deciding_def)
  show "vget Canonical s = Map.empty" using s1(4) b(3) by (simp add: s sample_node_def sample_quick)
  show "time_of_block sample_env 1 s = Inr sample_time"
    using s1(5) sample_quick_reads(3)
    by (simp add: s sample_deciding_def sample_start_block time_of_block_def get_simps)
  show "previous_app_hash sample_env 0 s = Inr (replicate 32 9)"
    using s1(6) sample_quick_reads(4) by (simp add: s sample_start_block previous_app_hash_def get_simps)
qed

lemma sample_node_decides:
  fixes buf :: bytes
  defines "s \<equiv> after_txs sample_env (sample_deciding buf) [] sample_node"
  shows "observation_allowed sample_env sample_one_oracle s sample_observation (sample_time + 120000000000)"
    "decides sample_env sample_one_oracle sample_observation (sample_time + 120000000000) s"
    "\<forall>v t. pending_view sample_env (admin_queue sample_env v) s ([], t) = None"
proof -
  note f = sample_before_vote [of buf, folded s_def]
  have views: "votes_view sample_env (oracle_queue sample_env c) s = Map.empty"
    "pending_view sample_env (oracle_queue sample_env c) s = Map.empty"
    "pending_view sample_env (admin_queue sample_env c) s = Map.empty" for c
  proof -
    note v = f(1) [unfolded votes_may_expire_def, THEN spec, of c, unfolded sample_quick sample_quick_reads]
    show "votes_view sample_env (oracle_queue sample_env c) s = Map.empty"
      using conjunct2 [OF conjunct2 [OF v]] by (rule map_le_antisym [OF _ map_le_empty])
    show "pending_view sample_env (oracle_queue sample_env c) s = Map.empty"
      "pending_view sample_env (admin_queue sample_env c) s = Map.empty" using v by blast+
  qed
  show "\<forall>v t. pending_view sample_env (admin_queue sample_env v) s ([], t) = None" by (simp add: views)
  have none: "enrolled sample_env s r = {}" for r
    by (simp add: enrolled_def canonical_view_def f(4) pending_name_def views)
  have "fresh_blockstamp sample_env sample_one_oracle s (ob_blockstamp (obs_observation sample_observation))
      (sample_time + 120000000000)"
    by (simp add: fresh_blockstamp_def sample_observation_def f previous_block_height_def sample_one_oracle_def
        sample_config_def from_secs_def nanos_per_sec_def)
  moreover have "fqdn_is_subdomain_of [''www'', ''example'', ''com''] [''example'', ''com'']"
    by (simp add: fqdn_is_subdomain_of_def suffix_def)
  moreover have "room_for sample_env sample_one_oracle s p r" for p r
    by (simp add: room_for_def none) (simp add: sample_one_oracle_def sample_config_def)
  ultimately show "observation_allowed sample_env sample_one_oracle s sample_observation (sample_time + 120000000000)"
    by (simp add: observation_allowed_def Let_def)
      (intro conjI exI [of _ "''example''"]; simp add: sample_observation_def sample_one_oracle_def sample_config_def
        sample_subdomain_def sample_zone_def)
  have "enrolled_without sample_env s p r = {}" for p r by (simp add: enrolled_without_def none)
  then show "decides sample_env sample_one_oracle sample_observation (sample_time + 120000000000) s"
    unfolding decides_def Let_def views support_recorded_empty by (simp add: sample_one_oracle_def sample_config_def)
qed

theorem decided_hash_becomes_canonical_witness:
  "\<exists>buf. canonical_hash sample_env sample_subdomain
      (committed (fold (run_block sample_env) [sample_deciding buf, sample_ripening] sample_node)) = Inr (Some (replicate 32 5))"
proof -
  obtain buf where buf: "authenticated_from_proto sample_env buf = Inr sample_tx" by (rule sample_delivered)
  have ok: "chain_ok sample_env (pending sample_node)" by (simp add: chain_ok_def sample_node_def sample_quick)
  have node: "config sample_env (pending sample_node) = Inr sample_one_oracle"
    "chain_id sample_env (pending sample_node) = Inr (ChainId ''felidae'')"
    by (simp_all add: sample_node_def sample_quick sample_quick_reads)
  have ob: "ob_hash_observed (obs_observation sample_observation) = Hash (replicate 32 5)"
    "ob_domain (obs_observation sample_observation) = sample_subdomain" by (simp_all add: sample_observation_def)
  have txs: "fb_txs (sample_deciding buf) = [] @ [buf]" by (simp add: sample_deciding_def)
  have t: "fb_time (sample_deciding buf) = sample_time + 120000000000" by (simp add: sample_deciding_def)
  have trunc: "trunc_secs (sample_time + 120000000000) = sample_time + 120000000000"
    using trunc_secs_of_secs [of 1120] by (simp add: sample_time_def)
  have "canonical_hash sample_env (ob_domain (obs_observation sample_observation))
      (committed (fold (run_block sample_env) [sample_deciding buf, sample_ripening] sample_node)) = Inr (Some (replicate 32 5))"
  proof (rule decided_hash_becomes_canonical [OF ok sample_requests(1) txs buf [unfolded sample_tx_def] ob(1) node])
    show "\<forall>r \<in> set [sample_ripening]. request_ok r \<and>
        (\<forall>b \<in> set (fb_txs r). leaves_name sample_env (ob_domain (obs_observation sample_observation)) b)"
      using sample_requests(2) by (simp add: sample_ripening_def)
    show "\<exists>r \<in> set [sample_deciding buf, sample_ripening]. expired (fb_time r)
        (delay (o_voting (oracles sample_one_oracle))) (trunc_secs (fb_time (sample_deciding buf)))"
      unfolding t trunc
      by (simp add: expired_def elapsed_eq sample_ripening_def sample_one_oracle_def from_secs_def nanos_per_sec_def)
  qed (use sample_node_decides [of buf] in \<open>simp_all add: t\<close>)
  then show ?thesis unfolding ob(2) by blast
qed

end
