(* ===== verification/Server_Start.thy ===== *)
theory Server_Start
  imports Oracle_Server Key_Commands
begin

text \<open>
  The start of the oracle's HTTP server (\<open>run\<close> in \<open>crates/felidae/src/cli/oracle/server.rs\<close>): the secret
  of its challenges, which is kept in a file of the oracle's directory, and the routes it answers. The
  listener is left out; the routing itself is axum's, whose \<open>get\<close> also answers \<open>HEAD\<close>. A body that is no
  \<open>ObserveRequest\<close> is refused before the handler.
\<close>

section \<open>The secret\<close>

definition secret_file_name :: string where "secret_file_name = ''pow_secret.hex''"

definition pow_secret_path :: "host_env \<Rightarrow> path option \<Rightarrow> machine \<Rightarrow> machine \<times> (command_error + path)" where
  "pow_secret_path H homedir m =
    lift_res m (case homedir of Some h \<Rightarrow> Inr h
                | None \<Rightarrow> ok_or NoStorageDirectory (project_dir H ''felidae-oracle'')) (\<lambda>oracle_dir.
    andthen (io Io (create_dir_all oracle_dir m)) (\<lambda>_ m. (m, Inr (oracle_dir @ [secret_file_name]))))"

text \<open>The texts of the errors, which name the path, are left out.\<close>

definition load_or_generate_pow_secret ::
  "env \<Rightarrow> host_env \<Rightarrow> path option \<Rightarrow> machine \<Rightarrow> machine \<times> (command_error + string)" where
  "load_or_generate_pow_secret E H homedir m =
    andthen (pow_secret_path H homedir m) (\<lambda>p m.
    if path_exists p m then
      lift_res m (map_err Io (read_to_string p m)) (\<lambda>secret_hex. (m, Inr (trim secret_hex)))
    else (case draw m of (secret_bytes, m) \<Rightarrow>
      let secret = hex_encode E secret_bytes in
      andthen (io Io (write_text p secret m)) (\<lambda>_ m. (m, Inr secret))))"

text \<open>The difficulty set in the environment of the process, if it parses.\<close>

definition pow_difficulty_of :: "u8 option \<Rightarrow> u8" where
  "pow_difficulty_of var = max (case var of None \<Rightarrow> 19 | Some d \<Rightarrow> d) 8"

definition server_state ::
  "env \<Rightarrow> host_env \<Rightarrow> path option \<Rightarrow> u8 option \<Rightarrow> machine \<Rightarrow> machine \<times> (command_error + app_state)" where
  "server_state E H homedir difficulty_var m =
    andthen (load_or_generate_pow_secret E H homedir m) (\<lambda>secret m.
    (m, Inr \<lparr>as_pow_secret = secret, as_pow_difficulty = pow_difficulty_of difficulty_var\<rparr>))"

section \<open>The routes\<close>

datatype http_method = GET | HEAD | POST | OtherMethod

record server_request =
  sr_method :: http_method
  sr_path :: string
  sr_query :: "string \<rightharpoonup> string"
  sr_body :: "observe_request option"

datatype server_answer =
    ObserveAnswer "(server_status \<times> observe_response) + observe_response"
  | ChallengeAnswer "(server_status \<times> observe_response) + pow_challenge_response"
  | HealthAnswer string | BodyRefused | MethodNotAllowed | NoRoute

definition oracle_app ::
  "env \<Rightarrow> client_env \<Rightarrow> app_state \<Rightarrow> u64 \<Rightarrow> (fqdn \<Rightarrow> fqdn \<Rightarrow> observe_error + unit) \<Rightarrow> server_request \<Rightarrow> server_answer" where
  "oracle_app E C state now observe req =
    (let reads = sr_method req = GET \<or> sr_method req = HEAD in
     if sr_path req = ''/observe'' then
       (if sr_method req \<noteq> POST then MethodNotAllowed
        else case sr_body req of
          None \<Rightarrow> BodyRefused
        | Some body \<Rightarrow> ObserveAnswer (handle_observe E C state now observe body))
     else if sr_path req = ''/pow-challenge'' then
       (if reads then ChallengeAnswer (handle_pow_challenge E state now (sr_query req)) else MethodNotAllowed)
     else if sr_path req = ''/health'' then (if reads then HealthAnswer ''OK'' else MethodNotAllowed)
     else NoRoute)"

end
