(* ===== verification/Props_Server.thy ===== *)
theory Props_Server
  imports Server_Start Props_Deploy
begin

text \<open>
  The property of the oracle server's start: its secret is drawn once and survives a restart.
\<close>

lemma pow_secret_path_workspace:
  assumes "workspace home m"
  obtains ds where "pow_secret_path H (Some home) m = (m\<lparr>dirs := ds\<rparr>, Inr (home @ [secret_file_name]))"
    "workspace home (m\<lparr>dirs := ds\<rparr>)" "home = [] \<or> home \<in> ds"
  by (rule home_workspace [OF assms]) (simp add: pow_secret_path_def that)

text \<open>C39: The first start of the oracle server in its home directory draws the secret of the challenges and
  writes it to its file, touching no other file; a later start with the same difficulty reads that secret
  back and draws no other, so challenges issued before it are still good.\<close>

theorem pow_secret_survives_restart:
  assumes "env_ok E" "hex_digits E" "workspace home m" "files m (home @ [secret_file_name]) = None"
  shows "\<exists>m' ds st. server_state E H (Some home) v m = (m', Inr st) \<and>
    as_pow_secret st = hex_encode E (entropy m (drawn m)) \<and>
    (\<forall>q. q \<noteq> home @ [secret_file_name] \<longrightarrow> files m' q = files m q) \<and>
    server_state E H (Some home) v m' = (m'\<lparr>dirs := ds\<rparr>, Inr st)"
proof -
  let ?p = "home @ [secret_file_name]" and ?s = "hex_encode E (entropy m (drawn m))"
  have dot: "dotted secret_file_name" by (simp add: secret_file_name_def)
  have ascii: "ascii ?s" by (rule env_hex_ascii [OF assms(1)])
  have trim: "trim ?s = ?s" using assms(2) by (intro trim_hex) (auto simp: hex_digits_def)
  obtain ds where m1: "pow_secret_path H (Some home) m = (m\<lparr>dirs := ds\<rparr>, Inr ?p)" "workspace home (m\<lparr>dirs := ds\<rparr>)"
    "home = [] \<or> home \<in> ds"
    by (rule pow_secret_path_workspace [OF assms(3)])
  define m2 where "m2 = m\<lparr>dirs := ds, drawn := Suc (drawn m)\<rparr>"
  have ws: "workspace home m2" using m1(2) by (simp add: m2_def workspace_def)
  have "home @ [] = [] \<or> home @ [] \<in> dirs m2" using m1(3) by (simp add: m2_def)
  note w = write_file_workspace [OF ws this dot, of "as_bytes ?s", unfolded append_Nil]
  let ?m' = "m2\<lparr>files := (files m2)(?p \<mapsto> as_bytes ?s)\<rparr>"
  have "strict_prefix home ?p" "prefix home ?p" "last ?p = secret_file_name" by (simp_all add: strict_prefix_def)
  then have "?p \<notin> ds" using m1(2) [unfolded workspace_def, THEN spec, of ?p] dot by simp
  then have new: "\<not> path_exists ?p (m\<lparr>dirs := ds\<rparr>)" using assms(4) by (simp add: path_exists_def)
  have first: "load_or_generate_pow_secret E H (Some home) m = (?m', Inr ?s)"
    using m1(1) new w(1) by (simp add: load_or_generate_pow_secret_def draw_def Let_def write_text_def m2_def)
  obtain ds' where m3: "pow_secret_path H (Some home) ?m' = (?m'\<lparr>dirs := ds'\<rparr>, Inr ?p)"
    by (rule pow_secret_path_workspace [OF w(2)])
  have "read_to_string ?p (?m'\<lparr>dirs := ds'\<rparr>) = Inr ?s"
    by (simp add: read_to_string_def read_file_def from_utf8_as_bytes [OF ascii])
  then have again: "load_or_generate_pow_secret E H (Some home) ?m' = (?m'\<lparr>dirs := ds'\<rparr>, Inr ?s)"
    using m3 by (simp add: load_or_generate_pow_secret_def path_exists_def trim)
  let ?st = "\<lparr>as_pow_secret = ?s, as_pow_difficulty = pow_difficulty_of v\<rparr>"
  have "server_state E H (Some home) v m = (?m', Inr ?st)" by (simp only: server_state_def first andthen.simps)
  moreover have "server_state E H (Some home) v ?m' = (?m'\<lparr>dirs := ds'\<rparr>, Inr ?st)"
    by (simp only: server_state_def again andthen.simps)
  moreover have "\<forall>q. q \<noteq> ?p \<longrightarrow> files ?m' q = files m q" by (simp add: m2_def)
  ultimately show ?thesis by (intro exI [of _ ?m'] exI [of _ ds'] exI [of _ ?st]) (simp only: app_state.simps simp_thms)
qed

theorem pow_secret_survives_restart_witness:
  "\<exists>m' m'' st. server_state deploy_sample_env sample_host (Some sample_dir) None sample_admin_machine = (m', Inr st) \<and>
     server_state deploy_sample_env sample_host (Some sample_dir) None m' = (m'', Inr st)"
proof -
  have ws: "workspace sample_dir sample_admin_machine"
    by (auto simp: workspace_def sample_admin_machine_def sample_machine_def sample_dir_def strict_prefix_def)
  have f: "files sample_admin_machine (sample_dir @ [secret_file_name]) = None"
    by (simp add: sample_admin_machine_def sample_dir_def secret_file_name_def)
  show ?thesis
    using pow_secret_survives_restart [OF deploy_okD(1,2) [OF deploy_sample_ok] ws f, of sample_host None] by blast
qed

end
