(* ===== verification/Node_Storage.thy ===== *)
theory Node_Storage
  imports Deploy_Run
begin

text \<open>
  The storage directory of a node, as \<open>crates/felidae/src/cli/start.rs\<close> determines it, and the command
  \<open>reset\<close> (\<open>cli/reset.rs\<close>) that removes it. The servers \<open>start\<close> runs on that storage are those of the ABCI
  service and of the query API.
\<close>

definition storage_dir :: "host_env \<Rightarrow> path option \<Rightarrow> command_error + path" where
  "storage_dir H homedir =
    (case homedir of Some h \<Rightarrow> Inr (h @ [''storage''])
     | None \<Rightarrow> ebind (ok_or NoStorageDirectory (project_dir H ''felidae'')) (\<lambda>d. Inr (d @ [''storage''])))"

text \<open>\<open>remove_dir_all\<close> fails, with nothing removed, on a file and on a directory the system refuses to remove; a
  refusal further down is not modelled.\<close>

definition remove_dir_all :: "path \<Rightarrow> machine \<Rightarrow> machine \<times> (io_error + unit)" where
  "remove_dir_all d m =
    (if d \<notin> dirs m then (m, Inl (if files m d = None then FileNotFound else NotADirectory))
     else if d \<in> denied m then (m, Inl PermissionDenied)
     else (remove_tree d m, Inr ()))"

definition reset_run :: "host_env \<Rightarrow> machine \<Rightarrow> machine \<times> (command_error + unit)" where
  "reset_run H m =
    lift_res m (ok_or NoStorageDirectory (project_dir H ''felidae'')) (\<lambda>dir.
    if path_exists dir m then
      io Io (remove_dir_all dir (println (''Removing storage directory: '' @ path_display dir) m))
    else (println (''Storage directory does not exist: '' @ path_display dir) m, Inr ()))"

text \<open>A reset that succeeds leaves nothing of the default storage and touches no other path. In particular the
  storage of a node that was started with another home directory stays as it is.\<close>

theorem reset_removes_default_storage:
  assumes "project_dir H ''felidae'' = Some d" "d \<in> dirs m" "d \<notin> denied m"
  obtains m' where "reset_run H m = (m', Inr ())"
    "\<And>p. prefix d p \<Longrightarrow> \<not> path_exists p m'" "\<And>p. \<not> prefix d p \<Longrightarrow> files m' p = files m p \<and> (p \<in> dirs m' \<longleftrightarrow> p \<in> dirs m)"
    "\<And>s. storage_dir H None = Inr s \<Longrightarrow> prefix d s"
proof -
  let ?m = "remove_tree d (println (''Removing storage directory: '' @ path_display d) m)"
  have "reset_run H m = (?m, Inr ())"
    using assms by (simp add: reset_run_def path_exists_def remove_dir_all_def println_def)
  then show thesis
    by (rule that) (auto simp: path_exists_def remove_tree_def println_def storage_dir_def assms(1))
qed

theorem reset_without_storage:
  assumes "project_dir H ''felidae'' = Some d" "\<not> path_exists d m"
  shows "reset_run H m = (println (''Storage directory does not exist: '' @ path_display d) m, Inr ())"
  using assms by (simp add: reset_run_def)

theorem reset_keeps_other_home:
  assumes "reset_run H m = (m', r)" "project_dir H ''felidae'' = Some d" "storage_dir H (Some h) = Inr s" "\<not> prefix d s" "prefix s p"
    and "\<not> prefix s d"
  shows "files m' p = files m p \<and> (p \<in> dirs m' \<longleftrightarrow> p \<in> dirs m)"
proof -
  have "\<not> prefix d p" using assms(4-6) by (metis prefix_same_cases)
  then show ?thesis
    using assms(1,2)
    by (auto simp: reset_run_def remove_dir_all_def remove_tree_def println_def split: if_splits)
qed

end
