(* ===== verification/Query_Cli.thy ===== *)
theory Query_Cli
  imports Query_Api Machine
begin

text \<open>
  The query commands: \<open>crates/felidae/src/cli/query.rs\<close>. Each asks one path of the query server, reads the
  answer as the response type of the endpoint and prints it. Decoding and printing JSON are parameters;
  \<open>None\<close> is a request that got no answer.
\<close>

datatype query_command =
    QuerySnapshot | QueryEnrollmentVotes "string option" | QueryEnrollmentPending | QueryAdminVotes
  | QueryAdminPending | QueryConfig

datatype response_type = StringMap | OracleVotes | PendingObservations | AdminVotes | PendingConfigs | ChainConfig

datatype query_error = QueryUnanswered | QueryStatus nat | QueryBody | QueryJson

fun query_endpoint :: "query_command \<Rightarrow> string" where
  "query_endpoint QuerySnapshot = ''/snapshot''"
| "query_endpoint (QueryEnrollmentVotes d) =
     (case d of Some domain \<Rightarrow> ''/enrollment/votes/'' @ domain | None \<Rightarrow> ''/enrollment/votes'')"
| "query_endpoint QueryEnrollmentPending = ''/enrollment/pending''"
| "query_endpoint QueryAdminVotes = ''/admin/votes''"
| "query_endpoint QueryAdminPending = ''/admin/pending''"
| "query_endpoint QueryConfig = ''/config''"

fun query_response :: "query_command \<Rightarrow> response_type" where
  "query_response QuerySnapshot = StringMap"
| "query_response (QueryEnrollmentVotes d) = OracleVotes"
| "query_response QueryEnrollmentPending = PendingObservations"
| "query_response QueryAdminVotes = AdminVotes"
| "query_response QueryAdminPending = PendingConfigs"
| "query_response QueryConfig = ChainConfig"

definition query_run ::
  "(string \<Rightarrow> http_answer option) \<Rightarrow> (response_type \<Rightarrow> string \<Rightarrow> json option) \<Rightarrow> (json \<Rightarrow> string option)
    \<Rightarrow> query_command \<Rightarrow> machine \<Rightarrow> machine \<times> (query_error + unit)" where
  "query_run http_get decode_as pretty cmd m =
    lift_res m (ok_or QueryUnanswered (http_get (query_endpoint cmd))) (\<lambda>a.
    lift_res m (check (\<not> (400 \<le> ha_status a \<and> ha_status a < 600)) (QueryStatus (ha_status a))) (\<lambda>_.
    lift_res m (ok_or QueryBody (ha_text a)) (\<lambda>text.
    lift_res m (ok_or QueryJson (decode_as (query_response cmd) text)) (\<lambda>response.
    lift_res m (ok_or QueryJson (pretty response)) (\<lambda>text. (println text m, Inr ()))))))"

text \<open>Every command asks for a path the server routes to the endpoint of its name.\<close>

fun path_segments :: "string \<Rightarrow> string list" where
  "path_segments p = (case p of [] \<Rightarrow> [] | c # rest \<Rightarrow> if rest = [] then [] else split_on CHR ''/'' rest)"

lemma queries_are_routed:
  "app E P (path_segments (query_endpoint QuerySnapshot)) st = Some (snapshot_endpoint E (Domain fqdn_root) st)"
  "app E P (path_segments (query_endpoint (QueryEnrollmentVotes None))) st =
    Some (enrollment_votes_endpoint E (Domain fqdn_root) st)"
  "d \<noteq> [] \<Longrightarrow> CHR ''/'' \<notin> set d \<Longrightarrow> app E P (path_segments (query_endpoint (QueryEnrollmentVotes (Some d)))) st =
    Some (for_domain E d (\<lambda>d. enrollment_votes_endpoint E d st))"
  "app E P (path_segments (query_endpoint QueryEnrollmentPending)) st =
    Some (enrollment_pending_endpoint E (Domain fqdn_root) st)"
  "app E P (path_segments (query_endpoint QueryAdminVotes)) st = Some (admin_votes_endpoint E st)"
  "app E P (path_segments (query_endpoint QueryAdminPending)) st = Some (admin_pending_endpoint E st)"
  "app E P (path_segments (query_endpoint QueryConfig)) st = Some (config_endpoint E st)"
  by (simp_all add: split_on_single)

end
