(* ===== verification/Command_Line.thy ===== *)
theory Command_Line
  imports Server_Start Node_Storage Compare_State Query_Cli Reconstruct
begin

text \<open>
  The three programs from their parsed arguments on: \<open>crates/felidae/src/cli.rs\<close> with the subcommands of
  \<open>cli/admin.rs\<close>, \<open>cli/oracle.rs\<close> and \<open>cli/debug.rs\<close>, \<open>crates/felidae-deployer/src/cli.rs\<close>, and
  \<open>crates/felidae-publish/src/main.rs\<close>. Each runs the command chosen on the outside it would see. The two
  commands that serve until they are stopped end in what they serve. Parsing the arguments is clap's.
\<close>

section \<open>The node's program\<close>

datatype admin_options =
    AdminInit "path option" | AdminIdentity "path option"
  | AdminTemplate bool "path option" "path option" "path option"
  | AdminConfig path string duration duration "path option"

datatype oracle_options =
    OracleInit "path option" | OracleIdentity "path option"
  | OracleObserve fqdn "fqdn option" "string option" "path option"
  | OracleServer "path option"

datatype debug_options =
    DebugCompareState path path "path option" nat
  | DebugConvertKey key_format key_format "string option"

datatype felidae_options =
    Start "path option" | Reset | AdminCommand admin_options | OracleCommand oracle_options
  | QueryCommand query_command | DebugCommand debug_options

text \<open>What the outside answers: the sites observed, the query server and the node, the clock, the standard
  input, the storages on disk and the environment of the process.\<close>

record outside =
  site_get :: "string \<Rightarrow> http_answer option"
  query_get :: "string \<Rightarrow> http_answer option"
  node_get :: "string \<Rightarrow> (string \<times> string) list \<Rightarrow> http_answer option"
  node_latest :: "latest_block option"
  node_broadcast :: "bytes \<Rightarrow> bool option"
  clock :: time
  standard_input :: "string option"
  storage_at :: "path \<Rightarrow> (u64 \<times> contents) option"
  decode_response :: "response_type \<Rightarrow> string \<Rightarrow> json option"
  json_text_of :: "json \<Rightarrow> string option"
  pow_difficulty_var :: "u8 option"

datatype cli_error =
    CommandFailed command_error | ObserveFailed observe_error | QueryFailed query_error
  | CompareFailed compare_error | StorageUnreadable path

datatype outcome = Finished | NodeServes path "u64 \<times> contents" | OracleServes app_state

definition finish :: "('e \<Rightarrow> cli_error) \<Rightarrow> machine \<times> ('e + unit) \<Rightarrow> machine \<times> (cli_error + outcome)" where
  "finish err r = (fst r, ebind (map_err err (snd r)) (\<lambda>_. Inr Finished))"

fun admin_run ::
  "env \<Rightarrow> client_env \<Rightarrow> host_env \<Rightarrow> outside \<Rightarrow> admin_options \<Rightarrow> machine \<Rightarrow> machine \<times> (command_error + unit)" where
  "admin_run E C H W (AdminInit homedir) m = key_init E C H AdminKey homedir m"
| "admin_run E C H W (AdminIdentity homedir) m = key_identity E C H AdminKey homedir m"
| "admin_run E C H W (AdminTemplate read_local_keys admin_pubkey oracle_pubkey homedir) m =
     admin_template E C H read_local_keys admin_pubkey oracle_pubkey homedir m"
| "admin_run E C H W (AdminConfig p chain signature_timeout grace homedir) m =
     admin_config E C H (node_get W) (clock W) p chain signature_timeout grace homedir m"

text \<open>The zone is settled before the key file is looked for.\<close>

definition oracle_observe ::
  "env \<Rightarrow> client_env \<Rightarrow> host_env \<Rightarrow> outside \<Rightarrow> fqdn \<Rightarrow> fqdn option \<Rightarrow> string option \<Rightarrow> path option \<Rightarrow> machine
    \<Rightarrow> machine \<times> (cli_error + outcome)" where
  "oracle_observe E C H W d zone_opt chain homedir m =
    lift_res m (map_err ObserveFailed
      (case zone_opt of Some z \<Rightarrow> Inr z | None \<Rightarrow> map_err ZoneFailed (infer_zone E C d))) (\<lambda>z.
    case keypath H OracleKey homedir m of (m, r) \<Rightarrow>
    lift_res m (map_err CommandFailed r) (\<lambda>p.
    finish ObserveFailed
      (m, observe_domain E C (ok (read_to_string p m)) (site_get W) (node_latest W) (node_broadcast W) chain d z)))"

fun oracle_run ::
  "env \<Rightarrow> client_env \<Rightarrow> host_env \<Rightarrow> outside \<Rightarrow> oracle_options \<Rightarrow> machine \<Rightarrow> machine \<times> (cli_error + outcome)" where
  "oracle_run E C H W (OracleInit homedir) m = finish CommandFailed (key_init E C H OracleKey homedir m)"
| "oracle_run E C H W (OracleIdentity homedir) m = finish CommandFailed (key_identity E C H OracleKey homedir m)"
| "oracle_run E C H W (OracleObserve d zone_opt chain homedir) m = oracle_observe E C H W d zone_opt chain homedir m"
| "oracle_run E C H W (OracleServer homedir) m =
     (case server_state E H homedir (pow_difficulty_var W) m of (m, r) \<Rightarrow>
      (m, ebind (map_err CommandFailed r) (\<lambda>state. Inr (OracleServes state))))"

fun debug_run ::
  "env \<Rightarrow> host_env \<Rightarrow> outside \<Rightarrow> debug_options \<Rightarrow> machine \<Rightarrow> machine \<times> (cli_error + outcome)" where
  "debug_run E H W (DebugCompareState path_a path_b output_diff preview) m =
     finish CompareFailed (compare_state E (storage_at W) path_a path_b output_diff preview m)"
| "debug_run E H W (DebugConvertKey from_format to_format key) m =
     finish CommandFailed (convert_key E H (standard_input W) from_format to_format key m)"

definition start_run :: "host_env \<Rightarrow> outside \<Rightarrow> path option \<Rightarrow> machine \<Rightarrow> machine \<times> (cli_error + outcome)" where
  "start_run H W homedir m =
    (m, ebind (map_err CommandFailed (storage_dir H homedir)) (\<lambda>d.
        ebind (ok_or (StorageUnreadable d) (storage_at W d)) (\<lambda>s. Inr (NodeServes d s))))"

fun felidae_run ::
  "env \<Rightarrow> client_env \<Rightarrow> host_env \<Rightarrow> outside \<Rightarrow> felidae_options \<Rightarrow> machine \<Rightarrow> machine \<times> (cli_error + outcome)" where
  "felidae_run E C H W (Start homedir) m = start_run H W homedir m"
| "felidae_run E C H W Reset m = finish CommandFailed (reset_run H m)"
| "felidae_run E C H W (AdminCommand cmd) m = finish CommandFailed (admin_run E C H W cmd m)"
| "felidae_run E C H W (OracleCommand cmd) m = oracle_run E C H W cmd m"
| "felidae_run E C H W (QueryCommand cmd) m =
     finish QueryFailed (query_run (query_get W) (decode_response W) (json_text_of W) cmd m)"
| "felidae_run E C H W (DebugCommand cmd) m = debug_run E H W cmd m"

text \<open>Commands that only look leave every file and directory as it is, whatever they return.\<close>

fun only_looks :: "felidae_options \<Rightarrow> bool" where
  "only_looks (Start homedir) = True"
| "only_looks (QueryCommand cmd) = True"
| "only_looks (DebugCommand (DebugConvertKey from_format to_format key)) = True"
| "only_looks (DebugCommand (DebugCompareState path_a path_b output_diff preview)) = (output_diff = None)"
| "only_looks cmd = False"

lemma println_disk [simp]: "files (println s m) = files m" "dirs (println s m) = dirs m"
  by (simp_all add: println_def)

lemma fold_println_disk [simp]: "files (fold println ls m) = files m" "dirs (fold println ls m) = dirs m"
  by (induction ls arbitrary: m) simp_all

theorem looking_commands_change_no_file:
  assumes "only_looks cmd"
  shows "files (fst (felidae_run E C H W cmd m)) = files m \<and> dirs (fst (felidae_run E C H W cmd m)) = dirs m"
proof -
  let ?P = "\<lambda>m'. files m' = files m \<and> dirs m' = dirs m"
  have "?P (fst (query_run g d t q m))" for g d t q
    unfolding query_run_def by (intro lift_res_P [where P = ?P]) simp_all
  moreover have "?P (fst (convert_key E H i f g k m))" for i f g k
    unfolding convert_key_def by (intro lift_res_P [where P = ?P]) simp_all
  moreover have "?P (fst (compare_state E l a b None n m))" for l a b n
    unfolding compare_state_def Let_def by (intro lift_res_P [where P = ?P]) simp_all
  ultimately show ?thesis
    using assms by (cases cmd rule: only_looks.cases) (simp_all add: start_run_def finish_def)
qed

section \<open>The deployer\<close>

text \<open>The arguments of \<open>create-network\<close> in the order of \<open>create_network_command\<close>: chain id, number of validators,
  sentries, directory, commit timeout and the two delays.\<close>

datatype deployer_options =
    CreateNetwork string nat bool path string duration duration | RunNetwork run_args

fun deployer_run ::
  "env \<Rightarrow> client_env \<Rightarrow> deploy_env \<Rightarrow> world \<Rightarrow> deployer_options \<Rightarrow> machine \<Rightarrow> run_result" where
  "deployer_run E C D W (CreateNetwork chain n sentry_nodes d commit_timeout oracle_delay admin_delay) m =
     (case create_network_command E C D chain n sentry_nodes d commit_timeout oracle_delay admin_delay m of
        (m, r) \<Rightarrow> ((m, []), Some r))"
| "deployer_run E C D W (RunNetwork args) m = run_network E C D W args m"

section \<open>The publisher\<close>

datatype publish_command = PublishPrint "u64 option" | PublishVerify "u64 option" | PublishReconstruct

record publish_args =
  pa_node :: string
  pa_query_url :: string
  pa_timeout :: u64
  pa_command :: publish_command

datatype publish_error = InvalidRpcUrl | PublishFailed light_error
datatype published = PrintedBlock light_block | VerifiedHash string | Reconstructed

text \<open>\<open>connect\<close> is the client for the node's URL, if it is one: what the node answers for its status and each
  height; \<open>leaves\<close> what the query server at a URL answers, \<open>polls\<close> the later answers of the node.\<close>

definition publish_main ::
  "env \<Rightarrow> 'p light_env \<Rightarrow> (string \<Rightarrow> ((light_error + node_status) \<times> (height \<Rightarrow> rpc_answers)) option)
    \<Rightarrow> (string \<Rightarrow> light_error + canonical_leaves_response) \<Rightarrow> (height \<Rightarrow> rpc_answers) list \<Rightarrow> contents \<Rightarrow> publish_args
    \<Rightarrow> (publish_error + published) option" where
  "publish_main E L connect leaves polls temp_contents args =
    (case connect (pa_node args) of
       None \<Rightarrow> Some (Inl InvalidRpcUrl)
     | Some (status, rpc) \<Rightarrow>
         let timeout_limit = from_secs (pa_timeout args) in
         (case pa_command args of
            PublishPrint h \<Rightarrow>
              map_option (\<lambda>r. ebind (map_err PublishFailed r) (\<lambda>lb. Inr (PrintedBlock lb)))
                (print_command E L status rpc h timeout_limit)
          | PublishVerify h \<Rightarrow>
              map_option (\<lambda>r. ebind (map_err PublishFailed r) (\<lambda>hash. Inr (VerifiedHash hash)))
                (verify_command E L status rpc h timeout_limit)
          | PublishReconstruct \<Rightarrow>
              map_option (\<lambda>r. ebind (map_err PublishFailed r) (\<lambda>_. Inr Reconstructed))
                (reconstruct E L (leaves (pa_query_url args)) rpc polls temp_contents timeout_limit)))"

end
