(* ===== verification/Spec2Isabelle.thy ===== *)
theory Spec2Isabelle
  imports Props_Data Props_Types Props_Queue Props_Actions Props_Chain Props_Query Props_Publish Props_Clients
    Props_Deploy Props_Path Props_Server Command_Line
begin

text \<open>
  The verification of Felidae: a replicated state machine, run under CometBFT, on which a set of
  oracles vote what hash a web domain publishes and a set of administrators vote the configuration; the
  clients that sign its transactions, the HTTP server that answers queries about it, and the publisher
  that checks its answers.

  \<^bold>\<open>Parts of the program and how they meet.\<close> A client (\<open>felidae-oracle\<close>, \<open>felidae-admin\<close>, the
  commands of \<open>felidae\<close>) builds a transaction, signs every action in it by the key of its actor and
  submits it. CometBFT hands the node (\<open>felidae-state\<close>) the requests InitChain, CheckTx,
  PrepareProposal, ProcessProposal, FinalizeBlock and Commit. FinalizeBlock records height, time and app
  hash, times out old votes, authenticates and executes each transaction (an action becomes a vote in one
  of two queues), promotes ripe pending changes to the configuration and to the canonical table, and
  prepares the batch that Commit writes. The HTTP server reads the committed state, and
  \<open>felidae-publish\<close> verifies and rebuilds the canonical table from what that server and the RPC answer.
  Before all this, \<open>felidae-deployer\<close> lays a network out on the disk: ports, key files, configurations and
  the one genesis document whose application state InitChain reads.

  \<^bold>\<open>Theories and sources\<close> (paths under \<open>src/crates/\<close>; functions keep the names of the source).
  \<^item> \<open>Prelude\<close>: \<open>Result\<close> as a sum with the combinators that stand for \<open>?\<close>, state passing with errors
    (\<open>lift_res\<close>, \<open>andthen\<close>, \<open>for_each\<close>), the string functions of the standard library, integer
    conversions, big-endian bytes. \<open>Ordered_Map\<close>: the key-value contents of the storage library in key
    order, with range and prefix scans.
  \<^item> \<open>Base_Data\<close>, \<open>Types\<close>: \<open>felidae-types/src/transaction.rs\<close> and \<open>transaction/build.rs\<close>. \<open>Proto\<close>:
    \<open>felidae-proto/src/transaction.proto\<close>. \<open>Convert\<close>, \<open>Convert_Tx\<close>:
    \<open>felidae-types/src/transaction/convert.rs\<close>. \<open>Sign\<close>: \<open>felidae-proto/src/transaction/sign.rs\<close>,
    \<open>sign/signer.rs\<close>, \<open>felidae-types/src/transaction/authenticated.rs\<close> and the traversal crates.
  \<^item> \<open>Store\<close>: \<open>felidae-state/src/store.rs\<close>; a \<open>store\<close> has the committed contents, the pending ones and
    the staged batch. \<open>Keys\<close>: \<open>state/voting/vote_queue/keys.rs\<close> and the typed codecs. \<open>Chain_State\<close>:
    heights, times, app hashes, configuration, canonical table, validators. \<open>Vote_Queue\<close>:
    \<open>state/voting/vote_queue.rs\<close>, generic in key and value like the code, with the two instances of
    \<open>state/voting.rs\<close>. \<open>Actions\<close>, \<open>Abci\<close>: \<open>state/action/\<close>, \<open>state/abci/\<close> and \<open>abci.rs\<close>. \<open>Node\<close>: the
    step relation of a node under arbitrary requests and its reachable states.
  \<^item> \<open>Query_Api\<close>: \<open>felidae/src/cli/start/query.rs\<close>, \<open>felidae-types/src/response.rs\<close>. \<open>Light_Client\<close>,
    \<open>Reconstruct\<close>: \<open>felidae-publish\<close>. \<open>Oracle\<close>: \<open>felidae-oracle\<close>, \<open>felidae-admin\<close>,
    \<open>felidae/src/cli/oracle.rs\<close>, \<open>oracle/zone.rs\<close>. \<open>Oracle_Server\<close>, \<open>Server_Start\<close>: \<open>oracle/server.rs\<close>, the
    handlers, and the start with its secret and routes.
  \<^item> \<open>Machine\<close>: what a command sees of the computer: files and directories, refused paths, the random
    generator, the lines printed. \<open>Key_Commands\<close>: \<open>felidae/src/cli/admin.rs\<close>, the key commands of
    \<open>cli/oracle.rs\<close>, \<open>cli/debug/key_convert.rs\<close>. \<open>Query_Cli\<close>: \<open>cli/query.rs\<close>. \<open>Compare_State\<close>:
    \<open>cli/debug/compare_state.rs\<close>. \<open>Node_Storage\<close>: \<open>cli/reset.rs\<close> and the directory of \<open>cli/start.rs\<close>.
    \<open>Command_Line\<close>: the three programs from their parsed arguments on (\<open>felidae/src/cli.rs\<close> with its
    subcommands, \<open>felidae-deployer/src/cli.rs\<close>, \<open>felidae-publish/src/main.rs\<close>), each command on what it
    sees of the outside.
  \<^item> \<open>Deploy_Network\<close>: \<open>felidae-deployer/src/ports.rs\<close>, \<open>node.rs\<close> and the part of \<open>network.rs\<close> that only
    computes. \<open>Deploy_Files\<close>: the rest of \<open>network.rs\<close> and \<open>cli/create_network.rs\<close>. \<open>Deploy_Run\<close>:
    \<open>cli/run_network.rs\<close>, with the outside (which processes start, what \<open>try_wait\<close> says in each round) as
    the record \<open>world\<close>.

  \<^bold>\<open>Lemmas.\<close> \<open>Queue_State\<close> gives a queue its abstract state (\<open>votes_view\<close>: who voted what, when;
  \<open>pending_view\<close>: what waits since when) and the invariant \<open>queue_ok\<close> that ties its four tables
  together; \<open>Queue_Reads\<close> and \<open>Queue_Ops\<close> show that the reads and operations refine that abstract state
  and keep the invariant; \<open>Queue_Instances\<close> interprets them for the two queues. \<open>State_Facts\<close>,
  \<open>State_Invariant\<close>, \<open>Block_Facts\<close> and \<open>Genesis\<close> carry the invariant \<open>state_ok\<close> through actions,
  transactions, blocks and the start of the chain, with what each step changes; \<open>Observation_Path\<close> follows a
  pending hash through the blocks to the canonical table; \<open>Enrollment\<close> counts enrolled names; \<open>Query_Facts\<close> and \<open>Client_Facts\<close> do the same for the query interface and the clients.
  \<open>Deploy_Facts\<close> and \<open>Deploy_Create\<close> follow a node and a whole network from nothing to the files they
  need, in a \<open>workspace\<close>: a directory the system lets the program work in. The theories \<open>Props_*\<close> and
  this one hold the properties, each with a witness in the environment and the states of \<open>Sample_Codec\<close>, \<open>Sample_Environment\<close>, \<open>Sample_State\<close> and \<open>Sample_Json\<close>. Locales state the
  contracts of ordered maps, of message codecs, of the row tables of a queue and of a store of files; each
  is interpreted on the definitions of the code.

  \<^bold>\<open>What is a parameter.\<close> Code that is not in the repository is a field of a record every definition
  that uses it takes: \<open>env\<close> (hex, RFC 3339 times, domain name parsing, SHA-256, P-256, the byte encoding
  of messages, Merkle roots, JSON, the iteration order of a \<open>HashMap\<close>), \<open>prover\<close> and \<open>light_env\<close> (Merkle
  proofs, header hashes, vote signatures), \<open>client_env\<close> (PKCS#8, enrollment JSON, base64url, the public
  suffix list), \<open>host_env\<close> and \<open>deploy_env\<close> (directories of an application, base64, JSON texts, Ed25519
  keys, the clock). \<open>env_ok\<close> is the documented behaviour of the first: encodings are read back, names have
  no slash, conversions accept exactly the range of their type. A theorem that needs more names it:
  \<open>ecdsa_correct\<close> (a signature made by a key verifies under it), \<open>sha256_length\<close>, \<open>pkcs8_correct\<close>,
  \<open>substore_roots\<close> (the root of a substore depends on its contents only), and for the deployer
  \<open>json_texts_ok\<close> (a JSON text is read back), \<open>hex_digits\<close> and \<open>pkcs8_total\<close>. \<open>sample_env\<close> and
  \<open>deploy_sample_env\<close> satisfy them. What the network answers is data.

  \<^bold>\<open>Bounds and fuel.\<close> Integers have the width of the code and wrap as in a release build; where a debug
  build would panic the text says so. The loops of the code are recursions over the data they walk.
  \<open>decimal 20\<close> prints the at most 20 digits of a \<open>u64\<close>; \<open>trim_front\<close> has the length of the text as fuel,
  and each step removes at least one byte; the attempts of the light client and of the oracle are at
  most the bound the code has. A call that polls a remote node takes the list of its answers and is
  \<open>None\<close> while that list is not long enough.

  \<^bold>\<open>Not modelled.\<close> The text of JSON bodies and of error messages, HTTP and RPC transport, logging, the
  warnings on standard error and argument parsing have no state the program depends on. A request to the
  node is one step: the code clones the handle of the store for every call and takes its locks inside,
  and CometBFT sends the requests that write one after the other; a CheckTx that runs between the locks of
  another request is not modelled. \<open>start\<close> ends in the storage it serves: binding the two servers and
  waiting for them is left out, and so is the listener of the oracle server. The threads that copy the output of child processes, the text of build and
  start errors and the set-up of logging in the \<open>main\<close> functions are left out. A write to a file succeeds or
  fails as a whole.
\<close>

section \<open>The node\<close>

text \<open>C1: Whatever blocks and transactions a node is given, in every state it can reach its queues, its
  canonical table, its configuration and its validators are well formed, both in the pending contents
  and in the batch staged for the next commit.\<close>

theorem node_safety:
  assumes "env_ok E" "node_reachable E n"
  shows "node_ok E n"
  by (rule node_reachable_ok [OF assms])

lemma sample_start_reachable: "node_reachable sample_env (Ready, sample_start)"
proof -
  obtain resp where "init_chain sample_env sample_genesis empty_contents = (sample_state, Inr resp)"
    by (rule init_chain_effect [OF env_ok_sample sample_genesis_ok(1,3) _ sample_genesis_ok(4)])
      (simp_all add: sample_state_def)
  then have "call sample_env (RInitChain sample_genesis) (store_new empty_contents)
      = (sample_start, Inr (InitChainResponse resp))"
    by (simp add: on_pending_def store_new_def sample_start_def)
  then have "node_step sample_env (Started, store_new empty_contents) (Ready, sample_start)"
    by (rule node_step.init) simp_all
  then show ?thesis by (rule node_reachable.step [OF node_reachable.start])
qed

theorem node_safety_witness: "node_ok sample_env (Ready, sample_start)"
  by (rule node_safety [OF env_ok_sample sample_start_reachable])

end
